theory Spec2Isabelle
  imports Main "HOL-Library.Word" "HOL-Library.Monad_Syntax"
begin

unbundle bit_operations_syntax

section \<open>Values shared by every component\<close>

text \<open>
  The program is JavaScript (\<^verbatim>\<open>src/js/unicorn-debugger.js\<close>). Its numbers are IEEE doubles;
  every address, offset and size is modelled as a natural number (or an integer where the
  source can go negative). Doubles represent integers exactly below \<open>2 ^ 53\<close>; where the
  source turns a 64-bit quantity read from the file into a number, the model rounds it as
  the language does (\<open>toNumber\<close>), and so are the sums and differences of the addresses
  an image is loaded at (\<open>numAdd\<close>, \<open>numSub\<close>). Offsets into the file are taken exactly: a
  buffer is shorter than \<open>2 ^ 53\<close> bytes, so an offset that a double cannot hold is
  outside the buffer whether it is rounded or not. Bytes are \<open>8 word\<close>.
\<close>

type_synonym byte = "8 word"

text \<open>What the source can throw: the parser's own error, the typed-array range error, a
  property read on \<^verbatim>\<open>undefined\<close>, and the errors of the two engines.\<close>

datatype js_error =
    NotAnELF
  | RangeError
  | TypeError
  | UC_ERR_INSN_INVALID
  | UC_ERR_FETCH_UNMAPPED
  | UC_ERR_MAP
  | UC_ERR_WRITE_UNMAPPED
  | UC_ERR_OTHER
  | CS_ERR

text \<open>The number a run of bytes spells, least significant byte first.\<close>

fun leNat :: "byte list \<Rightarrow> nat" where
  "leNat [] = 0"
| "leNat (b # bs) = unat b + 256 * leNat bs"

text \<open>The double nearest to a non-negative integer, as \<^verbatim>\<open>Number(bigint)\<close> and the
  floating-point sum \<^verbatim>\<open>hi * 0x100000000 + lo\<close> give it: the integer itself below
  \<open>2 ^ 53\<close>, otherwise its 53 leading bits, rounded to nearest with ties to even.\<close>

fun bitLength :: "nat \<Rightarrow> nat" where
  "bitLength n = (if n = 0 then 0 else Suc (bitLength (n div 2)))"

definition toNumber :: "nat \<Rightarrow> nat" where
  "toNumber n =
     (if n < 0x20000000000000 then n
      else
        (let ulp = 2 ^ (bitLength n - 53); q = n div ulp; r = n mod ulp
         in if 2 * r < ulp \<or> (2 * r = ulp \<and> even q) then q * ulp else (q + 1) * ulp))"

section \<open>The ELF reader: \<^verbatim>\<open>readUint\<close>, \<^verbatim>\<open>getString\<close>, \<^verbatim>\<open>parseELF\<close>\<close>

text \<open>
  The input is an \<^verbatim>\<open>ArrayBuffer\<close>, a list of bytes. Every \<^verbatim>\<open>DataView\<close> getter throws
  a \<^verbatim>\<open>RangeError\<close> when the bytes it wants do not all lie inside the buffer; in the
  readers below \<open>None\<close> is that throw.
\<close>

definition readBytes :: "byte list \<Rightarrow> nat \<Rightarrow> nat \<Rightarrow> byte list option" where
  "readBytes v off n = (if off + n \<le> length v then Some (take n (drop off v)) else None)"

definition getUint8 :: "byte list \<Rightarrow> nat \<Rightarrow> nat option" where
  "getUint8 v off = (if off < length v then Some (unat (v ! off)) else None)"

definition getUint16 :: "byte list \<Rightarrow> nat \<Rightarrow> bool \<Rightarrow> nat option" where
  "getUint16 v off le = map_option (\<lambda>bs. leNat (if le then bs else rev bs)) (readBytes v off 2)"

definition getUint32 :: "byte list \<Rightarrow> nat \<Rightarrow> bool \<Rightarrow> nat option" where
  "getUint32 v off le = map_option (\<lambda>bs. leNat (if le then bs else rev bs)) (readBytes v off 4)"

text \<open>\<^verbatim>\<open>readUint\<close>. For eight bytes the source takes the first word as the low one in
  both byte orders, and adds the two halves as doubles.\<close>

definition readUint :: "byte list \<Rightarrow> nat \<Rightarrow> nat \<Rightarrow> bool \<Rightarrow> nat option" where
  "readUint v off sz le =
     (if sz = 1 then getUint8 v off
      else if sz = 2 then getUint16 v off le
      else if sz = 4 then getUint32 v off le
      else do {
        lo \<leftarrow> getUint32 v off le;
        hi \<leftarrow> getUint32 v (off + 4) le;
        Some (toNumber (hi * 0x100000000 + lo))
      })"

text \<open>\<^verbatim>\<open>String.fromCharCode\<close> on one byte.\<close>

definition fromCharCode :: "byte \<Rightarrow> char" where
  "fromCharCode b = char_of (unat b)"

text \<open>\<^verbatim>\<open>getString\<close>: bytes up to the first zero; running off the buffer throws.\<close>

fun getStringFrom :: "byte list \<Rightarrow> string option" where
  "getStringFrom [] = None"
| "getStringFrom (b # bs) =
     (if b = 0 then Some [] else map_option ((#) (fromCharCode b)) (getStringFrom bs))"

definition getString :: "byte list \<Rightarrow> nat \<Rightarrow> string option" where
  "getString v off = getStringFrom (drop off v)"

datatype elf_class = ELF32 | ELF64

datatype elf_data = LittleEndian | BigEndian

record elf_header =
  e_class :: elf_class
  e_data :: elf_data
  e_entry :: nat
  e_phoff :: nat
  e_shoff :: nat
  e_phentsz :: nat
  e_phnum :: nat
  e_shentsz :: nat
  e_shnum :: nat
  e_shstrndx :: nat

record program_header =
  p_type :: nat
  p_flags :: nat
  p_offset :: nat
  p_vaddr :: nat
  p_filesz :: nat
  p_memsz :: nat
  p_align :: nat

record section_header =
  sh_nameOff :: nat
  sh_type :: nat
  sh_flags :: nat
  sh_addr :: nat
  sh_offset :: nat
  sh_size :: nat
  sh_link :: nat
  sh_info :: nat
  sh_addralign :: nat
  sh_entsize :: nat
  sh_name :: string

record elf_image =
  elfHeader :: elf_header
  programHeaders :: "program_header list"
  sectionHeaders :: "section_header list"
  view :: "byte list"

text \<open>The callback of \<^verbatim>\<open>[0x7F,0x45,0x4C,0x46].some(...)\<close>, element by element: \<open>Inr True\<close>
  at the first byte that differs, a range error at the first byte that is not there.\<close>

fun magicSome :: "byte list \<Rightarrow> (nat \<times> nat) list \<Rightarrow> js_error + bool" where
  "magicSome v [] = Inr False"
| "magicSome v ((i, x) # rest) =
     (case getUint8 v i of
        None \<Rightarrow> Inl RangeError
      | Some b \<Rightarrow> if b \<noteq> x then Inr True else magicSome v rest)"

definition elfMagic :: "(nat \<times> nat) list" where
  "elfMagic = [(0, 0x7F), (1, 0x45), (2, 0x4C), (3, 0x46)]"

definition readHeader :: "byte list \<Rightarrow> bool \<Rightarrow> bool \<Rightarrow> elf_header option" where
  "readHeader v is32 le =
     (let ptr = (if is32 then 4 else 8) in
      do {
        entry \<leftarrow> readUint v 24 ptr le;
        phoff \<leftarrow> readUint v (if is32 then 28 else 32) ptr le;
        shoff \<leftarrow> readUint v (if is32 then 32 else 40) ptr le;
        phentsz \<leftarrow> readUint v (if is32 then 42 else 54) 2 le;
        phnum \<leftarrow> readUint v (if is32 then 44 else 56) 2 le;
        shentsz \<leftarrow> readUint v (if is32 then 46 else 58) 2 le;
        shnum \<leftarrow> readUint v (if is32 then 48 else 60) 2 le;
        shstrndx \<leftarrow> readUint v (if is32 then 50 else 62) 2 le;
        Some \<lparr> e_class = (if is32 then ELF32 else ELF64),
               e_data = (if le then LittleEndian else BigEndian),
               e_entry = entry, e_phoff = phoff, e_shoff = shoff,
               e_phentsz = phentsz, e_phnum = phnum,
               e_shentsz = shentsz, e_shnum = shnum, e_shstrndx = shstrndx \<rparr>
      })"

definition readProgramHeader ::
  "byte list \<Rightarrow> bool \<Rightarrow> bool \<Rightarrow> elf_header \<Rightarrow> nat \<Rightarrow> program_header option" where
  "readProgramHeader v is32 le eh i =
     (let ptr = (if is32 then 4 else 8); off = e_phoff eh + i * e_phentsz eh in
      do {
        type \<leftarrow> readUint v off 4 le;
        flags \<leftarrow> readUint v (if is32 then off + 24 else off + 4) 4 le;
        offset \<leftarrow> readUint v (off + (if is32 then 4 else 8)) ptr le;
        vaddr \<leftarrow> readUint v (off + (if is32 then 8 else 16)) ptr le;
        filesz \<leftarrow> readUint v (off + (if is32 then 16 else 32)) ptr le;
        memsz \<leftarrow> readUint v (off + (if is32 then 20 else 40)) ptr le;
        align \<leftarrow> readUint v (off + (if is32 then 28 else 48)) ptr le;
        Some \<lparr> p_type = type, p_flags = flags, p_offset = offset, p_vaddr = vaddr,
               p_filesz = filesz, p_memsz = memsz, p_align = align \<rparr>
      })"

definition readSectionHeader ::
  "byte list \<Rightarrow> bool \<Rightarrow> bool \<Rightarrow> elf_header \<Rightarrow> nat \<Rightarrow> section_header option" where
  "readSectionHeader v is32 le eh i =
     (let ptr = (if is32 then 4 else 8); off = e_shoff eh + i * e_shentsz eh in
      do {
        nameOff \<leftarrow> readUint v off 4 le;
        type \<leftarrow> readUint v (off + 4) 4 le;
        flags \<leftarrow> readUint v (off + 8) ptr le;
        addr \<leftarrow> readUint v (if is32 then off + 12 else off + 16) ptr le;
        offset \<leftarrow> readUint v (if is32 then off + 16 else off + 24) ptr le;
        sz \<leftarrow> readUint v (if is32 then off + 20 else off + 32) ptr le;
        link \<leftarrow> readUint v (off + (if is32 then 24 else 40)) 4 le;
        info \<leftarrow> readUint v (off + (if is32 then 28 else 44)) 4 le;
        addralign \<leftarrow> readUint v (if is32 then off + 32 else off + 48) ptr le;
        entsize \<leftarrow> readUint v (if is32 then off + 36 else off + 56) ptr le;
        Some \<lparr> sh_nameOff = nameOff, sh_type = type, sh_flags = flags, sh_addr = addr,
               sh_offset = offset, sh_size = sz, sh_link = link, sh_info = info,
               sh_addralign = addralign, sh_entsize = entsize, sh_name = [] \<rparr>
      })"

text \<open>\<^verbatim>\<open>sh.forEach(s => s.name = getString(view, strsh.offset + s.nameOff))\<close> with
  \<^verbatim>\<open>strsh = sh[eh.shstrndx]\<close>: nothing happens on an empty table; an index outside the
  table makes \<^verbatim>\<open>strsh\<close> undefined and the first callback throws a \<^verbatim>\<open>TypeError\<close>.\<close>

definition resolveNames ::
  "byte list \<Rightarrow> elf_header \<Rightarrow> section_header list \<Rightarrow> js_error + section_header list" where
  "resolveNames v eh sh =
     (if sh = [] then Inr []
      else if e_shstrndx eh < length sh then
        (case those (map (\<lambda>s. map_option (\<lambda>n. s\<lparr>sh_name := n\<rparr>)
                             (getString v (sh_offset (sh ! e_shstrndx eh) + sh_nameOff s))) sh) of
           None \<Rightarrow> Inl RangeError
         | Some named \<Rightarrow> Inr named)
      else Inl TypeError)"

text \<open>Everything \<^verbatim>\<open>parseELF\<close> reads after the magic check and before the names.\<close>

definition readTables ::
  "byte list \<Rightarrow> (elf_header \<times> program_header list \<times> section_header list) option" where
  "readTables v =
     do {
       c \<leftarrow> getUint8 v 4;
       d \<leftarrow> getUint8 v 5;
       eh \<leftarrow> readHeader v (c = 1) (d = 1);
       ph \<leftarrow> those (map (readProgramHeader v (c = 1) (d = 1) eh) [0..<e_phnum eh]);
       sh \<leftarrow> those (map (readSectionHeader v (c = 1) (d = 1) eh) [0..<e_shnum eh]);
       Some (eh, ph, sh)
     }"

definition parseELF :: "byte list \<Rightarrow> js_error + elf_image" where
  "parseELF buf =
     (case magicSome buf elfMagic of
        Inl e \<Rightarrow> Inl e
      | Inr True \<Rightarrow> Inl NotAnELF
      | Inr False \<Rightarrow>
          (case readTables buf of
             None \<Rightarrow> Inl RangeError
           | Some (eh, ph, sh) \<Rightarrow>
               (case resolveNames buf eh sh of
                  Inl e \<Rightarrow> Inl e
                | Inr named \<Rightarrow>
                    Inr \<lparr> elfHeader = eh, programHeaders = ph,
                          sectionHeaders = named, view = buf \<rparr>)))"

text \<open>The assignment \<^verbatim>\<open>parsed = parseELF(buffer)\<close> inside the \<^verbatim>\<open>try\<close> of
  \<^verbatim>\<open>autoLoadCompiledFile\<close> and of the file-input handler: when the parser throws, the
  global \<^verbatim>\<open>parsed\<close>, the only image the section mapping ever reads, keeps its value.\<close>

definition loadBuffer :: "byte list \<Rightarrow> elf_image option \<Rightarrow> elf_image option" where
  "loadBuffer buf parsed = (case parseELF buf of Inl e \<Rightarrow> parsed | Inr img \<Rightarrow> Some img)"

text \<open>The smallest 64-bit buffer the parser accepts: a little-endian header that declares
  no program and no section headers.\<close>

definition header64 :: "byte list" where
  "header64 = [0x7F, 0x45, 0x4C, 0x46, 2, 1, 1, 0] @ [0, 0, 0, 0, 0, 0, 0, 0, 0, 0, 0, 0, 0, 0, 0, 0, 0, 0, 0, 0, 0, 0, 0, 0, 0, 0, 0, 0, 0, 0, 0, 0, 0, 0, 0, 0, 0, 0, 0, 0, 0, 0, 0, 0, 0, 0, 0, 0, 0, 0, 0, 0, 0, 0, 0, 0]"

section \<open>The emulation and disassembly engines (external collaborators)\<close>

datatype reg =
    X86_REG_RIP | X86_REG_EIP
  | X86_REG_RAX | X86_REG_EAX
  | X86_REG_RSP | X86_REG_ESP
  | X86_REG_RDI | X86_REG_RSI

record insn =
  insn_address :: nat
  insn_size :: nat
  mnemonic :: string
  op_str :: string

text \<open>
  The engines are opaque: the controller only calls them. They are parameters of the model,
  a record of operations over an engine state \<open>'e\<close>. Register access never throws in the
  model; memory reads, disassembly and emulation can. \<open>emu_start e begin until stop\<close> runs
  the engine from \<open>begin\<close> for at most one instruction; it answers the addresses at which
  it called the code hook (in order), the error it threw if any, and the engine state it
  left. \<open>stop\<close> is what the hook answers at an address (\<open>True\<close>: the hook returned
  \<^verbatim>\<open>false\<close>).
\<close>

record 'e engine_ops =
  reg_read :: "'e \<Rightarrow> reg \<Rightarrow> nat"
  reg_write :: "'e \<Rightarrow> reg \<Rightarrow> nat \<Rightarrow> 'e"
  mem_read :: "'e \<Rightarrow> nat \<Rightarrow> nat \<Rightarrow> js_error + byte list"
  emu_start :: "'e \<Rightarrow> nat \<Rightarrow> nat \<Rightarrow> (nat \<Rightarrow> bool) \<Rightarrow> nat list \<times> js_error option \<times> 'e"
  disasm :: "byte list \<Rightarrow> nat \<Rightarrow> js_error + insn list"

section \<open>The symbol resolver: \<^verbatim>\<open>extractFunctionSymbols\<close>, \<^verbatim>\<open>detectFunctionsFromAssembly\<close>\<close>

text \<open>The records both paths push: \<^verbatim>\<open>{name, address, offset}\<close>.\<close>

record func_symbol =
  fn_name :: string
  fn_address :: nat
  fn_offset :: int

text \<open>\<^verbatim>\<open>sectionHeaders.find(sh => sh.name === n)\<close>\<close>

definition findSection :: "string \<Rightarrow> elf_image \<Rightarrow> section_header option" where
  "findSection n p = find (\<lambda>sh. sh_name sh = n) (sectionHeaders p)"

text \<open>\<^verbatim>\<open>new Uint8Array(view.buffer, sh.offset, sh.size)\<close>: a range error unless the section
  lies inside the buffer.\<close>

definition sectionBytes :: "elf_image \<Rightarrow> section_header \<Rightarrow> byte list option" where
  "sectionBytes p sh = readBytes (view p) (sh_offset sh) (sh_size sh)"

text \<open>\<^verbatim>\<open>new DataView(data.buffer, data.byteOffset + off)\<close> followed by a little-endian
  getter at 0: a read at an absolute offset of the whole buffer, not bounded by the
  section. \<^verbatim>\<open>Number(getBigUint64(0, true))\<close> is the 64-bit one.\<close>

definition getBigUint64 :: "byte list \<Rightarrow> nat \<Rightarrow> nat option" where
  "getBigUint64 v off = map_option (\<lambda>bs. toNumber (leNat bs)) (readBytes v off 8)"

text \<open>The name loop over the string table, from \<^verbatim>\<open>nameOffset\<close> to the first zero byte or
  the end of the table; empty when the offset is outside the table.\<close>

definition symbolNameAt :: "byte list \<Rightarrow> nat \<Rightarrow> string" where
  "symbolNameAt strtabData nameOffset =
     (if nameOffset < length strtabData
      then map fromCharCode (takeWhile (\<lambda>b. b \<noteq> 0) (drop nameOffset strtabData))
      else [])"

definition symbolSize :: "bool \<Rightarrow> nat" where
  "symbolSize b = (if b then 24 else 16)"

text \<open>How often \<^verbatim>\<open>for (i = 0; i < size / entry; i++)\<close> runs: the quotient is a double, so
  a trailing partial entry gets an iteration of its own.\<close>

definition loopCount :: "nat \<Rightarrow> nat \<Rightarrow> nat" where
  "loopCount sz entry = (sz + entry - 1) div entry"

record raw_symbol =
  st_name :: string
  st_value :: nat
  st_size :: nat
  st_info :: nat

text \<open>One symbol-table entry as the three symbol loops of the program read it: always the
  name offset and the value, the size and the info byte only where the loop at hand reads
  them (\<open>withSize\<close>, \<open>withInfo\<close>). \<open>None\<close> when one of the reads throws.\<close>

definition readSymbol ::
  "elf_image \<Rightarrow> bool \<Rightarrow> bool \<Rightarrow> bool \<Rightarrow> section_header \<Rightarrow> byte list \<Rightarrow> nat \<Rightarrow>
   raw_symbol option" where
  "readSymbol p b withSize withInfo symtab strtabData i =
     (let at = sh_offset symtab + i * symbolSize b in
      do {
        nameOffset \<leftarrow> getUint32 (view p) at True;
        v \<leftarrow> (if b then getBigUint64 (view p) (at + 8) else getUint32 (view p) (at + 4) True);
        sz \<leftarrow> (if \<not> withSize then Some 0
              else if b then getBigUint64 (view p) (at + 16)
              else getUint32 (view p) (at + 8) True);
        info \<leftarrow> (if \<not> withInfo then Some 0
                else getUint8 (view p) (at + (if b then 4 else 12)));
        Some \<lparr>st_name = symbolNameAt strtabData nameOffset, st_value = v, st_size = sz,
               st_info = info\<rparr>
      })"

text \<open>\<^verbatim>\<open>symbolName && symbolType === 2 && value >= 0\<close>, with \<^verbatim>\<open>symbolType = info & 0xf\<close>.\<close>

definition isFunctionSymbol :: "raw_symbol \<Rightarrow> bool" where
  "isFunctionSymbol s \<longleftrightarrow> st_name s \<noteq> [] \<and> st_info s AND 0xf = 2"

definition functionOfSymbol :: "nat \<Rightarrow> raw_symbol \<Rightarrow> func_symbol" where
  "functionOfSymbol textBaseAddr s =
     \<lparr>fn_name = st_name s,
      fn_address = (if st_value s < 0x1000 then textBaseAddr + st_value s else st_value s),
      fn_offset = int (st_value s)\<rparr>"

text \<open>The symbol loop of \<^verbatim>\<open>extractFunctionSymbols\<close> over the indices still to visit. It
  answers the functions pushed so far and whether a read threw (which ends the loop).\<close>

fun collectFunctions ::
  "(nat \<Rightarrow> raw_symbol option) \<Rightarrow> nat \<Rightarrow> nat list \<Rightarrow> func_symbol list \<Rightarrow> func_symbol list \<times> bool" where
  "collectFunctions rd tb [] acc = (acc, False)"
| "collectFunctions rd tb (i # rest) acc =
     (case rd i of
        None \<Rightarrow> (acc, True)
      | Some s \<Rightarrow>
          collectFunctions rd tb rest
            (if isFunctionSymbol s then acc @ [functionOfSymbol tb s] else acc))"

text \<open>The \<^verbatim>\<open>try\<close> block once both tables are found and the symbol table is not empty:
  the two typed arrays, then the loop (which reads name, value and info).\<close>

definition scanSymbolTable ::
  "elf_image \<Rightarrow> nat \<Rightarrow> section_header \<Rightarrow> section_header \<Rightarrow> func_symbol list \<times> bool" where
  "scanSymbolTable p tb symtab strtab =
     (case sectionBytes p symtab of
        None \<Rightarrow> ([], True)
      | Some symtabData \<Rightarrow>
          (case sectionBytes p strtab of
             None \<Rightarrow> ([], True)
           | Some strtabData \<Rightarrow>
               (let b = (e_class (elfHeader p) = ELF64) in
                collectFunctions (readSymbol p b False True symtab strtabData) tb
                  [0..<loopCount (sh_size symtab) (symbolSize b)] [])))"

text \<open>\<^verbatim>\<open>`func_${functionIndex}`\<close>: the index in decimal.\<close>

definition digitChar :: "nat \<Rightarrow> char" where
  "digitChar d = char_of (48 + d)"

fun showNat :: "nat \<Rightarrow> string" where
  "showNat n =
     (if n < 10 then [digitChar n] else showNat (n div 10) @ [digitChar (n mod 10)])"

definition isPushFrame :: "insn \<Rightarrow> bool" where
  "isPushFrame i \<longleftrightarrow> mnemonic i = ''push'' \<and> (op_str i = ''rbp'' \<or> op_str i = ''ebp'')"

definition isMovFrame :: "insn \<Rightarrow> bool" where
  "isMovFrame i \<longleftrightarrow>
     mnemonic i = ''mov'' \<and> (op_str i = ''rbp, rsp'' \<or> op_str i = ''ebp, esp'')"

text \<open>The scan loop of \<^verbatim>\<open>detectFunctionsFromAssembly\<close> over the instructions still to
  visit; \<open>k\<close> is \<^verbatim>\<open>functionIndex\<close>. The last instruction has no successor and never
  matches.\<close>

fun detectLoop :: "nat \<Rightarrow> nat \<Rightarrow> insn list \<Rightarrow> func_symbol list" where
  "detectLoop tb k [] = []"
| "detectLoop tb k [i] = []"
| "detectLoop tb k (i # n # rest) =
     (if isPushFrame i \<and> isMovFrame n then
        \<lparr>fn_name = ''func_'' @ showNat (Suc k), fn_address = insn_address i,
         fn_offset = int (insn_address i) - int tb\<rparr> # detectLoop tb (Suc k) (n # rest)
      else detectLoop tb k (n # rest))"

text \<open>\<^verbatim>\<open>new cs.Capstone(arch, mode).disasm(bytes, textBaseAddr)\<close> is the parameter \<open>cs\<close>:
  mode flag (64-bit), bytes and base address to the instruction list, or an error. Every
  failure inside \<^verbatim>\<open>detectFunctionsFromAssembly\<close> is caught and leaves the list empty.\<close>

definition detectFunctionsFromAssembly ::
  "(bool \<Rightarrow> byte list \<Rightarrow> nat \<Rightarrow> js_error + insn list) \<Rightarrow> elf_image \<Rightarrow> nat \<Rightarrow> func_symbol list" where
  "detectFunctionsFromAssembly cs p textBaseAddr =
     (case findSection ''.text'' p of
        None \<Rightarrow> []
      | Some textSection \<Rightarrow>
          if sh_size textSection = 0 then []
          else
            (case sectionBytes p textSection of
               None \<Rightarrow> []
             | Some bytes \<Rightarrow>
                 (case cs (e_class (elfHeader p) = ELF64) bytes textBaseAddr of
                    Inl e \<Rightarrow> []
                  | Inr instructions \<Rightarrow> detectLoop textBaseAddr 0 instructions)))"

text \<open>The tables the primary path works on: \<^verbatim>\<open>.symtab\<close> with \<^verbatim>\<open>.strtab\<close>, or, when
  there is no \<^verbatim>\<open>.symtab\<close>, \<^verbatim>\<open>.dynsym\<close> with \<^verbatim>\<open>.dynstr\<close>.\<close>

definition symbolTables :: "elf_image \<Rightarrow> section_header option \<times> section_header option" where
  "symbolTables p =
     (case findSection ''.symtab'' p of
        None \<Rightarrow> (findSection ''.dynsym'' p, findSection ''.dynstr'' p)
      | Some symtab \<Rightarrow> (Some symtab, findSection ''.strtab'' p))"

text \<open>
  \<^verbatim>\<open>extractFunctionSymbols\<close>. When a table is missing or the symbol table is empty the
  source returns from inside the \<^verbatim>\<open>try\<close> block, before the fallback dispatch at the end
  of the function. When a read throws, the \<^verbatim>\<open>catch\<close> keeps what was pushed and the sort
  is skipped.
\<close>

definition extractFunctionSymbols ::
  "(bool \<Rightarrow> byte list \<Rightarrow> nat \<Rightarrow> js_error + insn list) \<Rightarrow> elf_image \<Rightarrow> nat \<Rightarrow> func_symbol list" where
  "extractFunctionSymbols cs p textBaseAddr =
     (case symbolTables p of
        (Some symtabSection, Some strtabSection) \<Rightarrow>
          if sh_size symtabSection = 0 then []
          else
            (let r = scanSymbolTable p textBaseAddr symtabSection strtabSection;
                 functions = (if snd r then fst r else sort_key fn_address (fst r))
             in if functions = [] then detectFunctionsFromAssembly cs p textBaseAddr
                else functions)
      | _ \<Rightarrow> [])"

text \<open>The entries of a symbol table whose size is a whole number of entries, as the loop
  of \<^verbatim>\<open>extractFunctionSymbols\<close> reads them.\<close>

definition symbolEntries ::
  "elf_image \<Rightarrow> section_header \<Rightarrow> byte list \<Rightarrow> raw_symbol list" where
  "symbolEntries p symtab strtabData =
     map (\<lambda>i. the (readSymbol p (e_class (elfHeader p) = ELF64) False True symtab strtabData i))
       [0..<sh_size symtab div symbolSize (e_class (elfHeader p) = ELF64)]"

section \<open>A small reference disassembler\<close>

text \<open>
  A concrete stand-in for the disassembler on the handful of encodings a frame-pointer
  prologue and epilogue use: \<open>push rbp\<close> 55, \<open>mov rbp, rsp\<close> 48 89 E5 (89 E5 with the
  32-bit names in 32-bit mode), \<open>pop rbp\<close> 5D, \<open>ret\<close> C3, \<open>call\<close> E8 with four operand
  bytes, \<open>nop\<close> 90, \<open>hlt\<close> F4. It stops at the first byte it does not know and fails
  when it decoded nothing.
\<close>

definition refDecodeOne :: "bool \<Rightarrow> byte list \<Rightarrow> (nat \<times> string \<times> string) option" where
  "refDecodeOne b bs =
     (if take 1 bs = [0x55] then Some (1, ''push'', if b then ''rbp'' else ''ebp'')
      else if b \<and> take 3 bs = [0x48, 0x89, 0xE5] then Some (3, ''mov'', ''rbp, rsp'')
      else if \<not> b \<and> take 2 bs = [0x89, 0xE5] then Some (2, ''mov'', ''ebp, esp'')
      else if take 1 bs = [0x5D] then Some (1, ''pop'', if b then ''rbp'' else ''ebp'')
      else if take 1 bs = [0xC3] then Some (1, ''ret'', [])
      else if take 1 bs = [0xE8] \<and> 5 \<le> length bs then Some (5, ''call'', [])
      else if take 1 bs = [0x90] then Some (1, ''nop'', [])
      else if take 1 bs = [0xF4] then Some (1, ''hlt'', [])
      else None)"

text \<open>Structural over the bytes: \<open>skip\<close> counts the bytes that still belong to the
  instruction decoded last.\<close>

fun refDecodeFrom :: "bool \<Rightarrow> nat \<Rightarrow> nat \<Rightarrow> byte list \<Rightarrow> insn list" where
  "refDecodeFrom b a skip [] = []"
| "refDecodeFrom b a skip (x # xs) =
     (if 0 < skip then refDecodeFrom b (Suc a) (skip - 1) xs
      else
        (case refDecodeOne b (x # xs) of
           None \<Rightarrow> []
         | Some (n, m, ops) \<Rightarrow>
             \<lparr>insn_address = a, insn_size = n, mnemonic = m, op_str = ops\<rparr>
               # refDecodeFrom b (Suc a) (n - 1) xs))"

definition refDisasm :: "bool \<Rightarrow> byte list \<Rightarrow> nat \<Rightarrow> js_error + insn list" where
  "refDisasm b bs a =
     (case refDecodeFrom b a 0 bs of
        [] \<Rightarrow> Inl CS_ERR
      | i # rest \<Rightarrow> Inr (i # rest))"

text \<open>An image without any symbol table whose text is one function,
  \<open>push rbp; mov rbp, rsp; pop rbp; ret\<close>.\<close>

definition noSymtabImage :: elf_image where
  "noSymtabImage =
     \<lparr>elfHeader = \<lparr>e_class = ELF64, e_data = LittleEndian, e_entry = 0, e_phoff = 0,
                   e_shoff = 0, e_phentsz = 0, e_phnum = 0, e_shentsz = 64, e_shnum = 1,
                   e_shstrndx = 0\<rparr>,
      programHeaders = [],
      sectionHeaders =
        [\<lparr>sh_nameOff = 0, sh_type = 1, sh_flags = 6, sh_addr = 0, sh_offset = 0, sh_size = 6,
          sh_link = 0, sh_info = 0, sh_addralign = 1, sh_entsize = 0, sh_name = ''.text''\<rparr>],
      view = [0x55, 0x48, 0x89, 0xE5, 0x5D, 0xC3]\<rparr>"


text \<open>The image the parser makes of it (see \<open>strayTailFile_parsed\<close>).\<close>

definition strayNullSh :: section_header where
  "strayNullSh =
     \<lparr>sh_nameOff = 0, sh_type = 0, sh_flags = 0, sh_addr = 0, sh_offset = 0, sh_size = 0,
      sh_link = 0, sh_info = 0, sh_addralign = 0, sh_entsize = 0, sh_name = []\<rparr>"





section \<open>A small object file\<close>

text \<open>
  The image of a relocatable object with two functions,
  \<^verbatim>\<open>add: push rbp; mov rbp, rsp; pop rbp; ret\<close> at offset 0 of the text and
  \<^verbatim>\<open>main: push rbp; mov rbp, rsp; call add; pop rbp; ret\<close> at offset 6. The buffer holds
  a 64-byte header, the text (17 bytes at 64), the string table \<^verbatim>\<open>\0add\0main\0\<close> (at 81),
  the symbol table with the null symbol, \<open>add\<close> and \<open>main\<close> (72 bytes at 91), and one
  relocation of type 4 for the call operand at text offset 11 against symbol 1, addend -4
  (24 bytes at 163).
\<close>

definition objText :: "byte list" where
  "objText = [0x55, 0x48, 0x89, 0xE5, 0x5D, 0xC3,
              0x55, 0x48, 0x89, 0xE5, 0xE8, 0, 0, 0, 0, 0x5D, 0xC3]"

definition objStrtab :: "byte list" where
  "objStrtab = [0, 0x61, 0x64, 0x64, 0, 0x6D, 0x61, 0x69, 0x6E, 0]"

definition objSymtab :: "byte list" where
  "objSymtab =
     [0, 0, 0, 0, 0, 0, 0, 0,  0, 0, 0, 0, 0, 0, 0, 0,  0, 0, 0, 0, 0, 0, 0, 0,
      1, 0, 0, 0, 0x12, 0, 1, 0,  0, 0, 0, 0, 0, 0, 0, 0,  6, 0, 0, 0, 0, 0, 0, 0,
      5, 0, 0, 0, 0x12, 0, 1, 0,  6, 0, 0, 0, 0, 0, 0, 0,  11, 0, 0, 0, 0, 0, 0, 0]"

definition objRela :: "byte list" where
  "objRela =
     [11, 0, 0, 0, 0, 0, 0, 0,  4, 0, 0, 0, 1, 0, 0, 0,
      0xFC, 0xFF, 0xFF, 0xFF, 0xFF, 0xFF, 0xFF, 0xFF]"

definition objNullSh :: section_header where
  "objNullSh =
     \<lparr>sh_nameOff = 0, sh_type = 0, sh_flags = 0, sh_addr = 0, sh_offset = 0, sh_size = 0,
      sh_link = 0, sh_info = 0, sh_addralign = 0, sh_entsize = 0, sh_name = []\<rparr>"

definition objTextSh :: section_header where
  "objTextSh =
     \<lparr>sh_nameOff = 1, sh_type = 1, sh_flags = 6, sh_addr = 0, sh_offset = 64, sh_size = 17,
      sh_link = 0, sh_info = 0, sh_addralign = 1, sh_entsize = 0, sh_name = ''.text''\<rparr>"

definition objStrtabSh :: section_header where
  "objStrtabSh =
     \<lparr>sh_nameOff = 7, sh_type = 3, sh_flags = 0, sh_addr = 0, sh_offset = 81, sh_size = 10,
      sh_link = 0, sh_info = 0, sh_addralign = 1, sh_entsize = 0, sh_name = ''.strtab''\<rparr>"

definition objSymtabSh :: section_header where
  "objSymtabSh =
     \<lparr>sh_nameOff = 15, sh_type = 2, sh_flags = 0, sh_addr = 0, sh_offset = 91, sh_size = 72,
      sh_link = 2, sh_info = 1, sh_addralign = 8, sh_entsize = 24, sh_name = ''.symtab''\<rparr>"

definition objRelaSh :: section_header where
  "objRelaSh =
     \<lparr>sh_nameOff = 23, sh_type = 4, sh_flags = 0, sh_addr = 0, sh_offset = 163, sh_size = 24,
      sh_link = 3, sh_info = 1, sh_addralign = 8, sh_entsize = 24, sh_name = ''.rela.text''\<rparr>"

definition objSections :: "section_header list" where
  "objSections = [objNullSh, objTextSh, objStrtabSh, objSymtabSh, objRelaSh]"

definition objImage :: elf_image where
  "objImage =
     \<lparr>elfHeader = \<lparr>e_class = ELF64, e_data = LittleEndian, e_entry = 0, e_phoff = 0,
                   e_shoff = 187, e_phentsz = 0, e_phnum = 0, e_shentsz = 64, e_shnum = 5,
                   e_shstrndx = 0\<rparr>,
      programHeaders = [],
      sectionHeaders = objSections,
      view = header64 @ objText @ objStrtab @ objSymtab @ objRela\<rparr>"

section \<open>The execution controller: class UnicornDebugger\<close>

text \<open>The text pane \<^verbatim>\<open>emuOutput\<close> is a list of chunks: \<^verbatim>\<open>+=\<close> appends one,
  an assignment replaces the list. The console is a second list.\<close>

record trace_entry =
  te_address :: nat
  te_mnemonic :: string
  te_operands :: string
  te_rax :: nat

datatype out_msg =
    RunningUntilHalt
  | LimitReached "nat option"
  | HltReached
  | ExecutionStopped "nat option"
  | InvalidInstructionAt nat
  | UnmappedFetchAt nat
  | StepError js_error
  | ProgramFinished nat
  | ProgramCompleted
  | DebuggerReset
  | DebuggerInitialized
  | TraceText "trace_entry list"

datatype console_msg =
    LogBreakpointHit nat
  | LogProgramCompleted
  | LogExecuting nat
  | LogStepError js_error
  | LogAlreadyRunning
  | LogStarting
  | LogLimitReached
  | LogHltEncountered
  | LogExecutionStopped "nat option"
  | LogBreakpointAdded nat

record pending_trace =
  pt_address :: nat
  pt_mnemonic :: string
  pt_operands :: string

text \<open>\<^verbatim>\<open>executionCount\<close> and \<^verbatim>\<open>maxInstructions\<close> do not exist before the first
  \<^verbatim>\<open>runUntilHalt\<close> or \<^verbatim>\<open>reset\<close>: \<open>None\<close> is \<^verbatim>\<open>undefined\<close>.\<close>

record 'e debugger =
  engine :: 'e
  is64bit :: bool
  entryPoint :: nat
  currentAddress :: nat
  breakpoints :: "nat set"
  isRunning :: bool
  isPaused :: bool
  executionTrace :: "trace_entry list"
  lastLoggedAddress :: "nat option"
  pendingTrace :: "pending_trace option"
  executionCount :: "nat option"
  maxInstructions :: "nat option"
  emuOutput :: "out_msg list"
  consoleLog :: "console_msg list"

definition pcReg :: "bool \<Rightarrow> reg" where
  "pcReg b = (if b then X86_REG_RIP else X86_REG_EIP)"

definition accReg :: "bool \<Rightarrow> reg" where
  "accReg b = (if b then X86_REG_RAX else X86_REG_EAX)"

text \<open>\<^verbatim>\<open>if (!window.isPerformanceModeActive) emuOutput.textContent += m\<close>\<close>

definition say :: "bool \<Rightarrow> out_msg \<Rightarrow> 'e debugger \<Rightarrow> 'e debugger" where
  "say perf m d = (if perf then d else d\<lparr>emuOutput := emuOutput d @ [m]\<rparr>)"

definition log :: "console_msg \<Rightarrow> 'e debugger \<Rightarrow> 'e debugger" where
  "log m d = d\<lparr>consoleLog := consoleLog d @ [m]\<rparr>"

text \<open>The constructor. \<^verbatim>\<open>setupHooks\<close> registers \<open>hook\<close> below with the engine; the
  registration itself is part of \<open>emu_start\<close>'s contract.\<close>

definition newDebugger :: "'e engine_ops \<Rightarrow> 'e \<Rightarrow> bool \<Rightarrow> nat \<Rightarrow> 'e debugger" where
  "newDebugger ops e b entry =
     \<lparr> engine = reg_write ops e (pcReg b) entry,
       is64bit = b,
       entryPoint = entry,
       currentAddress = entry,
       breakpoints = {},
       isRunning = False,
       isPaused = False,
       executionTrace = [],
       lastLoggedAddress = None,
       pendingTrace = None,
       executionCount = None,
       maxInstructions = None,
       emuOutput = [],
       consoleLog = [] \<rparr>"

definition getCurrentPC :: "'e engine_ops \<Rightarrow> 'e debugger \<Rightarrow> nat" where
  "getCurrentPC ops d = reg_read ops (engine d) (pcReg (is64bit d))"

definition addBreakpoint :: "nat \<Rightarrow> 'e debugger \<Rightarrow> 'e debugger" where
  "addBreakpoint a d = log (LogBreakpointAdded a) (d\<lparr>breakpoints := insert a (breakpoints d)\<rparr>)"

text \<open>\<^verbatim>\<open>logToExecutionTrace\<close>: every failure inside is swallowed.\<close>

definition logToExecutionTrace :: "'e engine_ops \<Rightarrow> 'e debugger \<Rightarrow> nat \<Rightarrow> 'e debugger" where
  "logToExecutionTrace ops d a =
     (case mem_read ops (engine d) a 16 of
        Inl _ \<Rightarrow> d
      | Inr instrBytes \<Rightarrow>
          (case disasm ops instrBytes a of
             Inl _ \<Rightarrow> d
           | Inr [] \<Rightarrow> d
           | Inr (i # _) \<Rightarrow>
               d\<lparr>pendingTrace :=
                   Some \<lparr>pt_address = a, pt_mnemonic = mnemonic i, pt_operands = op_str i\<rparr>\<rparr>))"

text \<open>\<^verbatim>\<open>updateExecutionTrace\<close> overwrites the pane with the joined trace, in every mode.\<close>

definition updateExecutionTrace :: "'e debugger \<Rightarrow> 'e debugger" where
  "updateExecutionTrace d =
     (if executionTrace d \<noteq> [] then d\<lparr>emuOutput := [TraceText (executionTrace d)]\<rparr> else d)"

definition logExecutedInstruction :: "'e engine_ops \<Rightarrow> 'e debugger \<Rightarrow> 'e debugger" where
  "logExecutedInstruction ops d =
     (case pendingTrace d of
        None \<Rightarrow> d
      | Some p \<Rightarrow>
          (let rax = reg_read ops (engine d) (accReg (is64bit d));
               t = \<lparr>te_address = pt_address p, te_mnemonic = pt_mnemonic p,
                     te_operands = pt_operands p, te_rax = rax\<rparr>;
               d1 = d\<lparr>executionTrace := executionTrace d @ [t]\<rparr>
           in (updateExecutionTrace d1)\<lparr>pendingTrace := None\<rparr>))"

subsection \<open>The per-instruction hook (\<^verbatim>\<open>setupHooks\<close>)\<close>

datatype hook_return = ReturnsFalse | ReturnsUndefined

definition hookReturn :: "'e debugger \<Rightarrow> nat \<Rightarrow> hook_return" where
  "hookReturn d a = (if a \<in> breakpoints d then ReturnsFalse else ReturnsUndefined)"

definition hook :: "'e engine_ops \<Rightarrow> bool \<Rightarrow> 'e debugger \<Rightarrow> nat \<Rightarrow> 'e debugger" where
  "hook ops perf d a =
     (let d1 = d\<lparr>currentAddress := a\<rparr>;
          d2 = (if lastLoggedAddress d1 = None \<or> lastLoggedAddress d1 = Some 0
                   \<or> lastLoggedAddress d1 \<noteq> Some a
                then (logToExecutionTrace ops d1 a)\<lparr>lastLoggedAddress := Some a\<rparr>
                else d1)
      in if a \<in> breakpoints d2 then
           (let d3 = log (LogBreakpointHit a) (d2\<lparr>isPaused := True, isRunning := False\<rparr>)
            in case mem_read ops (engine d3) a 1 of
                 Inl _ \<Rightarrow> d3
               | Inr [] \<Rightarrow> d3
               | Inr (b # _) \<Rightarrow>
                   if b = 0xF4 then say perf ProgramCompleted (log LogProgramCompleted d3)
                   else d3)
         else d2)"

subsection \<open>\<^verbatim>\<open>stepInstruction\<close>\<close>

text \<open>The \<^verbatim>\<open>catch\<close> block of \<^verbatim>\<open>stepInstruction\<close>.\<close>

definition stepCatch :: "'e engine_ops \<Rightarrow> bool \<Rightarrow> js_error \<Rightarrow> 'e debugger \<Rightarrow> 'e debugger" where
  "stepCatch ops perf err d =
     (let d1 = log (LogStepError err) d;
          d2 = (if err = UC_ERR_INSN_INVALID then
                  say perf (InvalidInstructionAt (getCurrentPC ops d1)) d1
                else if err = UC_ERR_FETCH_UNMAPPED then
                  say perf (UnmappedFetchAt (getCurrentPC ops d1)) d1
                else say perf (StepError err) d1);
          returnValue = reg_read ops (engine d2) (accReg (is64bit d2));
          d3 = say perf (ProgramFinished returnValue) d2
      in d3\<lparr>isPaused := True, isRunning := False\<rparr>)"

text \<open>\<^verbatim>\<open>this.engine.emu_start(startAddr, startAddr + instrLength, 0, 1)\<close>, with the hook
  that \<^verbatim>\<open>setupHooks\<close> registered.\<close>

definition emulateOne ::
  "'e engine_ops \<Rightarrow> 'e debugger \<Rightarrow> nat \<Rightarrow> insn \<Rightarrow> nat list \<times> js_error option \<times> 'e" where
  "emulateOne ops d startAddr i =
     emu_start ops (engine d) startAddr (startAddr + insn_size i)
       (\<lambda>a. hookReturn d a = ReturnsFalse)"

definition stepInstruction :: "'e engine_ops \<Rightarrow> bool \<Rightarrow> 'e debugger \<Rightarrow> 'e debugger" where
  "stepInstruction ops perf d =
     (let d0 = d\<lparr>isPaused := False\<rparr>;
          startAddr = getCurrentPC ops d0
      in case mem_read ops (engine d0) startAddr 16 of
           Inl err \<Rightarrow> stepCatch ops perf err d0
         | Inr instrBytes \<Rightarrow>
             (case disasm ops instrBytes startAddr of
                Inl err \<Rightarrow> stepCatch ops perf err d0
              | Inr [] \<Rightarrow> stepCatch ops perf TypeError d0
              | Inr (i # _) \<Rightarrow>
                  (let d1 = log (LogExecuting startAddr) d0;
                       r = emulateOne ops d1 startAddr i;
                       d2 = (foldl (hook ops perf) d1 (fst r))\<lparr>engine := snd (snd r)\<rparr>
                   in case fst (snd r) of
                        Some err \<Rightarrow> stepCatch ops perf err d2
                      | None \<Rightarrow>
                          (let d3 = d2\<lparr>currentAddress := getCurrentPC ops d2\<rparr>;
                               d4 = logExecutedInstruction ops d3
                           in d4\<lparr>lastLoggedAddress := None\<rparr>))))"

subsection \<open>\<^verbatim>\<open>runUntilHalt\<close>, \<^verbatim>\<open>continueExecution\<close>, \<^verbatim>\<open>stopExecution\<close>\<close>

definition stopExecution :: "bool \<Rightarrow> 'e debugger \<Rightarrow> 'e debugger" where
  "stopExecution perf d =
     say perf (ExecutionStopped (executionCount d))
       (log (LogExecutionStopped (executionCount d)) (d\<lparr>isRunning := False, isPaused := True\<rparr>))"

text \<open>\<^verbatim>\<open>String.prototype.toLowerCase\<close> on the 8-bit characters of the model: the letters
  \<open>A\<close> to \<open>Z\<close> and the upper-case letters of Latin-1 move up by 32.\<close>

definition toLowerChar :: "char \<Rightarrow> char" where
  "toLowerChar c =
     (let n = (of_char c :: nat) in
      if (65 \<le> n \<and> n \<le> 90) \<or> (192 \<le> n \<and> n \<le> 222 \<and> n \<noteq> 215) then char_of (n + 32)
      else c)"

definition toLowerCase :: "string \<Rightarrow> string" where
  "toLowerCase s = map toLowerChar s"

definition isHaltInstruction :: "'e engine_ops \<Rightarrow> 'e debugger \<Rightarrow> nat \<Rightarrow> bool" where
  "isHaltInstruction ops d a =
     (case mem_read ops (engine d) a 16 of
        Inl _ \<Rightarrow> False
      | Inr instrBytes \<Rightarrow>
          (case disasm ops instrBytes a of
             Inl _ \<Rightarrow> False
           | Inr [] \<Rightarrow> False
           | Inr (i # _) \<Rightarrow> toLowerCase (mnemonic i) = ''hlt''))"

text \<open>\<^verbatim>\<open>this.executionCount >= this.maxInstructions\<close>: false when either is undefined.\<close>

definition limitReached :: "'e debugger \<Rightarrow> bool" where
  "limitReached d =
     (case (executionCount d, maxInstructions d) of
        (Some c, Some m) \<Rightarrow> c \<ge> m
      | _ \<Rightarrow> False)"

text \<open>\<^verbatim>\<open>this.executionCount++\<close>: undefined stays not-a-number.\<close>

definition countUp :: "'e debugger \<Rightarrow> 'e debugger" where
  "countUp d = d\<lparr>executionCount := map_option Suc (executionCount d)\<rparr>"

text \<open>
  One call of \<^verbatim>\<open>continueExecution\<close> either returns or executes one step and reschedules
  itself with \<^verbatim>\<open>setTimeout\<close>; the rescheduled call is the recursive call. Nothing bounds
  the recursion when the counters are undefined, so not returning is the value \<open>None\<close>.
\<close>

partial_function (option) continueExecution ::
  "'e engine_ops \<Rightarrow> bool \<Rightarrow> 'e debugger \<Rightarrow> 'e debugger option" where
  "continueExecution ops perf d =
     (if \<not> isRunning d \<or> isPaused d then Some d
      else if limitReached d then
        Some (stopExecution perf (say perf (LimitReached (maxInstructions d)) (log LogLimitReached d)))
      else if isHaltInstruction ops d (getCurrentPC ops d) then
        Some (stopExecution perf (say perf HltReached (log LogHltEncountered d)))
      else continueExecution ops perf (countUp (stepInstruction ops perf d)))"

definition runUntilHalt :: "'e engine_ops \<Rightarrow> bool \<Rightarrow> 'e debugger \<Rightarrow> 'e debugger option" where
  "runUntilHalt ops perf d =
     (if isRunning d then Some (log LogAlreadyRunning d)
      else continueExecution ops perf
             (say perf RunningUntilHalt
               (log LogStarting
                 (d\<lparr>isRunning := True, isPaused := False,
                    executionCount := Some 0, maxInstructions := Some 10000\<rparr>))))"

subsection \<open>\<^verbatim>\<open>reset\<close>\<close>

definition reset :: "'e engine_ops \<Rightarrow> bool \<Rightarrow> 'e debugger \<Rightarrow> 'e debugger" where
  "reset ops perf d =
     (let d1 = d\<lparr>currentAddress := entryPoint d, executionTrace := [],
                 lastLoggedAddress := None, isRunning := False, isPaused := False,
                 executionCount := Some 0\<rparr>;
          d2 = d1\<lparr>engine := reg_write ops (engine d1) (pcReg (is64bit d1)) (entryPoint d1)\<rparr>
      in if perf then d2 else d2\<lparr>emuOutput := [DebuggerReset]\<rparr>)"

subsection \<open>Reading the run loop\<close>

text \<open>One iteration of the run loop: the step and the counter increment that
  \<^verbatim>\<open>continueExecution\<close> performs before it reschedules itself.\<close>

definition runStep :: "'e engine_ops \<Rightarrow> bool \<Rightarrow> 'e debugger \<Rightarrow> 'e debugger" where
  "runStep ops perf d = countUp (stepInstruction ops perf d)"

text \<open>The state \<^verbatim>\<open>runUntilHalt\<close> hands to the first \<^verbatim>\<open>continueExecution\<close>.\<close>

definition startRun :: "bool \<Rightarrow> 'e debugger \<Rightarrow> 'e debugger" where
  "startRun perf d =
     say perf RunningUntilHalt
       (log LogStarting
         (d\<lparr>isRunning := True, isPaused := False,
            executionCount := Some 0, maxInstructions := Some 10000\<rparr>))"

text \<open>What one call of \<^verbatim>\<open>continueExecution\<close> decides before it steps: \<open>Some r\<close> when it
  returns with state \<open>r\<close> (flags cleared by someone else, limit reached, halt opcode at the
  program counter), \<open>None\<close> when it goes on to step.\<close>

definition loopExit :: "'e engine_ops \<Rightarrow> bool \<Rightarrow> 'e debugger \<Rightarrow> 'e debugger option" where
  "loopExit ops perf d =
     (if \<not> isRunning d \<or> isPaused d then Some d
      else if limitReached d then
        Some (stopExecution perf (say perf (LimitReached (maxInstructions d)) (log LogLimitReached d)))
      else if isHaltInstruction ops d (getCurrentPC ops d) then
        Some (stopExecution perf (say perf HltReached (log LogHltEncountered d)))
      else None)"

text \<open>The fields no step touches, and the shape of the two flags after a step.\<close>

definition hookKeeps :: "'e debugger \<Rightarrow> 'e debugger \<Rightarrow> bool" where
  "hookKeeps d d' \<longleftrightarrow>
     executionCount d' = executionCount d \<and> maxInstructions d' = maxInstructions d \<and>
     breakpoints d' = breakpoints d \<and> is64bit d' = is64bit d \<and> entryPoint d' = entryPoint d"

definition flagsOk :: "'e debugger \<Rightarrow> bool" where
  "flagsOk d \<longleftrightarrow> (isPaused d \<and> \<not> isRunning d) \<or> \<not> isPaused d"

text \<open>Paused and not running: the state the hook and the step's error handler leave.\<close>

definition halted :: "'e debugger \<Rightarrow> bool" where
  "halted d \<longleftrightarrow> isPaused d \<and> \<not> isRunning d"

text \<open>The hook's test \<^verbatim>\<open>instrBytes[0] === 0xF4\<close> on the one byte it reads at the address;
  a failed read counts as an ordinary breakpoint.\<close>

definition haltByteAt :: "'e engine_ops \<Rightarrow> 'e debugger \<Rightarrow> nat \<Rightarrow> bool" where
  "haltByteAt ops d a =
     (case mem_read ops (engine d) a 1 of
        Inl _ \<Rightarrow> False
      | Inr [] \<Rightarrow> False
      | Inr (b # _) \<Rightarrow> b = 0xF4)"

text \<open>Every way the page drives a debugger once it exists: the buttons, the timer callback
  and the engine's hook. The performance-mode flag is a global the page can flip between
  calls.\<close>

inductive methodCall :: "'e engine_ops \<Rightarrow> 'e debugger \<Rightarrow> 'e debugger \<Rightarrow> bool"
  for ops :: "'e engine_ops" where
    callStep: "methodCall ops d (stepInstruction ops perf d)"
  | callRun: "runUntilHalt ops perf d = Some d' \<Longrightarrow> methodCall ops d d'"
  | callTimer: "continueExecution ops perf d = Some d' \<Longrightarrow> methodCall ops d d'"
  | callStop: "methodCall ops d (stopExecution perf d)"
  | callReset: "methodCall ops d (reset ops perf d)"
  | callAddBreakpoint: "methodCall ops d (addBreakpoint a d)"
  | callHook: "methodCall ops d (hook ops perf d a)"

section \<open>A small reference engine\<close>

text \<open>
  A concrete engine to run the controller on: registers, a partial byte memory, and four
  instructions (\<open>nop\<close> 90, \<open>ret\<close> C3, \<open>hlt\<close> F4, \<open>ud2\<close> 0F 0B, which disassembles but
  cannot be executed). It calls the hook before the instruction and honours its answer.
\<close>

record cpu =
  regs :: "reg \<Rightarrow> nat"
  mem :: "nat \<Rightarrow> byte option"

definition cpu_mem_read :: "cpu \<Rightarrow> nat \<Rightarrow> nat \<Rightarrow> js_error + byte list" where
  "cpu_mem_read e a n =
     (if list_all (\<lambda>i. mem e (a + i) \<noteq> None) [0..<n]
      then Inr (map (\<lambda>i. the (mem e (a + i))) [0..<n])
      else Inl UC_ERR_OTHER)"

definition cpu_disasm :: "byte list \<Rightarrow> nat \<Rightarrow> js_error + insn list" where
  "cpu_disasm bs a =
     (case bs of
        [] \<Rightarrow> Inl CS_ERR
      | b # rest \<Rightarrow>
          if b = 0x90 then
            Inr [\<lparr>insn_address = a, insn_size = 1, mnemonic = ''nop'', op_str = []\<rparr>]
          else if b = 0xF4 then
            Inr [\<lparr>insn_address = a, insn_size = 1, mnemonic = ''hlt'', op_str = []\<rparr>]
          else if b = 0xC3 then
            Inr [\<lparr>insn_address = a, insn_size = 1, mnemonic = ''ret'', op_str = []\<rparr>]
          else if b = 0x0F \<and> take 1 rest = [0x0B] then
            Inr [\<lparr>insn_address = a, insn_size = 2, mnemonic = ''ud2'', op_str = []\<rparr>]
          else Inl CS_ERR)"

definition cpu_emu_start ::
  "cpu \<Rightarrow> nat \<Rightarrow> nat \<Rightarrow> (nat \<Rightarrow> bool) \<Rightarrow> nat list \<times> js_error option \<times> cpu" where
  "cpu_emu_start e begin until stop =
     (case mem e begin of
        None \<Rightarrow> ([], Some UC_ERR_FETCH_UNMAPPED, e)
      | Some b \<Rightarrow>
          if stop begin then ([begin], None, e)
          else if b = 0x90 \<or> b = 0xF4 then
            ([begin], None, e\<lparr>regs := (regs e)(X86_REG_RIP := begin + 1)\<rparr>)
          else if b = 0xC3 then
            (case cpu_mem_read e (regs e X86_REG_RSP) 8 of
               Inl err \<Rightarrow> ([begin], Some err, e)
             | Inr bs \<Rightarrow>
                 ([begin], None,
                  e\<lparr>regs := (regs e)(X86_REG_RIP := leNat bs,
                                      X86_REG_RSP := regs e X86_REG_RSP + 8)\<rparr>))
          else ([begin], Some UC_ERR_INSN_INVALID, e))"

definition cpuOps :: "cpu engine_ops" where
  "cpuOps =
     \<lparr> reg_read = regs,
       reg_write = (\<lambda>e r v. e\<lparr>regs := (regs e)(r := v)\<rparr>),
       mem_read = cpu_mem_read,
       emu_start = cpu_emu_start,
       disasm = cpu_disasm \<rparr>"

definition memOf :: "(nat \<times> byte list) list \<Rightarrow> nat \<Rightarrow> byte option" where
  "memOf segs a =
     (case filter (\<lambda>s. fst s \<le> a \<and> a < fst s + length (snd s)) segs of
        [] \<Rightarrow> None
      | s # _ \<Rightarrow> Some (snd s ! (a - fst s)))"

text \<open>A machine state in the manner of the one the handler leaves for an object file whose
  \<^verbatim>\<open>main\<close> is \<open>nop; ret\<close>: text at 0x10000000, the synthetic return address 0x10112000
  on top of the stack, the halt trampoline there, and the exit breakpoint on it. (The handler
  itself pushes the return address eight bytes lower, see \<open>objEngine4\<close>.)\<close>

definition cpu0 :: cpu where
  "cpu0 = \<lparr> regs = (\<lambda>r. if r = X86_REG_RSP then 0x10110000 else 0),
            mem = memOf [(0x10000000, [0x90, 0xC3] @ replicate 16 0),
                         (0x10110000, [0x00, 0x20, 0x11, 0x10, 0, 0, 0, 0]),
                         (0x10112000, 0xF4 # replicate 16 0)] \<rparr>"

definition dbg0 :: "cpu debugger" where
  "dbg0 = addBreakpoint 0x10112000 (newDebugger cpuOps cpu0 True 0x10000000)"

text \<open>The same text address holding \<open>ud2\<close> as its first instruction.\<close>

definition cpu1 :: cpu where
  "cpu1 = \<lparr> regs = (\<lambda>r. if r = X86_REG_RSP then 0x10110000 else 0),
            mem = memOf [(0x10000000, [0x0F, 0x0B] @ replicate 16 0)] \<rparr>"

definition dbg1 :: "cpu debugger" where
  "dbg1 = newDebugger cpuOps cpu1 True 0x10000000"

text \<open>The debugger on \<open>cpu1\<close> after one \<^verbatim>\<open>stepInstruction\<close> (see \<open>dbg1_step\<close>).\<close>

definition dbg1a :: "cpu debugger" where
  "dbg1a = dbg1\<lparr>isPaused := True, currentAddress := 0x10000000,
     lastLoggedAddress := Some 0x10000000,
     pendingTrace := Some \<lparr>pt_address = 0x10000000, pt_mnemonic = ''ud2'', pt_operands = []\<rparr>,
     emuOutput := [InvalidInstructionAt 0x10000000, ProgramFinished 0],
     consoleLog := [LogExecuting 0x10000000, LogStepError UC_ERR_INSN_INVALID]\<rparr>"

text \<open>The run of \<open>dbg0\<close>, state by state: as \<^verbatim>\<open>runUntilHalt\<close> starts it, after the
  \<open>nop\<close>, and after the \<open>ret\<close> that lands on the halt trampoline.\<close>

definition run0 :: "cpu debugger" where
  "run0 = dbg0\<lparr>isRunning := True, executionCount := Some 0, maxInstructions := Some 10000,
     emuOutput := [RunningUntilHalt],
     consoleLog := [LogBreakpointAdded 0x10112000, LogStarting]\<rparr>"

definition run1 :: "cpu debugger" where
  "run1 = run0\<lparr>engine := cpu0\<lparr>regs := (regs cpu0)(X86_REG_RIP := 0x10000001)\<rparr>,
     currentAddress := 0x10000001, executionCount := Some 1,
     executionTrace :=
       [\<lparr>te_address = 0x10000000, te_mnemonic = ''nop'', te_operands = [], te_rax = 0\<rparr>],
     emuOutput :=
       [TraceText [\<lparr>te_address = 0x10000000, te_mnemonic = ''nop'', te_operands = [], te_rax = 0\<rparr>]],
     consoleLog := [LogBreakpointAdded 0x10112000, LogStarting, LogExecuting 0x10000000]\<rparr>"

definition run2 :: "cpu debugger" where
  "run2 = run1\<lparr>engine := cpu0\<lparr>regs := (regs cpu0)(X86_REG_RIP := 0x10112000,
                                                   X86_REG_RSP := 0x10110008)\<rparr>,
     currentAddress := 0x10112000, executionCount := Some 2,
     executionTrace :=
       [\<lparr>te_address = 0x10000000, te_mnemonic = ''nop'', te_operands = [], te_rax = 0\<rparr>,
        \<lparr>te_address = 0x10000001, te_mnemonic = ''ret'', te_operands = [], te_rax = 0\<rparr>],
     emuOutput :=
       [TraceText [\<lparr>te_address = 0x10000000, te_mnemonic = ''nop'', te_operands = [], te_rax = 0\<rparr>,
                   \<lparr>te_address = 0x10000001, te_mnemonic = ''ret'', te_operands = [], te_rax = 0\<rparr>]],
     consoleLog := [LogBreakpointAdded 0x10112000, LogStarting, LogExecuting 0x10000000,
                    LogExecuting 0x10000001]\<rparr>"

section \<open>The image builder and the relocation resolver: the \<^verbatim>\<open>runUnicorn\<close> handler\<close>

text \<open>
  The click handler that turns a parsed image into a debugger: it maps and fills the
  allocated sections, maps the stack, finds the entry point, patches the relocations of the
  text, installs the halt trampoline and creates the controller. Besides the operations the
  controller uses, it calls the engine's \<^verbatim>\<open>mem_map\<close> and \<^verbatim>\<open>mem_write\<close>; both can
  throw, and both answer the engine state they leave. The model starts where the engine
  exists: \<open>e0\<close> is the fresh engine, and the early return for a missing engine module is
  left out. Console output, the function
  boundaries kept for display, and the rendering of the panes (\<^verbatim>\<open>updateUI\<close>,
  \<^verbatim>\<open>highlightCurrentLine\<close>, \<^verbatim>\<open>mapAssemblyToC\<close>) are not modelled.
\<close>

record 'e loader_ops =
  mem_map :: "'e \<Rightarrow> nat \<Rightarrow> nat \<Rightarrow> nat \<Rightarrow> js_error option \<times> 'e"
  mem_write :: "'e \<Rightarrow> nat \<Rightarrow> byte list \<Rightarrow> js_error option \<times> 'e"

text \<open>Sums and differences of numbers that can leave the range in which doubles are
  exact: the result is the double nearest to the exact one.\<close>

definition numAdd :: "nat \<Rightarrow> nat \<Rightarrow> nat" where
  "numAdd a b = toNumber (a + b)"

definition numSub :: "nat \<Rightarrow> nat \<Rightarrow> int" where
  "numSub a b = (if b \<le> a then int (toNumber (a - b)) else - int (toNumber (b - a)))"

definition PROT_READ :: nat where "PROT_READ = 1"

definition PROT_WRITE :: nat where "PROT_WRITE = 2"

definition PROT_EXEC :: nat where "PROT_EXEC = 4"

definition PROT_ALL :: nat where "PROT_ALL = 7"

definition STACK_SIZE :: nat where "STACK_SIZE = 0x10000"

subsection \<open>Placing the sections\<close>

text \<open>\<^verbatim>\<open>(sh.flags & 0x2) && sh.size > 0\<close>\<close>

definition allocated :: "section_header \<Rightarrow> bool" where
  "allocated sh \<longleftrightarrow> sh_flags sh AND 2 \<noteq> 0 \<and> 0 < sh_size sh"

definition isObjectFile :: "elf_image \<Rightarrow> bool" where
  "isObjectFile p \<longleftrightarrow> list_ex (\<lambda>sh. allocated sh \<and> sh_addr sh = 0) (sectionHeaders p)"

text \<open>\<^verbatim>\<open>Math.ceil(n / 0x1000) * 0x1000\<close> and \<^verbatim>\<open>Math.floor(n / 0x1000) * 0x1000\<close>;
  scaling by a power of two is exact.\<close>

definition pageCeil :: "nat \<Rightarrow> nat" where
  "pageCeil n = ((n + 0xfff) div 0x1000) * 0x1000"

definition pageFloor :: "nat \<Rightarrow> nat" where
  "pageFloor n = (n div 0x1000) * 0x1000"

text \<open>What the section loop updates: the engine, the base cursor \<^verbatim>\<open>baseAddr\<close> (the source
  leaves it undefined for an executable and never reads it there), the set of region keys
  \<^verbatim>\<open>`${alignedAddr}-${alignedSize}`\<close> and the address recorded per section name.\<close>

record 'e loader =
  ld_engine :: 'e
  baseAddr :: nat
  mappedRegions :: "(nat \<times> nat) set"
  sectionAddresses :: "string \<rightharpoonup> nat"

definition newLoader :: "'e \<Rightarrow> bool \<Rightarrow> 'e loader" where
  "newLoader e obj =
     \<lparr>ld_engine = e, baseAddr = (if obj then 0x10000000 else 0), mappedRegions = {},
      sectionAddresses = Map.empty\<rparr>"

definition sectionProt :: "section_header \<Rightarrow> nat" where
  "sectionProt sh =
     (let prot = (if sh_flags sh AND 1 \<noteq> 0 then PROT_READ else 0) OR
                 (if sh_flags sh AND 2 \<noteq> 0 then PROT_WRITE else 0) OR
                 (if sh_flags sh AND 4 \<noteq> 0 then PROT_EXEC else 0)
      in if prot = 0 then PROT_READ else prot)"

text \<open>One round of \<^verbatim>\<open>sectionHeaders.forEach\<close>. Whatever throws inside the \<^verbatim>\<open>try\<close> (the
  mapping, the typed array over the section's bytes, the write) is caught and ends the
  round; the region key and the section address are recorded as soon as the mapping
  succeeded.\<close>

definition placeSection ::
  "'e loader_ops \<Rightarrow> elf_image \<Rightarrow> bool \<Rightarrow> 'e loader \<Rightarrow> section_header \<Rightarrow> 'e loader" where
  "placeSection lops p obj L sh =
     (if \<not> allocated sh then L
      else
        (let placed = (obj \<and> sh_addr sh = 0);
             targetAddr = (if placed then pageCeil (baseAddr L) else sh_addr sh);
             L1 = (if placed then L\<lparr>baseAddr := numAdd targetAddr (pageCeil (sh_size sh))\<rparr> else L);
             alignedAddr = pageFloor targetAddr;
             alignedSize = max 0x1000 (pageCeil (sh_size sh))
         in if targetAddr = 0 then L1
            else if (alignedAddr, alignedSize) \<in> mappedRegions L1 then L1
            else
              (case mem_map lops (ld_engine L1) alignedAddr alignedSize (sectionProt sh) of
                 (Some err, e1) \<Rightarrow> L1\<lparr>ld_engine := e1\<rparr>
               | (None, e1) \<Rightarrow>
                   (let L2 = L1\<lparr>ld_engine := e1,
                                 mappedRegions := insert (alignedAddr, alignedSize) (mappedRegions L1),
                                 sectionAddresses := (sectionAddresses L1)(sh_name sh \<mapsto> targetAddr)\<rparr>
                    in if 0 < sh_offset sh then
                         (case sectionBytes p sh of
                            None \<Rightarrow> L2
                          | Some bytes \<Rightarrow>
                              L2\<lparr>ld_engine := snd (mem_write lops e1 targetAddr bytes)\<rparr>)
                       else L2))))"

definition placeSections :: "'e loader_ops \<Rightarrow> elf_image \<Rightarrow> bool \<Rightarrow> 'e loader \<Rightarrow> 'e loader" where
  "placeSections lops p obj L = foldl (placeSection lops p obj) L (sectionHeaders p)"

subsection \<open>The stack\<close>

text \<open>The two \<^verbatim>\<open>forEach\<close> loops that raise \<^verbatim>\<open>highestAddr\<close>.\<close>

definition sectionTop :: "section_header \<Rightarrow> nat \<Rightarrow> nat" where
  "sectionTop sh highest =
     (if allocated sh \<and> 0 < sh_addr sh \<and> highest < numAdd (sh_addr sh) (sh_size sh)
      then numAdd (sh_addr sh) (sh_size sh) else highest)"

definition segmentTop :: "program_header \<Rightarrow> nat \<Rightarrow> nat" where
  "segmentTop ph highest =
     (if p_type ph = 1 \<and> 0 < p_memsz ph \<and> highest < numAdd (p_vaddr ph) (p_memsz ph)
      then numAdd (p_vaddr ph) (p_memsz ph) else highest)"

definition highestAddr :: "elf_image \<Rightarrow> nat" where
  "highestAddr p = fold segmentTop (programHeaders p) (fold sectionTop (sectionHeaders p) 0)"

text \<open>\<^verbatim>\<open>STACK_ADDR\<close>, from the base cursor the section loop left.\<close>

definition stackAddr :: "elf_image \<Rightarrow> bool \<Rightarrow> nat \<Rightarrow> nat" where
  "stackAddr p obj base =
     (if obj then numAdd base 0x100000 else pageCeil (numAdd (highestAddr p) 0x100000))"

definition spReg :: "bool \<Rightarrow> reg" where
  "spReg b = (if b then X86_REG_RSP else X86_REG_ESP)"

text \<open>An engine call outside every \<^verbatim>\<open>try\<close>: when it throws, the handler ends with the
  exception.\<close>

definition andThen :: "js_error option \<times> 'e \<Rightarrow> ('e \<Rightarrow> js_error + 'a) \<Rightarrow> js_error + 'a" where
  "andThen r k = (case r of (Some err, e) \<Rightarrow> Inl err | (None, e) \<Rightarrow> k e)"

definition setupStack ::
  "'e loader_ops \<Rightarrow> 'e engine_ops \<Rightarrow> bool \<Rightarrow> nat \<Rightarrow> 'e \<Rightarrow> js_error + 'e" where
  "setupStack lops ops b STACK_ADDR e =
     andThen (mem_map lops e STACK_ADDR STACK_SIZE PROT_ALL)
       (\<lambda>e1. Inr (reg_write ops e1 (spReg b)
                   (toNumber (numAdd STACK_ADDR STACK_SIZE - 0x1000))))"

subsection \<open>The entry point and the function map\<close>

text \<open>The first loop over \<^verbatim>\<open>.symtab\<close>: it reads the name offset and the value of each
  entry, and stops at the first one named \<^verbatim>\<open>main\<close>. \<open>None\<close> is a range error, which
  nothing catches.\<close>

fun findMain :: "(nat \<Rightarrow> raw_symbol option) \<Rightarrow> nat list \<Rightarrow> nat option option" where
  "findMain rd [] = Some None"
| "findMain rd (i # rest) =
     (case rd i of
        None \<Rightarrow> None
      | Some s \<Rightarrow> if st_name s = ''main'' then Some (Some (st_value s)) else findMain rd rest)"

definition lookupMain ::
  "elf_image \<Rightarrow> bool \<Rightarrow> section_header option \<Rightarrow> section_header option \<Rightarrow> nat option option" where
  "lookupMain p b symtabSection strtabSection =
     (case (symtabSection, strtabSection) of
        (Some symtab, Some strtab) \<Rightarrow>
          if sh_size symtab = 0 then Some None
          else do {
            symtabData \<leftarrow> sectionBytes p symtab;
            strtabData \<leftarrow> sectionBytes p strtab;
            findMain (readSymbol p b False False symtab strtabData)
              [0..<loopCount (sh_size symtab) (symbolSize b)]
          }
      | _ \<Rightarrow> Some None)"

text \<open>\<^verbatim>\<open>mainAddr && mainAddr > 0\<close>\<close>

definition mainFound :: "nat option \<Rightarrow> bool" where
  "mainFound mainAddr = (case mainAddr of None \<Rightarrow> False | Some a \<Rightarrow> 0 < a)"

text \<open>A number that can be \<^verbatim>\<open>NaN\<close>: \<^verbatim>\<open>sectionAddresses.get('.text') + n\<close> is \<^verbatim>\<open>NaN\<close> when
  no text address was recorded.\<close>

datatype jsnum = Num nat | NaN

definition textPlus :: "nat option \<Rightarrow> nat \<Rightarrow> jsnum" where
  "textPlus textAddr n = (case textAddr of None \<Rightarrow> NaN | Some t \<Rightarrow> Num (numAdd t n))"

text \<open>The second loop over \<^verbatim>\<open>.symtab\<close> fills \<^verbatim>\<open>functionMap\<close>; it also reads the size and
  the info byte. The map is kept as the list of the \<^verbatim>\<open>set\<close> calls in order; a later one
  for the same name wins.\<close>

fun collectMap ::
  "(nat \<Rightarrow> raw_symbol option) \<Rightarrow> nat option \<Rightarrow> nat list \<Rightarrow> (string \<times> jsnum) list \<Rightarrow>
   (string \<times> jsnum) list option" where
  "collectMap rd textAddr [] functionMap = Some functionMap"
| "collectMap rd textAddr (i # rest) functionMap =
     (case rd i of
        None \<Rightarrow> None
      | Some s \<Rightarrow>
          collectMap rd textAddr rest
            (if isFunctionSymbol s
             then functionMap @ [(st_name s, textPlus textAddr (st_value s))]
             else functionMap))"

definition fmGet :: "(string \<times> jsnum) list \<Rightarrow> string \<Rightarrow> jsnum option" where
  "fmGet functionMap n = map_of (rev functionMap) n"

definition buildFunctionMap ::
  "elf_image \<Rightarrow> bool \<Rightarrow> section_header option \<Rightarrow> section_header option \<Rightarrow> nat option \<Rightarrow>
   (string \<times> jsnum) list option" where
  "buildFunctionMap p b symtabSection strtabSection textAddr =
     (case (symtabSection, strtabSection) of
        (Some symtab, Some strtab) \<Rightarrow>
          do {
            symtabData \<leftarrow> sectionBytes p symtab;
            strtabData \<leftarrow> sectionBytes p strtab;
            collectMap (readSymbol p b True True symtab strtabData) textAddr
              [0..<loopCount (sh_size symtab) (symbolSize b)] []
          }
      | _ \<Rightarrow> Some [])"

text \<open>How the handler can end without a debugger: an exception nothing catches, one of its
  two error messages, or, outside what the engine record describes, a call of the engine
  with \<^verbatim>\<open>NaN\<close> as an address (the model follows the source up to that call).\<close>

datatype init_stop = Throws js_error | ErrorNoText | ErrorNoEntry | NaNToEngine

text \<open>The entry point of an object file; \<open>None\<close> is the message
  \<^verbatim>\<open>No .text section found in object file\<close>.\<close>

definition objectEntry :: "nat option \<Rightarrow> nat option \<Rightarrow> jsnum option" where
  "objectEntry textAddr mainAddr =
     (case mainAddr of
        None \<Rightarrow> (case textAddr of None \<Rightarrow> None | Some t \<Rightarrow> if t = 0 then None else Some (Num t))
      | Some a \<Rightarrow>
          if 0 < a then Some (textPlus textAddr a)
          else (case textAddr of None \<Rightarrow> None | Some t \<Rightarrow> if t = 0 then None else Some (Num t)))"

definition findEntry ::
  "elf_image \<Rightarrow> bool \<Rightarrow> (string \<rightharpoonup> nat) \<Rightarrow>
   init_stop + (jsnum \<times> nat option \<times> (string \<times> jsnum) list)" where
  "findEntry p obj addrs =
     (let b = (e_class (elfHeader p) = ELF64);
          symtabSection = findSection ''.symtab'' p;
          strtabSection = findSection ''.strtab'' p
      in if obj then
           (case lookupMain p b symtabSection strtabSection of
              None \<Rightarrow> Inl (Throws RangeError)
            | Some mainAddr \<Rightarrow>
                (case buildFunctionMap p b symtabSection strtabSection (addrs ''.text'') of
                   None \<Rightarrow> Inl (Throws RangeError)
                 | Some functionMap \<Rightarrow>
                     (case objectEntry (addrs ''.text'') mainAddr of
                        None \<Rightarrow> Inl ErrorNoText
                      | Some entry \<Rightarrow>
                          if entry = Num 0 then Inl ErrorNoEntry
                          else Inr (entry, mainAddr, functionMap))))
         else if e_entry (elfHeader p) = 0 then Inl ErrorNoEntry
         else Inr (Num (e_entry (elfHeader p)), None, []))"

subsection \<open>The relocations of the text\<close>

record rela_entry =
  r_offset :: nat
  r_info :: nat
  r_addend :: int

definition relaSize :: "bool \<Rightarrow> nat" where
  "relaSize b = (if b then 24 else 12)"

text \<open>\<^verbatim>\<open>Number(getBigInt64(0, true))\<close>: the two's-complement reading of the eight
  bytes, rounded like every 64-bit quantity.\<close>

definition getBigInt64 :: "byte list \<Rightarrow> nat \<Rightarrow> int option" where
  "getBigInt64 v off =
     map_option
       (\<lambda>bs. if leNat bs < 0x8000000000000000 then int (toNumber (leNat bs))
             else - int (toNumber (0x10000000000000000 - leNat bs)))
       (readBytes v off 8)"

text \<open>One entry of \<^verbatim>\<open>.rela.text\<close>: offset, info and, in a 64-bit image, the addend.
  \<open>None\<close> is a range error, which nothing catches.\<close>

definition readRela :: "elf_image \<Rightarrow> bool \<Rightarrow> section_header \<Rightarrow> nat \<Rightarrow> rela_entry option" where
  "readRela p b rela i =
     (let at = sh_offset rela + i * relaSize b in
      do {
        off \<leftarrow> (if b then getBigUint64 (view p) at else getUint32 (view p) at True);
        info \<leftarrow> (if b then getBigUint64 (view p) (at + 8) else getUint32 (view p) (at + 4) True);
        addend \<leftarrow> (if b then getBigInt64 (view p) (at + 16) else Some 0);
        Some \<lparr>r_offset = off, r_info = info, r_addend = addend\<rparr>
      })"

text \<open>The conversion every bitwise operator of the language applies to its operands.\<close>

definition toInt32 :: "int \<Rightarrow> int" where
  "toInt32 x =
     (if x mod 0x100000000 < 0x80000000 then x mod 0x100000000
      else x mod 0x100000000 - 0x100000000)"

text \<open>\<^verbatim>\<open>is64bit ? Math.floor(info / 0x100000000) : (info >> 8)\<close> and
  \<^verbatim>\<open>is64bit ? (info & 0xffffffff) : (info & 0xff)\<close>. The shift and the masks work on the
  signed 32-bit reading of \<^verbatim>\<open>info\<close>.\<close>

definition symbolIndexOf :: "bool \<Rightarrow> nat \<Rightarrow> int" where
  "symbolIndexOf b info = (if b then int (info div 0x100000000) else toInt32 (int info) div 256)"

definition relocTypeOf :: "bool \<Rightarrow> nat \<Rightarrow> int" where
  "relocTypeOf b info = (if b then toInt32 (int info) else toInt32 (int info) mod 256)"

text \<open>The name of the symbol a relocation refers to; empty when the index is negative or
  past the table, when a table is missing, or when the name offset is 0 or outside the
  string table. \<open>None\<close> is a range error, which nothing catches.\<close>

definition relocSymbolName ::
  "elf_image \<Rightarrow> bool \<Rightarrow> section_header option \<Rightarrow> section_header option \<Rightarrow> int \<Rightarrow>
   string option" where
  "relocSymbolName p b symtabSection strtabSection symbolIndex =
     (case (symtabSection, strtabSection) of
        (Some symtab, Some strtab) \<Rightarrow>
          if 0 \<le> symbolIndex \<and> nat symbolIndex * symbolSize b < sh_size symtab then
            do {
              symtabData \<leftarrow> sectionBytes p symtab;
              strtabData \<leftarrow> sectionBytes p strtab;
              nameOffset \<leftarrow>
                getUint32 (view p) (sh_offset symtab + nat symbolIndex * symbolSize b) True;
              Some (if nameOffset < length strtabData \<and> 0 < nameOffset
                    then symbolNameAt strtabData nameOffset else [])
            }
          else Some []
      | _ \<Rightarrow> Some [])"

text \<open>Four bytes, least significant first, of a number below \<open>2 ^ 32\<close>.\<close>

definition le32 :: "nat \<Rightarrow> byte list" where
  "le32 n = [of_nat n, of_nat (n div 0x100), of_nat (n div 0x10000), of_nat (n div 0x1000000)]"

text \<open>\<^verbatim>\<open>new DataView(patchBytes.buffer).setInt32(0, x, true)\<close> and
  \<^verbatim>\<open>setUint32(0, x, true)\<close> on a fresh four-byte array: the value modulo \<open>2 ^ 32\<close>, and
  zero for \<^verbatim>\<open>NaN\<close>.\<close>

definition setInt32 :: "int option \<Rightarrow> byte list" where
  "setInt32 x = (case x of None \<Rightarrow> le32 0 | Some v \<Rightarrow> le32 (nat (v mod 0x100000000)))"

definition setUint32 :: "jsnum \<Rightarrow> byte list" where
  "setUint32 x = (case x of NaN \<Rightarrow> le32 0 | Num n \<Rightarrow> le32 (n mod 0x100000000))"

text \<open>\<^verbatim>\<open>sectionAddresses.get('.text') + offset\<close> for a text address that exists.\<close>

definition patchAddrOf :: "nat \<Rightarrow> rela_entry \<Rightarrow> nat" where
  "patchAddrOf t r = numAdd t (r_offset r)"

text \<open>\<^verbatim>\<open>targetAddr - (patchAddr + 4)\<close>; \<open>None\<close> is \<^verbatim>\<open>NaN\<close>.\<close>

definition displacement :: "nat \<Rightarrow> nat \<Rightarrow> int" where
  "displacement t patchAddr = numSub t (numAdd patchAddr 4)"

definition relativeAddr :: "jsnum \<Rightarrow> nat \<Rightarrow> int option" where
  "relativeAddr targetAddr patchAddr =
     (case targetAddr of NaN \<Rightarrow> None | Num t \<Rightarrow> Some (displacement t patchAddr))"

text \<open>The patch of one entry once its symbol name is known. The write sits in a
  \<^verbatim>\<open>try\<close>: when the engine throws, the entry is given up and the loop goes on.\<close>

definition applyRelocation ::
  "'e loader_ops \<Rightarrow> (string \<times> jsnum) list \<Rightarrow> nat option \<Rightarrow> bool \<Rightarrow> rela_entry \<Rightarrow> string \<Rightarrow>
   'e \<Rightarrow> init_stop + 'e" where
  "applyRelocation lops functionMap textAddr b r symbolName e =
     (if symbolName = [] then Inr e
      else
        (case fmGet functionMap symbolName of
           None \<Rightarrow> Inr e
         | Some targetAddr \<Rightarrow>
             (let relocType = relocTypeOf b (r_info r) in
              if relocType = 4 \<or> relocType = 2 \<or> relocType = 10 then
                (case textAddr of
                   None \<Rightarrow> Inl NaNToEngine
                 | Some t \<Rightarrow>
                     (let patchAddr = patchAddrOf t r;
                          patchBytes = (if relocType = 10 then setUint32 targetAddr
                                        else setInt32 (relativeAddr targetAddr patchAddr))
                      in Inr (snd (mem_write lops e patchAddr patchBytes))))
              else Inr e)))"

definition relocStep ::
  "'e loader_ops \<Rightarrow> elf_image \<Rightarrow> bool \<Rightarrow> section_header option \<Rightarrow> section_header option \<Rightarrow>
   (string \<times> jsnum) list \<Rightarrow> nat option \<Rightarrow> section_header \<Rightarrow> nat \<Rightarrow> 'e \<Rightarrow> init_stop + 'e" where
  "relocStep lops p b symtabSection strtabSection functionMap textAddr rela i e =
     (case readRela p b rela i of
        None \<Rightarrow> Inl (Throws RangeError)
      | Some r \<Rightarrow>
          (case relocSymbolName p b symtabSection strtabSection (symbolIndexOf b (r_info r)) of
             None \<Rightarrow> Inl (Throws RangeError)
           | Some symbolName \<Rightarrow> applyRelocation lops functionMap textAddr b r symbolName e))"

fun relocLoop :: "(nat \<Rightarrow> 'e \<Rightarrow> init_stop + 'e) \<Rightarrow> nat list \<Rightarrow> 'e \<Rightarrow> init_stop + 'e" where
  "relocLoop step [] e = Inr e"
| "relocLoop step (i # rest) e =
     (case step i e of Inl s \<Rightarrow> Inl s | Inr e1 \<Rightarrow> relocLoop step rest e1)"

definition processRelocations ::
  "'e loader_ops \<Rightarrow> elf_image \<Rightarrow> bool \<Rightarrow> (string \<times> jsnum) list \<Rightarrow> nat option \<Rightarrow> 'e \<Rightarrow>
   init_stop + 'e" where
  "processRelocations lops p b functionMap textAddr e =
     (case findSection ''.rela.text'' p of
        None \<Rightarrow> Inr e
      | Some rela \<Rightarrow>
          if 0 < sh_size rela \<and> functionMap \<noteq> [] then
            (case sectionBytes p rela of
               None \<Rightarrow> Inl (Throws RangeError)
             | Some relaData \<Rightarrow>
                 relocLoop
                   (relocStep lops p b (findSection ''.symtab'' p) (findSection ''.strtab'' p)
                      functionMap textAddr rela)
                   [0..<loopCount (sh_size rela) (relaSize b)] e)
          else Inr e)"

subsection \<open>The halt trampoline\<close>

text \<open>\<^verbatim>\<open>setBigUint64(0, BigInt(exitAddr), true)\<close> on a fresh eight-byte array.\<close>

definition le64 :: "nat \<Rightarrow> byte list" where
  "le64 n = le32 (n mod 0x100000000) @ le32 (n div 0x100000000)"

text \<open>\<^verbatim>\<open>argc = 0\<close> and \<^verbatim>\<open>argv = NULL\<close>: in two registers, or on the stack of a 32-bit
  image. The stack pointer is what the engine answers; the model takes the differences
  \<^verbatim>\<open>sp - 4\<close> and \<^verbatim>\<open>sp - 8\<close> in the naturals.\<close>

definition passArguments :: "'e loader_ops \<Rightarrow> 'e engine_ops \<Rightarrow> bool \<Rightarrow> 'e \<Rightarrow> js_error + 'e" where
  "passArguments lops ops b e =
     (if b then Inr (reg_write ops (reg_write ops e X86_REG_RDI 0) X86_REG_RSI 0)
      else
        (let sp = reg_read ops e X86_REG_ESP in
         andThen (mem_write lops e (sp - 4) [0, 0, 0, 0])
           (\<lambda>e1. andThen (mem_write lops e1 (sp - 8) [0, 0, 0, 0])
             (\<lambda>e2. Inr (reg_write ops e2 X86_REG_ESP (sp - 8))))))"

definition pushReturnAddress ::
  "'e loader_ops \<Rightarrow> 'e engine_ops \<Rightarrow> bool \<Rightarrow> nat \<Rightarrow> 'e \<Rightarrow> js_error + 'e" where
  "pushReturnAddress lops ops b exitAddr e =
     (let sp = reg_read ops e (spReg b) in
      if b then
        andThen (mem_write lops e (sp - 8) (le64 exitAddr))
          (\<lambda>e1. Inr (reg_write ops e1 X86_REG_RSP (sp - 8)))
      else
        andThen (mem_write lops e (sp - 4) (setUint32 (Num exitAddr)))
          (\<lambda>e1. Inr (reg_write ops e1 X86_REG_ESP (sp - 4))))"

text \<open>The block guarded by \<^verbatim>\<open>isObjectFile && mainAddr && mainAddr > 0\<close>: arguments, the
  page behind the stack with the one-byte \<open>hlt\<close>, and its address pushed as return
  address. It answers the engine and \<^verbatim>\<open>exitAddr\<close>.\<close>

definition installTrampoline ::
  "'e loader_ops \<Rightarrow> 'e engine_ops \<Rightarrow> bool \<Rightarrow> nat \<Rightarrow> 'e \<Rightarrow> js_error + ('e \<times> nat)" where
  "installTrampoline lops ops b STACK_ADDR e =
     (case passArguments lops ops b e of
        Inl err \<Rightarrow> Inl err
      | Inr e1 \<Rightarrow>
          (let exitAddr = numAdd (numAdd STACK_ADDR STACK_SIZE) 0x1000 in
           andThen (mem_map lops e1 exitAddr 0x1000 PROT_ALL)
             (\<lambda>e2. andThen (mem_write lops e2 exitAddr [0xF4])
               (\<lambda>e3. case pushReturnAddress lops ops b exitAddr e3 of
                        Inl err \<Rightarrow> Inl err
                      | Inr e4 \<Rightarrow> Inr (e4, exitAddr)))))"

definition trampolineIfMain ::
  "'e loader_ops \<Rightarrow> 'e engine_ops \<Rightarrow> bool \<Rightarrow> bool \<Rightarrow> nat option \<Rightarrow> nat \<Rightarrow> 'e \<Rightarrow>
   js_error + ('e \<times> nat option)" where
  "trampolineIfMain lops ops b obj mainAddr STACK_ADDR e =
     (if obj \<and> mainFound mainAddr then
        (case installTrampoline lops ops b STACK_ADDR e of
           Inl err \<Rightarrow> Inl err
         | Inr (e1, exitAddr) \<Rightarrow> Inr (e1, Some exitAddr))
      else Inr (e, None))"

subsection \<open>The handler\<close>

text \<open>The end of the handler: the controller on the engine, the breakpoint on the exit
  address if there is one, and the ready message unless the performance mode is on.\<close>

definition finishInit ::
  "'e engine_ops \<Rightarrow> bool \<Rightarrow> bool \<Rightarrow> nat \<Rightarrow> nat option \<Rightarrow> 'e \<Rightarrow> 'e debugger" where
  "finishInit ops b perf entry exitAddr e =
     (let d = newDebugger ops e b entry;
          d1 = (case exitAddr of None \<Rightarrow> d | Some a \<Rightarrow> addBreakpoint a d)
      in if perf then d1 else d1\<lparr>emuOutput := [DebuggerInitialized]\<rparr>)"

datatype 'e init_outcome = Ready "'e debugger" | Stopped init_stop

text \<open>What the handler has in hand when the relocations are done: the engine, the stack
  address, the entry point and the value of \<^verbatim>\<open>main\<close> if the symbol was found.\<close>

record 'e prepared =
  pr_engine :: 'e
  pr_stack :: nat
  pr_entry :: jsnum
  pr_main :: "nat option"
  pr_text :: "nat option"

definition prepareImage ::
  "'e loader_ops \<Rightarrow> 'e engine_ops \<Rightarrow> 'e \<Rightarrow> elf_image \<Rightarrow> init_stop + 'e prepared" where
  "prepareImage lops ops e0 p =
     (let b = (e_class (elfHeader p) = ELF64);
          obj = isObjectFile p;
          L = placeSections lops p obj (newLoader e0 obj);
          STACK_ADDR = stackAddr p obj (baseAddr L)
      in case setupStack lops ops b STACK_ADDR (ld_engine L) of
           Inl err \<Rightarrow> Inl (Throws err)
         | Inr e1 \<Rightarrow>
             (case findEntry p obj (sectionAddresses L) of
                Inl s \<Rightarrow> Inl s
              | Inr (entry, mainAddr, functionMap) \<Rightarrow>
                  (case processRelocations lops p b functionMap (sectionAddresses L ''.text'') e1 of
                     Inl s \<Rightarrow> Inl s
                   | Inr e2 \<Rightarrow>
                       Inr \<lparr>pr_engine = e2, pr_stack = STACK_ADDR, pr_entry = entry,
                            pr_main = mainAddr, pr_text = sectionAddresses L ''.text''\<rparr>)))"

definition runUnicorn ::
  "'e loader_ops \<Rightarrow> 'e engine_ops \<Rightarrow> bool \<Rightarrow> 'e \<Rightarrow> elf_image \<Rightarrow> 'e init_outcome" where
  "runUnicorn lops ops perf e0 p =
     (let b = (e_class (elfHeader p) = ELF64) in
      case prepareImage lops ops e0 p of
        Inl s \<Rightarrow> Stopped s
      | Inr pr \<Rightarrow>
          (case trampolineIfMain lops ops b (isObjectFile p) (pr_main pr) (pr_stack pr)
                  (pr_engine pr) of
             Inl err \<Rightarrow> Stopped (Throws err)
           | Inr (e3, exitAddr) \<Rightarrow>
               (case pr_entry pr of
                  NaN \<Rightarrow> Stopped NaNToEngine
                | Num entry \<Rightarrow> Ready (finishInit ops b perf entry exitAddr e3))))"

section \<open>A recording engine for the image builder\<close>

text \<open>
  A concrete engine to load images into. It keeps the registers, the mapped regions and
  the writes, the latest first. Mapping a region that overlaps a mapped one fails, as does
  a write that does not lie inside one mapped region. It executes nothing.
\<close>

record rec_engine =
  r_regs :: "(reg \<times> nat) list"
  r_regions :: "(nat \<times> nat \<times> nat) list"
  r_writes :: "(nat \<times> byte list) list"

definition rec_reg_read :: "rec_engine \<Rightarrow> reg \<Rightarrow> nat" where
  "rec_reg_read e r = (case map_of (r_regs e) r of None \<Rightarrow> 0 | Some v \<Rightarrow> v)"

definition rec_reg_write :: "rec_engine \<Rightarrow> reg \<Rightarrow> nat \<Rightarrow> rec_engine" where
  "rec_reg_write e r v = e\<lparr>r_regs := (r, v) # filter (\<lambda>x. fst x \<noteq> r) (r_regs e)\<rparr>"

definition rec_mem_map :: "rec_engine \<Rightarrow> nat \<Rightarrow> nat \<Rightarrow> nat \<Rightarrow> js_error option \<times> rec_engine" where
  "rec_mem_map e a s prot =
     (if list_ex (\<lambda>g. a < fst g + fst (snd g) \<and> fst g < a + s) (r_regions e)
      then (Some UC_ERR_MAP, e)
      else (None, e\<lparr>r_regions := r_regions e @ [(a, s, prot)]\<rparr>))"

definition rec_mem_write :: "rec_engine \<Rightarrow> nat \<Rightarrow> byte list \<Rightarrow> js_error option \<times> rec_engine" where
  "rec_mem_write e a bs =
     (if list_ex (\<lambda>g. fst g \<le> a \<and> a + length bs \<le> fst g + fst (snd g)) (r_regions e)
      then (None, e\<lparr>r_writes := (a, bs) # r_writes e\<rparr>)
      else (Some UC_ERR_WRITE_UNMAPPED, e))"

definition rec_byte :: "rec_engine \<Rightarrow> nat \<Rightarrow> byte option" where
  "rec_byte e a =
     (if list_ex (\<lambda>g. fst g \<le> a \<and> a < fst g + fst (snd g)) (r_regions e)
      then (case memOf (r_writes e) a of None \<Rightarrow> Some 0 | Some v \<Rightarrow> Some v)
      else None)"

definition rec_mem_read :: "rec_engine \<Rightarrow> nat \<Rightarrow> nat \<Rightarrow> js_error + byte list" where
  "rec_mem_read e a n =
     (if list_all (\<lambda>i. rec_byte e (a + i) \<noteq> None) [0..<n]
      then Inr (map (\<lambda>i. the (rec_byte e (a + i))) [0..<n])
      else Inl UC_ERR_OTHER)"

definition recOps :: "rec_engine engine_ops" where
  "recOps =
     \<lparr> reg_read = rec_reg_read,
       reg_write = rec_reg_write,
       mem_read = rec_mem_read,
       emu_start = (\<lambda>e begin until stop. ([], Some UC_ERR_OTHER, e)),
       disasm = cpu_disasm \<rparr>"

definition recLoad :: "rec_engine loader_ops" where
  "recLoad = \<lparr> mem_map = rec_mem_map, mem_write = rec_mem_write \<rparr>"

definition rec0 :: rec_engine where
  "rec0 = \<lparr>r_regs = [], r_regions = [], r_writes = []\<rparr>"

section \<open>More small images\<close>

text \<open>The object file of above with the two symbols exchanged: \<open>main\<close> is the function at
  offset 0 of the text, \<open>add\<close> the one at offset 6.\<close>

definition mainFirstSymtab :: "byte list" where
  "mainFirstSymtab =
     [0, 0, 0, 0, 0, 0, 0, 0,  0, 0, 0, 0, 0, 0, 0, 0,  0, 0, 0, 0, 0, 0, 0, 0,
      1, 0, 0, 0, 0x12, 0, 1, 0,  6, 0, 0, 0, 0, 0, 0, 0,  11, 0, 0, 0, 0, 0, 0, 0,
      5, 0, 0, 0, 0x12, 0, 1, 0,  0, 0, 0, 0, 0, 0, 0, 0,  6, 0, 0, 0, 0, 0, 0, 0]"

definition mainFirstImage :: elf_image where
  "mainFirstImage =
     objImage\<lparr>view := header64 @ objText @ objStrtab @ mainFirstSymtab @ objRela\<rparr>"

text \<open>A linked executable: text at 0x401000 and data at 0x402010, inside one loadable
  segment from 0x400000 to 0x403000.\<close>

definition exeTextSh :: section_header where
  "exeTextSh =
     \<lparr>sh_nameOff = 1, sh_type = 1, sh_flags = 6, sh_addr = 0x401000, sh_offset = 64,
      sh_size = 6, sh_link = 0, sh_info = 0, sh_addralign = 16, sh_entsize = 0,
      sh_name = ''.text''\<rparr>"

definition exeDataSh :: section_header where
  "exeDataSh =
     \<lparr>sh_nameOff = 7, sh_type = 1, sh_flags = 3, sh_addr = 0x402010, sh_offset = 70,
      sh_size = 4, sh_link = 0, sh_info = 0, sh_addralign = 4, sh_entsize = 0,
      sh_name = ''.data''\<rparr>"

definition exeImage :: elf_image where
  "exeImage =
     \<lparr>elfHeader = \<lparr>e_class = ELF64, e_data = LittleEndian, e_entry = 0x401000, e_phoff = 0,
                   e_shoff = 74, e_phentsz = 56, e_phnum = 1, e_shentsz = 64, e_shnum = 3,
                   e_shstrndx = 0\<rparr>,
      programHeaders =
        [\<lparr>p_type = 1, p_flags = 7, p_offset = 0, p_vaddr = 0x400000, p_filesz = 74,
          p_memsz = 0x3000, p_align = 0x1000\<rparr>],
      sectionHeaders = [objNullSh, exeTextSh, exeDataSh],
      view = header64 @ [0x55, 0x48, 0x89, 0xE5, 0x5D, 0xC3] @ [1, 2, 3, 4]\<rparr>"

text \<open>A file the parser accepts with an allocated text section at address 0, which makes
  it an object file for the handler, and an allocated data section that carries the address
  0x10101000. After the 64-byte header come four section headers (the null section,
  \<^verbatim>\<open>.text\<close>, \<^verbatim>\<open>.data\<close> and the section names), the 23 bytes of the names at 320, the six
  bytes of the text at 343 and the four bytes of the data at 349.\<close>

definition strayDataFile :: "byte list" where
  "strayDataFile =
     [0x7F, 0x45, 0x4C, 0x46, 2, 1, 1, 0,  0, 0, 0, 0, 0, 0, 0, 0,
      1, 0, 0x3E, 0, 1, 0, 0, 0,  0, 0, 0, 0, 0, 0, 0, 0,
      0, 0, 0, 0, 0, 0, 0, 0,  64, 0, 0, 0, 0, 0, 0, 0,
      0, 0, 0, 0, 64, 0, 0, 0,  0, 0, 64, 0, 4, 0, 3, 0] @
     [0, 0, 0, 0, 0, 0, 0, 0,  0, 0, 0, 0, 0, 0, 0, 0,  0, 0, 0, 0, 0, 0, 0, 0,
      0, 0, 0, 0, 0, 0, 0, 0,  0, 0, 0, 0, 0, 0, 0, 0,  0, 0, 0, 0, 0, 0, 0, 0,
      0, 0, 0, 0, 0, 0, 0, 0,  0, 0, 0, 0, 0, 0, 0, 0] @
     [1, 0, 0, 0, 1, 0, 0, 0,  6, 0, 0, 0, 0, 0, 0, 0,  0, 0, 0, 0, 0, 0, 0, 0,
      0x57, 1, 0, 0, 0, 0, 0, 0,  6, 0, 0, 0, 0, 0, 0, 0,  0, 0, 0, 0, 0, 0, 0, 0,
      1, 0, 0, 0, 0, 0, 0, 0,  0, 0, 0, 0, 0, 0, 0, 0] @
     [7, 0, 0, 0, 1, 0, 0, 0,  3, 0, 0, 0, 0, 0, 0, 0,  0, 0x10, 0x10, 0x10, 0, 0, 0, 0,
      0x5D, 1, 0, 0, 0, 0, 0, 0,  4, 0, 0, 0, 0, 0, 0, 0,  0, 0, 0, 0, 0, 0, 0, 0,
      4, 0, 0, 0, 0, 0, 0, 0,  0, 0, 0, 0, 0, 0, 0, 0] @
     [13, 0, 0, 0, 3, 0, 0, 0,  0, 0, 0, 0, 0, 0, 0, 0,  0, 0, 0, 0, 0, 0, 0, 0,
      0x40, 1, 0, 0, 0, 0, 0, 0,  23, 0, 0, 0, 0, 0, 0, 0,  0, 0, 0, 0, 0, 0, 0, 0,
      1, 0, 0, 0, 0, 0, 0, 0,  0, 0, 0, 0, 0, 0, 0, 0] @
     [0, 0x2E, 0x74, 0x65, 0x78, 0x74,  0, 0x2E, 0x64, 0x61, 0x74, 0x61,
      0, 0x2E, 0x73, 0x68, 0x73, 0x74, 0x72, 0x74, 0x61, 0x62, 0] @
     [0x55, 0x48, 0x89, 0xE5, 0x5D, 0xC3] @
     [1, 2, 3, 4]"

text \<open>The image the parser makes of it (see \<open>strayDataFile_parsed\<close>).\<close>

definition strayTextSh :: section_header where
  "strayTextSh =
     \<lparr>sh_nameOff = 1, sh_type = 1, sh_flags = 6, sh_addr = 0, sh_offset = 343, sh_size = 6,
      sh_link = 0, sh_info = 0, sh_addralign = 1, sh_entsize = 0, sh_name = ''.text''\<rparr>"

definition strayDataSh :: section_header where
  "strayDataSh =
     \<lparr>sh_nameOff = 7, sh_type = 1, sh_flags = 3, sh_addr = 0x10101000, sh_offset = 349,
      sh_size = 4, sh_link = 0, sh_info = 0, sh_addralign = 4, sh_entsize = 0,
      sh_name = ''.data''\<rparr>"

definition strayNamesSh :: section_header where
  "strayNamesSh =
     \<lparr>sh_nameOff = 13, sh_type = 3, sh_flags = 0, sh_addr = 0, sh_offset = 320, sh_size = 23,
      sh_link = 0, sh_info = 0, sh_addralign = 1, sh_entsize = 0, sh_name = ''.shstrtab''\<rparr>"

definition strayDataHeader :: elf_header where
  "strayDataHeader =
     \<lparr>e_class = ELF64, e_data = LittleEndian, e_entry = 0, e_phoff = 0, e_shoff = 64,
      e_phentsz = 0, e_phnum = 0, e_shentsz = 64, e_shnum = 4, e_shstrndx = 3\<rparr>"

definition strayDataImage :: elf_image where
  "strayDataImage =
     \<lparr>elfHeader = strayDataHeader,
      programHeaders = [],
      sectionHeaders = [strayNullSh, strayTextSh, strayDataSh, strayNamesSh],
      view = strayDataFile\<rparr>"

text \<open>The recording engine while the handler loads the small object file: after the section
  loop, with the stack, after the relocation, and with the trampoline.\<close>

definition objEngine1 :: rec_engine where
  "objEngine1 =
     \<lparr>r_regs = [], r_regions = [(0x10000000, 0x1000, 6)], r_writes = [(0x10000000, objText)]\<rparr>"

definition objEngine2 :: rec_engine where
  "objEngine2 =
     \<lparr>r_regs = [(X86_REG_RSP, 0x10110000)],
      r_regions = [(0x10000000, 0x1000, 6), (0x10101000, 0x10000, 7)],
      r_writes = [(0x10000000, objText)]\<rparr>"

definition objEngine3 :: rec_engine where
  "objEngine3 =
     \<lparr>r_regs = [(X86_REG_RSP, 0x10110000)],
      r_regions = [(0x10000000, 0x1000, 6), (0x10101000, 0x10000, 7)],
      r_writes = [(0x1000000B, [0xF1, 0xFF, 0xFF, 0xFF]), (0x10000000, objText)]\<rparr>"

definition objEngine4 :: rec_engine where
  "objEngine4 =
     \<lparr>r_regs = [(X86_REG_RSP, 0x1010FFF8), (X86_REG_RSI, 0), (X86_REG_RDI, 0)],
      r_regions = [(0x10000000, 0x1000, 6), (0x10101000, 0x10000, 7), (0x10112000, 0x1000, 7)],
      r_writes = [(0x1010FFF8, [0, 0x20, 0x11, 0x10, 0, 0, 0, 0]), (0x10112000, [0xF4]),
                  (0x1000000B, [0xF1, 0xFF, 0xFF, 0xFF]), (0x10000000, objText)]\<rparr>"

definition objFunctionMap :: "(string \<times> jsnum) list" where
  "objFunctionMap = [(''add'', Num 0x10000000), (''main'', Num 0x10000006)]"

text \<open>The recording engine when the handler is done with the small executable.\<close>

definition exeEngine :: rec_engine where
  "exeEngine =
     \<lparr>r_regs = [(X86_REG_RIP, 0x401000), (X86_REG_RSP, 0x512000)],
      r_regions = [(0x401000, 0x1000, 6), (0x402000, 0x1000, 3), (0x503000, 0x10000, 7)],
      r_writes = [(0x402010, [1, 2, 3, 4]), (0x401000, [0x55, 0x48, 0x89, 0xE5, 0x5D, 0xC3])]\<rparr>"

text \<open>The engine, the function map and the debugger for the object file whose \<open>main\<close> is
  at offset 0.\<close>

definition mainFirstEngine :: rec_engine where
  "mainFirstEngine =
     \<lparr>r_regs = [(X86_REG_RSP, 0x10110000)],
      r_regions = [(0x10000000, 0x1000, 6), (0x10101000, 0x10000, 7)],
      r_writes = [(0x1000000B, [0xF7, 0xFF, 0xFF, 0xFF]), (0x10000000, objText)]\<rparr>"

definition mainFirstFunctionMap :: "(string \<times> jsnum) list" where
  "mainFirstFunctionMap = [(''add'', Num 0x10000006), (''main'', Num 0x10000000)]"

text \<open>The debuggers the handler ends with for the two object files.\<close>

definition objDebugger :: "rec_engine debugger" where
  "objDebugger =
     \<lparr>engine =
        \<lparr>r_regs = [(X86_REG_RIP, 0x10000006), (X86_REG_RSP, 0x1010FFF8), (X86_REG_RSI, 0),
                   (X86_REG_RDI, 0)],
         r_regions = [(0x10000000, 0x1000, 6), (0x10101000, 0x10000, 7),
                      (0x10112000, 0x1000, 7)],
         r_writes = [(0x1010FFF8, [0, 0x20, 0x11, 0x10, 0, 0, 0, 0]), (0x10112000, [0xF4]),
                     (0x1000000B, [0xF1, 0xFF, 0xFF, 0xFF]), (0x10000000, objText)]\<rparr>,
      is64bit = True, entryPoint = 0x10000006, currentAddress = 0x10000006,
      breakpoints = {0x10112000}, isRunning = False, isPaused = False, executionTrace = [],
      lastLoggedAddress = None, pendingTrace = None, executionCount = None,
      maxInstructions = None, emuOutput = [DebuggerInitialized],
      consoleLog = [LogBreakpointAdded 0x10112000]\<rparr>"

definition mainFirstDebugger :: "rec_engine debugger" where
  "mainFirstDebugger =
     \<lparr>engine =
        \<lparr>r_regs = [(X86_REG_RIP, 0x10000000), (X86_REG_RSP, 0x10110000)],
         r_regions = [(0x10000000, 0x1000, 6), (0x10101000, 0x10000, 7)],
         r_writes = [(0x1000000B, [0xF7, 0xFF, 0xFF, 0xFF]), (0x10000000, objText)]\<rparr>,
      is64bit = True, entryPoint = 0x10000000, currentAddress = 0x10000000,
      breakpoints = {}, isRunning = False, isPaused = False, executionTrace = [],
      lastLoggedAddress = None, pendingTrace = None, executionCount = None,
      maxInstructions = None, emuOutput = [DebuggerInitialized], consoleLog = []\<rparr>"

section \<open>Proofs: the execution controller\<close>

lemma toNumber_small: "n < 0x20000000000000 \<Longrightarrow> toNumber n = n"
  by (simp add: toNumber_def)

lemma toLowerCase_mnemonics:
  "toLowerCase ''hlt'' = ''hlt''" "toLowerCase ''nop'' = ''nop''" "toLowerCase ''ret'' = ''ret''"
  "toLowerCase ''ud2'' = ''ud2''"
  by (simp_all add: toLowerCase_def toLowerChar_def)

subsection \<open>What a step leaves alone\<close>

lemma logToExecutionTrace_keeps: "hookKeeps d (logToExecutionTrace ops d a)"
  by (simp add: hookKeeps_def logToExecutionTrace_def split: sum.splits list.splits)

lemma logToExecutionTrace_flags:
  "isRunning (logToExecutionTrace ops d a) = isRunning d \<and>
   isPaused (logToExecutionTrace ops d a) = isPaused d \<and>
   engine (logToExecutionTrace ops d a) = engine d \<and>
   emuOutput (logToExecutionTrace ops d a) = emuOutput d \<and>
   consoleLog (logToExecutionTrace ops d a) = consoleLog d"
  by (simp add: logToExecutionTrace_def split: sum.splits list.splits)

lemma hook_keeps: "hookKeeps d (hook ops perf d a)"
  using logToExecutionTrace_keeps[of "d\<lparr>currentAddress := a\<rparr>" ops a]
  by (simp add: hookKeeps_def hook_def Let_def say_def log_def split: sum.splits list.splits)

lemma hookKeeps_trans: "hookKeeps a b \<Longrightarrow> hookKeeps b c \<Longrightarrow> hookKeeps a c"
  by (simp add: hookKeeps_def)

lemma hookKeeps_refl: "hookKeeps a a"
  by (simp add: hookKeeps_def)

lemma foldl_hook_keeps: "hookKeeps d (foldl (hook ops perf) d as)"
proof (induction as arbitrary: d)
  case Nil
  show ?case by (simp add: hookKeeps_refl)
next
  case (Cons a as)
  show ?case using hook_keeps[of d ops perf a] Cons.IH[of "hook ops perf d a"]
    by (auto intro: hookKeeps_trans)
qed

lemma stepCatch_keeps: "hookKeeps d (stepCatch ops perf err d)"
  by (simp add: hookKeeps_def stepCatch_def Let_def say_def log_def)

lemma logExecutedInstruction_keeps: "hookKeeps d (logExecutedInstruction ops d)"
  by (simp add: hookKeeps_def logExecutedInstruction_def updateExecutionTrace_def Let_def
      split: option.splits)

lemma stepInstruction_keeps: "hookKeeps d (stepInstruction ops perf d)"
proof -
  let ?d0 = "d\<lparr>isPaused := False\<rparr>"
  have k0: "hookKeeps d ?d0" by (simp add: hookKeeps_def)
  have c: "\<And>e x. hookKeeps d x \<Longrightarrow> hookKeeps d (stepCatch ops perf e x)"
    by (blast intro: hookKeeps_trans stepCatch_keeps)
  have l: "\<And>m x. hookKeeps d x \<Longrightarrow> hookKeeps d (log m x)"
    by (simp add: hookKeeps_def log_def)
  have f: "\<And>as x. hookKeeps d x \<Longrightarrow> hookKeeps d (foldl (hook ops perf) x as)"
    by (blast intro: hookKeeps_trans foldl_hook_keeps)
  have e: "\<And>v x. hookKeeps d x \<Longrightarrow> hookKeeps d (x\<lparr>engine := v\<rparr>)"
    by (simp add: hookKeeps_def)
  have a: "\<And>v x. hookKeeps d x \<Longrightarrow> hookKeeps d (x\<lparr>currentAddress := v\<rparr>)"
    by (simp add: hookKeeps_def)
  have g: "\<And>x. hookKeeps d x \<Longrightarrow> hookKeeps d (logExecutedInstruction ops x)"
    by (blast intro: hookKeeps_trans logExecutedInstruction_keeps)
  have n: "\<And>v x. hookKeeps d x \<Longrightarrow> hookKeeps d (x\<lparr>lastLoggedAddress := v\<rparr>)"
    by (simp add: hookKeeps_def)
  show ?thesis
    unfolding stepInstruction_def Let_def
    by (auto split: sum.splits list.splits option.splits intro!: c l f e a g n k0)
qed

subsection \<open>The flags after a step\<close>

lemma hook_flags: "flagsOk d \<Longrightarrow> flagsOk (hook ops perf d a)"
  using logToExecutionTrace_flags[of ops "d\<lparr>currentAddress := a\<rparr>" a]
  by (auto simp add: flagsOk_def hook_def Let_def say_def log_def split: sum.splits list.splits)

lemma foldl_hook_flags: "flagsOk d \<Longrightarrow> flagsOk (foldl (hook ops perf) d as)"
  by (induction as arbitrary: d) (auto intro: hook_flags)

lemma stepCatch_flags: "flagsOk (stepCatch ops perf err d)"
  by (simp add: flagsOk_def stepCatch_def Let_def say_def log_def)

lemma logExecutedInstruction_flags:
  "isRunning (logExecutedInstruction ops d) = isRunning d \<and>
   isPaused (logExecutedInstruction ops d) = isPaused d"
  by (simp add: logExecutedInstruction_def updateExecutionTrace_def Let_def split: option.splits)

lemma stepInstruction_flags: "flagsOk (stepInstruction ops perf d)"
proof -
  have f: "\<And>as m. flagsOk (foldl (hook ops perf) (log m (d\<lparr>isPaused := False\<rparr>)) as)"
    by (rule foldl_hook_flags) (simp add: flagsOk_def log_def)
  have e: "\<And>v x. flagsOk x \<Longrightarrow> flagsOk (x\<lparr>engine := v\<rparr>)"
    by (simp add: flagsOk_def)
  have a: "\<And>v x. flagsOk x \<Longrightarrow> flagsOk (x\<lparr>currentAddress := v\<rparr>)"
    by (simp add: flagsOk_def)
  have g: "\<And>x. flagsOk x \<Longrightarrow> flagsOk (logExecutedInstruction ops x)"
    by (simp add: flagsOk_def logExecutedInstruction_flags)
  have n: "\<And>v x. flagsOk x \<Longrightarrow> flagsOk (x\<lparr>lastLoggedAddress := v\<rparr>)"
    by (simp add: flagsOk_def)
  show ?thesis
    unfolding stepInstruction_def Let_def
    by (auto split: sum.splits list.splits option.splits intro!: stepCatch_flags f e a g n)
qed

subsection \<open>The run loop\<close>

lemma continueExecution_exit:
  "loopExit ops perf d = Some r \<Longrightarrow> continueExecution ops perf d = Some r"
  by (subst continueExecution.simps) (auto simp: loopExit_def split: if_splits)

lemma continueExecution_step:
  "loopExit ops perf d = None \<Longrightarrow>
   continueExecution ops perf d = continueExecution ops perf (runStep ops perf d)"
  by (subst continueExecution.simps) (auto simp: loopExit_def runStep_def split: if_splits)

lemma runStep_count:
  "executionCount (runStep ops perf d) = map_option Suc (executionCount d) \<and>
   maxInstructions (runStep ops perf d) = maxInstructions d"
  using stepInstruction_keeps[of d ops perf]
  by (simp add: runStep_def countUp_def hookKeeps_def)

lemma runStep_flags: "flagsOk (runStep ops perf d)"
  using stepInstruction_flags[of ops perf d]
  by (simp add: runStep_def countUp_def flagsOk_def)

lemma loopExit_stopped:
  "flagsOk d \<Longrightarrow> loopExit ops perf d = Some r \<Longrightarrow> \<not> isRunning r"
  by (auto simp: loopExit_def flagsOk_def stopExecution_def say_def log_def split: if_splits)

lemma loopExit_count:
  "loopExit ops perf d = Some r \<Longrightarrow> executionCount r = executionCount d"
  by (auto simp: loopExit_def stopExecution_def say_def log_def split: if_splits)

lemma loopExit_limit:
  "executionCount d = Some c \<Longrightarrow> maxInstructions d = Some m \<Longrightarrow> m \<le> c \<Longrightarrow>
   \<exists>r. loopExit ops perf d = Some r"
  by (simp add: loopExit_def limitReached_def)

text \<open>The loop from a state whose counter is \<open>c\<close> and whose ceiling is \<open>m\<close>: it returns,
  after \<open>n\<close> steps with \<open>c + n \<le> m\<close>. Induction on the distance to the ceiling.\<close>

lemma continueExecution_bounded:
  assumes "maxInstructions d = Some m" "executionCount d = Some c" "c \<le> m" "flagsOk d"
  shows "\<exists>n r. c + n \<le> m \<and> continueExecution ops perf d = Some r
           \<and> loopExit ops perf ((runStep ops perf ^^ n) d) = Some r
           \<and> (\<forall>k<n. loopExit ops perf ((runStep ops perf ^^ k) d) = None)
           \<and> executionCount r = Some (c + n) \<and> \<not> isRunning r"
  using assms
proof (induction "m - c" arbitrary: c d)
  case 0
  then obtain r where r: "loopExit ops perf d = Some r"
    using loopExit_limit[of d c m ops perf] by auto
  show ?case
    apply (rule exI[of _ 0], rule exI[of _ r])
    using r 0 continueExecution_exit[OF r] loopExit_stopped[OF _ r] loopExit_count[OF r]
    by simp
next
  case (Suc k)
  show ?case
  proof (cases "loopExit ops perf d")
    case (Some r)
    show ?thesis
      apply (rule exI[of _ 0], rule exI[of _ r])
      using Some Suc.prems continueExecution_exit[OF Some] loopExit_stopped[OF _ Some]
        loopExit_count[OF Some]
      by simp
  next
    case None
    let ?d = "runStep ops perf d"
    have "k = m - Suc c" using Suc.hyps by simp
    moreover have "maxInstructions ?d = Some m" "executionCount ?d = Some (Suc c)"
      using runStep_count[of ops perf d] Suc.prems by simp_all
    moreover have "Suc c \<le> m" using Suc.hyps by simp
    moreover have "flagsOk ?d" by (rule runStep_flags)
    ultimately obtain n r where nr: "Suc c + n \<le> m" "continueExecution ops perf ?d = Some r"
      "loopExit ops perf ((runStep ops perf ^^ n) ?d) = Some r"
      "\<forall>k<n. loopExit ops perf ((runStep ops perf ^^ k) ?d) = None"
      "executionCount r = Some (Suc c + n)" "\<not> isRunning r"
      using Suc.hyps(1)[of "Suc c" ?d] by blast
    have all: "\<forall>j<Suc n. loopExit ops perf ((runStep ops perf ^^ j) d) = None"
    proof (intro allI impI)
      fix j assume "j < Suc n"
      show "loopExit ops perf ((runStep ops perf ^^ j) d) = None"
      proof (cases j)
        case 0 then show ?thesis using None by simp
      next
        case (Suc i)
        then have "i < n" using \<open>j < Suc n\<close> by simp
        then show ?thesis using nr(4) Suc by (simp add: funpow_swap1)
      qed
    qed
    show ?thesis
      apply (rule exI[of _ "Suc n"], rule exI[of _ r])
      using nr all continueExecution_step[OF None]
      by (simp add: funpow_swap1)
  qed
qed

text \<open>
  Claim C2. Every call of \<^verbatim>\<open>runUntilHalt\<close> returns, and the run loop it starts executes
  \<open>n \<le> 10000\<close> single-instruction steps: the loop's check lets the first \<open>n\<close> iterations
  step (\<open>loopExit\<close> is \<open>None\<close> there) and stops at the next one, where the counter is \<open>n\<close>
  and the debugger is no longer running. Before each step the check compares the counter
  with the ceiling 10000 (limit-reached message), then looks for the halt opcode at the
  program counter (halt message); see \<open>loopExit\<close>. No assumption is made on the engine, so
  this holds for code that never reaches a halt opcode. A call made while a run is active
  returns at once without stepping.
\<close>

theorem runUntilHalt_terminates_within_limit:
  "\<exists>n r. n \<le> 10000 \<and> runUntilHalt ops perf d = Some r \<and>
     (if isRunning d then n = 0 \<and> r = log LogAlreadyRunning d
      else loopExit ops perf ((runStep ops perf ^^ n) (startRun perf d)) = Some r
         \<and> (\<forall>k<n. loopExit ops perf ((runStep ops perf ^^ k) (startRun perf d)) = None)
         \<and> executionCount r = Some n \<and> \<not> isRunning r)"
proof (cases "isRunning d")
  case True
  then show ?thesis by (simp add: runUntilHalt_def)
next
  case False
  have s: "maxInstructions (startRun perf d) = Some 10000"
    "executionCount (startRun perf d) = Some 0" "flagsOk (startRun perf d)"
    by (simp_all add: startRun_def say_def log_def flagsOk_def)
  obtain n r where "0 + n \<le> 10000" "continueExecution ops perf (startRun perf d) = Some r"
    "loopExit ops perf ((runStep ops perf ^^ n) (startRun perf d)) = Some r"
    "\<forall>k<n. loopExit ops perf ((runStep ops perf ^^ k) (startRun perf d)) = None"
    "executionCount r = Some (0 + n)" "\<not> isRunning r"
    using continueExecution_bounded[OF s(1) s(2) _ s(3), of ops perf] by auto
  moreover have "runUntilHalt ops perf d = continueExecution ops perf (startRun perf d)"
    using False by (simp add: runUntilHalt_def startRun_def)
  ultimately show ?thesis using False by auto
qed

lemma dbg0_not_running: "\<not> isRunning dbg0"
  by (simp add: dbg0_def addBreakpoint_def newDebugger_def log_def)

theorem runUntilHalt_terminates_within_limit_witness:
  "\<exists>n r. n \<le> 10000 \<and> runUntilHalt cpuOps False dbg0 = Some r \<and>
     executionCount r = Some n \<and> \<not> isRunning r"
  using runUntilHalt_terminates_within_limit[of cpuOps False dbg0] dbg0_not_running
  by auto

subsection \<open>Breakpoints are never removed\<close>

lemma loopExit_keeps: "loopExit ops perf d = Some r \<Longrightarrow> hookKeeps d r"
  by (auto simp: loopExit_def hookKeeps_def stopExecution_def say_def log_def split: if_splits)

lemma runStep_keeps_breakpoints: "breakpoints (runStep ops perf d) = breakpoints d"
  using stepInstruction_keeps[of d ops perf]
  by (simp add: runStep_def countUp_def hookKeeps_def)

lemma funpow_runStep_breakpoints: "breakpoints ((runStep ops perf ^^ n) d) = breakpoints d"
  by (induction n) (simp_all add: runStep_keeps_breakpoints)

text \<open>The timer callback from any state: when it returns, it has not touched the
  breakpoints. Induction over the calls that return, since nothing bounds the recursion
  in general.\<close>

lemma continueExecution_breakpoints:
  assumes "continueExecution ops perf d = Some r"
  shows "breakpoints r = breakpoints d"
proof (rule continueExecution.raw_induct
    [where P = "\<lambda>ops perf d r. breakpoints r = breakpoints d", OF _ assms], goal_cases)
  case (1 f ops perf d r)
  show ?case
  proof (cases "loopExit ops perf d")
    case (Some x)
    then have "x = r" using 1(2) by (auto simp: loopExit_def split: if_splits)
    then show ?thesis using loopExit_keeps[OF Some] by (simp add: hookKeeps_def)
  next
    case None
    then have "f ops perf (countUp (stepInstruction ops perf d)) = Some r"
      using 1(2) by (auto simp: loopExit_def split: if_splits)
    then have "breakpoints r = breakpoints (countUp (stepInstruction ops perf d))"
      by (rule 1(1))
    then show ?thesis
      using runStep_keeps_breakpoints[of ops perf d] by (simp add: runStep_def)
  qed
qed

lemma runUntilHalt_breakpoints:
  assumes "runUntilHalt ops perf d = Some r"
  shows "breakpoints r = breakpoints d"
proof (cases "isRunning d")
  case True
  then show ?thesis using assms by (auto simp: runUntilHalt_def log_def)
next
  case False
  then have "continueExecution ops perf (startRun perf d) = Some r"
    using assms by (simp add: runUntilHalt_def startRun_def)
  then have "breakpoints r = breakpoints (startRun perf d)"
    by (rule continueExecution_breakpoints)
  then show ?thesis by (simp add: startRun_def say_def log_def)
qed

lemma methodCall_breakpoints: "methodCall ops d d' \<Longrightarrow> breakpoints d \<subseteq> breakpoints d'"
proof (induction rule: methodCall.induct)
  case (callStep d perf)
  show ?case using stepInstruction_keeps[of d ops perf] by (simp add: hookKeeps_def)
next
  case (callRun perf d d')
  then show ?case using runUntilHalt_breakpoints by fastforce
next
  case (callTimer perf d d')
  then show ?case using continueExecution_breakpoints by fastforce
next
  case (callStop d perf)
  show ?case by (simp add: stopExecution_def say_def log_def)
next
  case (callReset d perf)
  show ?case by (simp add: reset_def Let_def)
next
  case (callAddBreakpoint d a)
  show ?case by (auto simp: addBreakpoint_def log_def)
next
  case (callHook d perf a)
  show ?case using hook_keeps[of d ops perf a] by (simp add: hookKeeps_def)
qed

lemma methodCalls_breakpoints:
  "(methodCall ops)\<^sup>*\<^sup>* d d' \<Longrightarrow> breakpoints d \<subseteq> breakpoints d'"
  by (induction rule: rtranclp_induct) (auto dest: methodCall_breakpoints)

text \<open>
  Claim C10. \<^verbatim>\<open>reset\<close> writes the original entry address to the program counter register
  and to \<^verbatim>\<open>currentAddress\<close>, empties the execution trace, sets the instruction counter to
  0, clears the last-logged-address marker and both flags, and leaves the breakpoint set as
  it was. No sequence of calls on an existing debugger (step, run, timer callback, stop,
  reset, add breakpoint, hook) ever removes a breakpoint; only the constructor starts from
  the empty set.
\<close>

theorem reset_keeps_breakpoints:
  "engine (reset ops perf d) = reg_write ops (engine d) (pcReg (is64bit d)) (entryPoint d) \<and>
   currentAddress (reset ops perf d) = entryPoint d \<and>
   entryPoint (reset ops perf d) = entryPoint d \<and>
   executionTrace (reset ops perf d) = [] \<and>
   executionCount (reset ops perf d) = Some 0 \<and>
   lastLoggedAddress (reset ops perf d) = None \<and>
   \<not> isRunning (reset ops perf d) \<and> \<not> isPaused (reset ops perf d) \<and>
   breakpoints (reset ops perf d) = breakpoints d \<and>
   (\<forall>d'. (methodCall ops)\<^sup>*\<^sup>* d d' \<longrightarrow> breakpoints d \<subseteq> breakpoints d') \<and>
   breakpoints (newDebugger ops e b entry) = {}"
  using methodCalls_breakpoints[of ops d]
  by (simp add: reset_def Let_def newDebugger_def)

theorem reset_keeps_breakpoints_witness:
  "0x10112000 \<in> breakpoints dbg0 \<and>
   0x10112000 \<in> breakpoints (stepInstruction cpuOps False (reset cpuOps False dbg0)) \<and>
   executionCount (reset cpuOps False dbg0) = Some 0 \<and>
   regs (engine (reset cpuOps False dbg0)) X86_REG_RIP = 0x10000000"
proof -
  have b: "0x10112000 \<in> breakpoints dbg0"
    by (simp add: dbg0_def addBreakpoint_def log_def)
  have "(methodCall cpuOps)\<^sup>*\<^sup>* dbg0 (stepInstruction cpuOps False (reset cpuOps False dbg0))"
    by (meson callReset callStep rtranclp.rtrancl_into_rtrancl rtranclp.rtrancl_refl)
  then have "breakpoints dbg0 \<subseteq> breakpoints (stepInstruction cpuOps False (reset cpuOps False dbg0))"
    using reset_keeps_breakpoints[of cpuOps False dbg0] by blast
  moreover have "regs (engine (reset cpuOps False dbg0)) X86_REG_RIP = 0x10000000"
    using reset_keeps_breakpoints[of cpuOps False dbg0]
    by (simp add: cpuOps_def dbg0_def addBreakpoint_def log_def newDebugger_def pcReg_def)
  ultimately show ?thesis
    using b reset_keeps_breakpoints[of cpuOps False dbg0] by auto
qed

subsection \<open>The hook at a breakpoint\<close>

lemma hook_at_breakpoint_flags:
  "a \<in> breakpoints d \<Longrightarrow> halted (hook ops perf d a)"
  using logToExecutionTrace_flags[of ops "d\<lparr>currentAddress := a\<rparr>" a]
    logToExecutionTrace_keeps[of "d\<lparr>currentAddress := a\<rparr>" ops a]
  by (auto simp add: halted_def hook_def Let_def say_def log_def hookKeeps_def
      split: sum.splits list.splits)

lemma hook_halted: "halted d \<Longrightarrow> halted (hook ops perf d a)"
  using logToExecutionTrace_flags[of ops "d\<lparr>currentAddress := a\<rparr>" a]
  by (auto simp add: halted_def hook_def Let_def say_def log_def split: sum.splits list.splits)

lemma foldl_hook_halted: "halted d \<Longrightarrow> halted (foldl (hook ops perf) d as)"
  by (induction as arbitrary: d) (auto intro: hook_halted)

lemma foldl_hook_breakpoint:
  "a \<in> set as \<Longrightarrow> a \<in> breakpoints d \<Longrightarrow> halted (foldl (hook ops perf) d as)"
proof (induction as arbitrary: d)
  case Nil
  then show ?case by simp
next
  case (Cons x xs)
  show ?case
  proof (cases "x = a")
    case True
    then show ?thesis
      using Cons.prems hook_at_breakpoint_flags[of a d ops perf] foldl_hook_halted
      by fastforce
  next
    case False
    then have "a \<in> set xs" using Cons.prems by simp
    moreover have "a \<in> breakpoints (hook ops perf d x)"
      using hook_keeps[of d ops perf x] Cons.prems by (simp add: hookKeeps_def)
    ultimately show ?thesis using Cons.IH by simp
  qed
qed

lemma stepCatch_halted: "halted (stepCatch ops perf err d)"
  by (simp add: halted_def stepCatch_def Let_def say_def log_def)

lemma emulateOne_cong:
  "engine d' = engine d \<Longrightarrow> breakpoints d' = breakpoints d \<Longrightarrow>
   emulateOne ops d' = emulateOne ops d"
  by (intro ext) (simp add: emulateOne_def hookReturn_def)

text \<open>A step during which the hook fires at a breakpoint leaves the debugger halted,
  whether the engine then reports an error or not.\<close>

lemma stepInstruction_breakpoint_halts:
  assumes m: "mem_read ops (engine d) (getCurrentPC ops d) 16 = Inr bs"
    and i: "disasm ops bs (getCurrentPC ops d) = Inr (i # is)"
    and f: "a \<in> set (fst (emulateOne ops d (getCurrentPC ops d) i))"
    and b: "a \<in> breakpoints d"
  shows "halted (stepInstruction ops perf d)"
proof -
  let ?pc = "getCurrentPC ops d"
  let ?d1 = "log (LogExecuting ?pc) (d\<lparr>isPaused := False\<rparr>)"
  let ?r = "emulateOne ops ?d1 ?pc i"
  let ?d2 = "(foldl (hook ops perf) ?d1 (fst ?r))\<lparr>engine := snd (snd ?r)\<rparr>"
  have pc: "getCurrentPC ops (d\<lparr>isPaused := False\<rparr>) = ?pc"
    by (simp add: getCurrentPC_def)
  have r: "?r = emulateOne ops d ?pc i"
    by (rule fun_cong[OF fun_cong[OF emulateOne_cong]]) (simp_all add: log_def)
  have "halted (foldl (hook ops perf) ?d1 (fst ?r))"
    by (rule foldl_hook_breakpoint[of a]) (use f b r in \<open>simp_all add: log_def\<close>)
  then have h2: "halted ?d2" by (simp add: halted_def)
  have "halted ((logExecutedInstruction ops (?d2\<lparr>currentAddress := getCurrentPC ops ?d2\<rparr>))
                  \<lparr>lastLoggedAddress := None\<rparr>)"
    using h2 by (simp add: halted_def logExecutedInstruction_flags)
  then show ?thesis
    using m i pc
    by (simp add: stepInstruction_def Let_def stepCatch_halted split: option.splits)
qed

lemma continueExecution_halted:
  "halted d \<Longrightarrow> continueExecution ops perf d = Some d"
  by (subst continueExecution.simps) (simp add: halted_def)

lemma hook_at_breakpoint_report:
  assumes "a \<in> breakpoints d"
  shows "consoleLog (hook ops perf d a) =
           consoleLog d @ LogBreakpointHit a # (if haltByteAt ops d a then [LogProgramCompleted] else [])"
    and "emuOutput (hook ops perf d a) =
           emuOutput d @ (if haltByteAt ops d a \<and> \<not> perf then [ProgramCompleted] else [])"
  using assms logToExecutionTrace_flags[of ops "d\<lparr>currentAddress := a\<rparr>" a]
    logToExecutionTrace_keeps[of "d\<lparr>currentAddress := a\<rparr>" ops a]
  by (auto simp add: hook_def Let_def say_def log_def hookKeeps_def haltByteAt_def
      split: sum.splits list.splits)

text \<open>
  Claim C7. When the hook fires at an address of the breakpoint set it answers
  \<^verbatim>\<open>false\<close> to the engine (the stop signal) and leaves the controller paused and not
  running, so the run loop's next call returns without stepping; this also holds for the
  whole step during which the hook fired. The console always gets the breakpoint line; when
  the byte at the address is the halt opcode F4 the hook reports program completion as well,
  on the console and (outside performance mode) in the output pane, and otherwise adds
  nothing to the pane. A run that arrives at such an address while it holds \<open>hlt\<close> does
  not get as far as the hook: the loop's own check stops it there with the halt message,
  which is the completion reason of a run.
\<close>

theorem hook_breakpoint_stops_run:
  assumes "a \<in> breakpoints d"
  shows "hookReturn d a = ReturnsFalse \<and>
     \<not> isRunning (hook ops perf d a) \<and> isPaused (hook ops perf d a) \<and>
     continueExecution ops perf (hook ops perf d a) = Some (hook ops perf d a) \<and>
     consoleLog (hook ops perf d a) =
       consoleLog d @ LogBreakpointHit a # (if haltByteAt ops d a then [LogProgramCompleted] else []) \<and>
     emuOutput (hook ops perf d a) =
       emuOutput d @ (if haltByteAt ops d a \<and> \<not> perf then [ProgramCompleted] else []) \<and>
     (\<forall>bs i is.
        mem_read ops (engine d) (getCurrentPC ops d) 16 = Inr bs \<longrightarrow>
        disasm ops bs (getCurrentPC ops d) = Inr (i # is) \<longrightarrow>
        a \<in> set (fst (emulateOne ops d (getCurrentPC ops d) i)) \<longrightarrow>
        \<not> isRunning (stepInstruction ops perf d) \<and> isPaused (stepInstruction ops perf d) \<and>
        continueExecution ops perf (countUp (stepInstruction ops perf d)) =
          Some (countUp (stepInstruction ops perf d))) \<and>
     (isRunning d \<and> \<not> isPaused d \<and> \<not> limitReached d \<and>
      getCurrentPC ops d = a \<and> isHaltInstruction ops d a \<longrightarrow>
        continueExecution ops perf d =
          Some (stopExecution perf (say perf HltReached (log LogHltEncountered d))))"
proof -
  have h: "halted (hook ops perf d a)"
    using assms by (rule hook_at_breakpoint_flags)
  have s: "halted (countUp (stepInstruction ops perf d))"
    if "mem_read ops (engine d) (getCurrentPC ops d) 16 = Inr bs"
      "disasm ops bs (getCurrentPC ops d) = Inr (i # is)"
      "a \<in> set (fst (emulateOne ops d (getCurrentPC ops d) i))" for bs i "is"
    using stepInstruction_breakpoint_halts[OF that assms, of perf]
    by (simp add: halted_def countUp_def)
  have r: "continueExecution ops perf d =
             Some (stopExecution perf (say perf HltReached (log LogHltEncountered d)))"
    if "isRunning d" "\<not> isPaused d" "\<not> limitReached d" "getCurrentPC ops d = a"
      "isHaltInstruction ops d a"
    by (rule continueExecution_exit) (use that in \<open>simp add: loopExit_def\<close>)
  show ?thesis
    using assms h hook_at_breakpoint_report[OF assms, of ops perf]
      continueExecution_halted[OF h, of ops perf]
    apply (simp add: hookReturn_def)
    apply (intro conjI allI impI)
    using s continueExecution_halted r
    by (fastforce simp: halted_def countUp_def)+
qed

subsection \<open>A step that the engine refuses\<close>

lemma stepInstruction_emu_error:
  assumes m: "mem_read ops (engine d) (getCurrentPC ops d) 16 = Inr bs"
    and i: "disasm ops bs (getCurrentPC ops d) = Inr (i # is)"
    and e: "fst (snd (emulateOne ops d (getCurrentPC ops d) i)) = Some err"
  shows "stepInstruction ops perf d =
           stepCatch ops perf err
             ((foldl (hook ops perf)
                 (log (LogExecuting (getCurrentPC ops d)) (d\<lparr>isPaused := False\<rparr>))
                 (fst (emulateOne ops d (getCurrentPC ops d) i)))
              \<lparr>engine := snd (snd (emulateOne ops d (getCurrentPC ops d) i))\<rparr>)"
proof -
  let ?pc = "getCurrentPC ops d"
  let ?d1 = "log (LogExecuting ?pc) (d\<lparr>isPaused := False\<rparr>)"
  have pc: "getCurrentPC ops (d\<lparr>isPaused := False\<rparr>) = ?pc"
    by (simp add: getCurrentPC_def)
  have r: "emulateOne ops ?d1 ?pc i = emulateOne ops d ?pc i"
    by (rule fun_cong[OF fun_cong[OF emulateOne_cong]]) (simp_all add: log_def)
  show ?thesis
    using m i e pc r by (simp add: stepInstruction_def Let_def)
qed

lemma stepCatch_report:
  assumes "err = UC_ERR_INSN_INVALID \<or> err = UC_ERR_FETCH_UNMAPPED"
  shows "engine (stepCatch ops perf err d) = engine d"
    and "isPaused (stepCatch ops perf err d)"
    and "\<not> isRunning (stepCatch ops perf err d)"
    and "\<not> perf \<Longrightarrow> emuOutput (stepCatch ops perf err d) =
           emuOutput d @
             [if err = UC_ERR_INSN_INVALID then InvalidInstructionAt (getCurrentPC ops d)
              else UnmappedFetchAt (getCurrentPC ops d),
              ProgramFinished (reg_read ops (engine d) (accReg (is64bit d)))]"
    and "perf \<Longrightarrow> emuOutput (stepCatch ops perf err d) = emuOutput d"
  using assms
  by (auto simp add: stepCatch_def Let_def say_def log_def getCurrentPC_def)

text \<open>
  Claim C8, as the code has it. When the engine throws an invalid-instruction or
  unmapped-fetch error during a step, the controller ends up paused and not running, the
  run loop's next call returns without stepping, and (outside performance mode) the output
  pane ends with the line naming the program counter the engine stopped at, followed by the
  line with the accumulator register's value. Nothing in the controller asks for a reset
  afterwards: \<^verbatim>\<open>stepInstruction\<close> clears the paused flag itself and tries again, and
  \<^verbatim>\<open>runUntilHalt\<close> starts a new run.
\<close>

theorem step_error_halts:
  assumes m: "mem_read ops (engine d) (getCurrentPC ops d) 16 = Inr bs"
    and i: "disasm ops bs (getCurrentPC ops d) = Inr (i # is)"
    and e: "fst (snd (emulateOne ops d (getCurrentPC ops d) i)) = Some err"
    and k: "err = UC_ERR_INSN_INVALID \<or> err = UC_ERR_FETCH_UNMAPPED"
  shows "(let d' = stepInstruction ops perf d;
              e' = snd (snd (emulateOne ops d (getCurrentPC ops d) i));
              pc' = reg_read ops e' (pcReg (is64bit d));
              acc' = reg_read ops e' (accReg (is64bit d))
          in engine d' = e' \<and> isPaused d' \<and> \<not> isRunning d' \<and>
             continueExecution ops perf (countUp d') = Some (countUp d') \<and>
             (perf \<or> (\<exists>pre. emuOutput d' =
                pre @ [if err = UC_ERR_INSN_INVALID then InvalidInstructionAt pc'
                       else UnmappedFetchAt pc',
                       ProgramFinished acc'])) \<and>
             stepInstruction ops perf d' = stepInstruction ops perf (d'\<lparr>isPaused := False\<rparr>) \<and>
             runUntilHalt ops perf d' = continueExecution ops perf (startRun perf d'))"
proof -
  let ?pc = "getCurrentPC ops d"
  let ?r = "emulateOne ops d ?pc i"
  let ?d2 = "(foldl (hook ops perf) (log (LogExecuting ?pc) (d\<lparr>isPaused := False\<rparr>)) (fst ?r))
               \<lparr>engine := snd (snd ?r)\<rparr>"
  let ?d' = "stepInstruction ops perf d"
  have s: "?d' = stepCatch ops perf err ?d2"
    using stepInstruction_emu_error[OF m i e] .
  have b: "is64bit ?d2 = is64bit d"
    using foldl_hook_keeps[of "log (LogExecuting ?pc) (d\<lparr>isPaused := False\<rparr>)" ops perf "fst ?r"]
    by (simp add: hookKeeps_def log_def)
  have pc2: "getCurrentPC ops ?d2 = reg_read ops (snd (snd ?r)) (pcReg (is64bit d))"
    using b by (simp add: getCurrentPC_def)
  have h: "halted (countUp ?d')"
    using stepCatch_report(2,3)[OF k, of ops perf ?d2] s by (simp add: halted_def countUp_def)
  have o: "perf \<or> (\<exists>pre. emuOutput ?d' =
             pre @ [if err = UC_ERR_INSN_INVALID
                    then InvalidInstructionAt (reg_read ops (snd (snd ?r)) (pcReg (is64bit d)))
                    else UnmappedFetchAt (reg_read ops (snd (snd ?r)) (pcReg (is64bit d))),
                    ProgramFinished (reg_read ops (snd (snd ?r)) (accReg (is64bit d)))])"
  proof (cases perf)
    case True
    then show ?thesis by simp
  next
    case False
    have "emuOutput ?d' = emuOutput ?d2 @
           [if err = UC_ERR_INSN_INVALID then InvalidInstructionAt (getCurrentPC ops ?d2)
            else UnmappedFetchAt (getCurrentPC ops ?d2),
            ProgramFinished (reg_read ops (engine ?d2) (accReg (is64bit ?d2)))]"
      using stepCatch_report(4)[OF k False, of ops ?d2] s by simp
    then show ?thesis using pc2 b by auto
  qed
  have n: "stepInstruction ops perf ?d' = stepInstruction ops perf (?d'\<lparr>isPaused := False\<rparr>)"
    by (simp add: stepInstruction_def)
  have u: "runUntilHalt ops perf ?d' = continueExecution ops perf (startRun perf ?d')"
    using stepCatch_report(3)[OF k, of ops perf ?d2] s
    by (simp add: runUntilHalt_def startRun_def)
  show ?thesis
    unfolding Let_def
    using stepCatch_report(1,2,3)[OF k, of ops perf ?d2] s continueExecution_halted[OF h] o n u
    by simp
qed

subsection \<open>Running the reference engine\<close>

lemma cpu0_text: "cpu_mem_read cpu0 0x10000000 16 = Inr ([0x90, 0xC3] @ [0, 0, 0, 0, 0, 0, 0, 0, 0, 0, 0, 0, 0, 0])"
  by (simp add: cpu_mem_read_def cpu0_def memOf_def upt_rec nth_Cons' nth_append)

lemma cpu0_text1: "cpu_mem_read cpu0 0x10000001 16 = Inr (0xC3 # [0, 0, 0, 0, 0, 0, 0, 0, 0, 0, 0, 0, 0, 0, 0])"
  by (simp add: cpu_mem_read_def cpu0_def memOf_def upt_rec nth_Cons' nth_append)

lemma cpu0_exit: "cpu_mem_read cpu0 0x10112000 16 = Inr (0xF4 # [0, 0, 0, 0, 0, 0, 0, 0, 0, 0, 0, 0, 0, 0, 0])"
  by (simp add: cpu_mem_read_def cpu0_def memOf_def upt_rec nth_Cons' nth_append)

lemma cpu0_exit1: "cpu_mem_read cpu0 0x10112000 (Suc 0) = Inr [0xF4]"
  by (simp add: cpu_mem_read_def cpu0_def memOf_def upt_rec nth_Cons' nth_append)

lemma cpu0_stack: "cpu_mem_read cpu0 0x10110000 8 = Inr [0x00, 0x20, 0x11, 0x10, 0, 0, 0, 0]"
  by (simp add: cpu_mem_read_def cpu0_def memOf_def upt_rec nth_Cons' nth_append)

lemma cpu_mem_read_regs: "cpu_mem_read (e\<lparr>regs := r\<rparr>) = cpu_mem_read e"
  by (intro ext) (simp add: cpu_mem_read_def)

lemma dbg0_halt_byte: "haltByteAt cpuOps dbg0 0x10112000"
  by (simp add: haltByteAt_def cpuOps_def dbg0_def addBreakpoint_def newDebugger_def log_def
      cpu_mem_read_regs cpu0_exit1)

lemma cpu_disasm_simps:
  "cpu_disasm (0x90 # bs) a = Inr [\<lparr>insn_address = a, insn_size = 1, mnemonic = ''nop'', op_str = []\<rparr>]"
  "cpu_disasm (0xC3 # bs) a = Inr [\<lparr>insn_address = a, insn_size = 1, mnemonic = ''ret'', op_str = []\<rparr>]"
  "cpu_disasm (0xF4 # bs) a = Inr [\<lparr>insn_address = a, insn_size = 1, mnemonic = ''hlt'', op_str = []\<rparr>]"
  "cpu_disasm (0x0F # 0x0B # bs) a = Inr [\<lparr>insn_address = a, insn_size = 2, mnemonic = ''ud2'', op_str = []\<rparr>]"
  by (simp_all add: cpu_disasm_def)

lemma cpu1_text:
  "cpu_mem_read cpu1 0x10000000 16 = Inr [0x0F, 0x0B, 0, 0, 0, 0, 0, 0, 0, 0, 0, 0, 0, 0, 0, 0]"
  by (simp add: cpu_mem_read_def cpu1_def memOf_def upt_rec nth_Cons' nth_append)

lemma cpu1_mem: "mem cpu1 0x10000000 = Some 0x0F"
  by (simp add: cpu1_def memOf_def)

lemma cpu1_regs: "regs cpu1 r = (if r = X86_REG_RSP then 0x10110000 else 0)"
  by (simp add: cpu1_def)

lemma dbg1_step: "stepInstruction cpuOps False dbg1 = dbg1a"
  by (simp add: dbg1a_def dbg1_def newDebugger_def
      log_def say_def getCurrentPC_def pcReg_def accReg_def
      cpuOps_def cpu_mem_read_regs cpu1_text cpu_disasm_simps
      stepInstruction_def emulateOne_def hookReturn_def cpu_emu_start_def cpu1_mem cpu1_regs
      hook_def logToExecutionTrace_def stepCatch_def Let_def)

lemma dbg1a_step:
  "consoleLog (stepInstruction cpuOps False dbg1a) =
     [LogExecuting 0x10000000, LogStepError UC_ERR_INSN_INVALID,
      LogExecuting 0x10000000, LogStepError UC_ERR_INSN_INVALID]"
  by (simp add: dbg1a_def dbg1_def newDebugger_def
      log_def say_def getCurrentPC_def pcReg_def accReg_def
      cpuOps_def cpu_mem_read_regs cpu1_text cpu_disasm_simps
      stepInstruction_def emulateOne_def hookReturn_def cpu_emu_start_def cpu1_mem cpu1_regs
      hook_def logToExecutionTrace_def stepCatch_def Let_def)

subsection \<open>The reference engine running into the halt trampoline\<close>

lemma cpu0_mem:
  "mem cpu0 0x10000000 = Some 0x90" "mem cpu0 0x10000001 = Some 0xC3"
  "mem cpu0 0x10112000 = Some 0xF4"
  by (simp_all add: cpu0_def memOf_def)

lemma cpu0_regs: "regs cpu0 r = (if r = X86_REG_RSP then 0x10110000 else 0)"
  by (simp add: cpu0_def)

lemma run0_start: "startRun False dbg0 = run0"
  by (simp add: startRun_def run0_def dbg0_def addBreakpoint_def newDebugger_def say_def log_def)

lemma run0_step: "runStep cpuOps False run0 = run1"
  by (simp add: runStep_def countUp_def run1_def run0_def dbg0_def addBreakpoint_def newDebugger_def
      log_def say_def getCurrentPC_def pcReg_def accReg_def
      cpuOps_def cpu_mem_read_regs cpu0_text cpu_disasm_simps
      stepInstruction_def emulateOne_def hookReturn_def cpu_emu_start_def cpu0_mem cpu0_regs
      hook_def logToExecutionTrace_def logExecutedInstruction_def updateExecutionTrace_def
      Let_def)

lemma run1_step: "runStep cpuOps False run1 = run2"
  by (simp add: runStep_def countUp_def run2_def run1_def run0_def dbg0_def addBreakpoint_def
      newDebugger_def log_def say_def getCurrentPC_def pcReg_def accReg_def
      cpuOps_def cpu_mem_read_regs cpu0_text1 cpu0_stack cpu_disasm_simps
      stepInstruction_def emulateOne_def hookReturn_def cpu_emu_start_def cpu0_mem cpu0_regs
      hook_def logToExecutionTrace_def logExecutedInstruction_def updateExecutionTrace_def
      Let_def fun_upd_twist)

lemma run0_goes_on: "loopExit cpuOps False run0 = None"
  by (simp add: loopExit_def limitReached_def isHaltInstruction_def toLowerCase_mnemonics run0_def dbg0_def
      addBreakpoint_def newDebugger_def log_def getCurrentPC_def pcReg_def
      cpuOps_def cpu_mem_read_regs cpu0_text cpu_disasm_simps)

lemma run1_goes_on: "loopExit cpuOps False run1 = None"
  by (simp add: loopExit_def limitReached_def isHaltInstruction_def toLowerCase_mnemonics run1_def run0_def dbg0_def
      addBreakpoint_def newDebugger_def log_def getCurrentPC_def pcReg_def
      cpuOps_def cpu_mem_read_regs cpu0_text1 cpu_disasm_simps)

lemma run2_halts:
  "loopExit cpuOps False run2 =
     Some (stopExecution False (say False HltReached (log LogHltEncountered run2)))"
  by (simp add: loopExit_def limitReached_def isHaltInstruction_def toLowerCase_mnemonics run2_def run1_def run0_def
      dbg0_def addBreakpoint_def newDebugger_def log_def getCurrentPC_def pcReg_def
      cpuOps_def cpu_mem_read_regs cpu0_exit cpu_disasm_simps)

lemma dbg0_run:
  "runUntilHalt cpuOps False dbg0 =
     Some (stopExecution False (say False HltReached (log LogHltEncountered run2)))"
proof -
  have "runUntilHalt cpuOps False dbg0 = continueExecution cpuOps False run0"
    using dbg0_not_running run0_start by (simp add: runUntilHalt_def startRun_def)
  also have "\<dots> = continueExecution cpuOps False run1"
    using continueExecution_step[OF run0_goes_on] run0_step by simp
  also have "\<dots> = continueExecution cpuOps False run2"
    using continueExecution_step[OF run1_goes_on] run1_step by simp
  also have "\<dots> = Some (stopExecution False (say False HltReached (log LogHltEncountered run2)))"
    by (rule continueExecution_exit[OF run2_halts])
  finally show ?thesis .
qed

subsection \<open>The claims on the reference engine\<close>

theorem hook_breakpoint_stops_run_witness:
  "0x10112000 \<in> breakpoints dbg0 \<and>
   hookReturn dbg0 0x10112000 = ReturnsFalse \<and>
   \<not> isRunning (hook cpuOps False dbg0 0x10112000) \<and>
   isPaused (hook cpuOps False dbg0 0x10112000) \<and>
   emuOutput (hook cpuOps False dbg0 0x10112000) = [ProgramCompleted] \<and>
   consoleLog (hook cpuOps False dbg0 0x10112000) =
     [LogBreakpointAdded 0x10112000, LogBreakpointHit 0x10112000, LogProgramCompleted] \<and>
   map_option emuOutput (runUntilHalt cpuOps False dbg0) =
     Some [TraceText
             [\<lparr>te_address = 0x10000000, te_mnemonic = ''nop'', te_operands = [], te_rax = 0\<rparr>,
              \<lparr>te_address = 0x10000001, te_mnemonic = ''ret'', te_operands = [], te_rax = 0\<rparr>],
           HltReached, ExecutionStopped (Some 2)] \<and>
   map_option consoleLog (runUntilHalt cpuOps False dbg0) =
     Some [LogBreakpointAdded 0x10112000, LogStarting, LogExecuting 0x10000000,
           LogExecuting 0x10000001, LogHltEncountered, LogExecutionStopped (Some 2)]"
proof -
  have b: "0x10112000 \<in> breakpoints dbg0"
    by (simp add: dbg0_def addBreakpoint_def log_def)
  have "emuOutput dbg0 = []" "consoleLog dbg0 = [LogBreakpointAdded 0x10112000]"
    by (simp_all add: dbg0_def addBreakpoint_def log_def newDebugger_def)
  moreover have "emuOutput (stopExecution False (say False HltReached (log LogHltEncountered run2))) =
      [TraceText
         [\<lparr>te_address = 0x10000000, te_mnemonic = ''nop'', te_operands = [], te_rax = 0\<rparr>,
          \<lparr>te_address = 0x10000001, te_mnemonic = ''ret'', te_operands = [], te_rax = 0\<rparr>],
       HltReached, ExecutionStopped (Some 2)]"
    "consoleLog (stopExecution False (say False HltReached (log LogHltEncountered run2))) =
      [LogBreakpointAdded 0x10112000, LogStarting, LogExecuting 0x10000000,
       LogExecuting 0x10000001, LogHltEncountered, LogExecutionStopped (Some 2)]"
    by (simp_all add: stopExecution_def say_def log_def run2_def)
  ultimately show ?thesis
    using b dbg0_halt_byte hook_breakpoint_stops_run[OF b, of cpuOps False] dbg0_run
    by simp
qed

text \<open>
  Claim C8 as stated fails: after the engine refused \<open>ud2\<close> with an invalid-instruction
  error the debugger is paused and not running, and a second \<^verbatim>\<open>stepInstruction\<close> with no
  reset in between is carried out all the same: the controller disassembles and hands the
  instruction to the engine again (second \<open>LogExecuting\<close> line), which refuses it again.
\<close>

theorem step_after_error_without_reset:
  "isPaused (stepInstruction cpuOps False dbg1) \<and>
   \<not> isRunning (stepInstruction cpuOps False dbg1) \<and>
   emuOutput (stepInstruction cpuOps False dbg1) =
     [InvalidInstructionAt 0x10000000, ProgramFinished 0] \<and>
   consoleLog (stepInstruction cpuOps False (stepInstruction cpuOps False dbg1)) =
     [LogExecuting 0x10000000, LogStepError UC_ERR_INSN_INVALID,
      LogExecuting 0x10000000, LogStepError UC_ERR_INSN_INVALID]"
  by (simp add: dbg1_step dbg1a_step) (simp add: dbg1a_def dbg1_def newDebugger_def)

theorem step_error_halts_witness:
  "isPaused (stepInstruction cpuOps False dbg1) \<and>
   \<not> isRunning (stepInstruction cpuOps False dbg1) \<and>
   (\<exists>pre. emuOutput (stepInstruction cpuOps False dbg1) =
      pre @ [InvalidInstructionAt 0x10000000, ProgramFinished 0])"
proof -
  have pc: "getCurrentPC cpuOps dbg1 = 0x10000000"
    by (simp add: getCurrentPC_def cpuOps_def dbg1_def newDebugger_def pcReg_def)
  have m: "mem_read cpuOps (engine dbg1) (getCurrentPC cpuOps dbg1) 16 =
             Inr [0x0F, 0x0B, 0, 0, 0, 0, 0, 0, 0, 0, 0, 0, 0, 0, 0, 0]"
    unfolding pc by (simp add: cpuOps_def dbg1_def newDebugger_def cpu_mem_read_regs cpu1_text)
  have i: "disasm cpuOps [0x0F, 0x0B, 0, 0, 0, 0, 0, 0, 0, 0, 0, 0, 0, 0, 0, 0]
             (getCurrentPC cpuOps dbg1) =
             Inr (\<lparr>insn_address = 0x10000000, insn_size = 2, mnemonic = ''ud2'', op_str = []\<rparr> # [])"
    unfolding pc by (simp add: cpuOps_def cpu_disasm_simps)
  have r: "emulateOne cpuOps dbg1 (getCurrentPC cpuOps dbg1)
             \<lparr>insn_address = 0x10000000, insn_size = 2, mnemonic = ''ud2'', op_str = []\<rparr> =
           ([0x10000000], Some UC_ERR_INSN_INVALID, engine dbg1)"
    unfolding pc
    by (simp add: emulateOne_def cpuOps_def dbg1_def newDebugger_def cpu_emu_start_def cpu1_mem
        hookReturn_def)
  have e: "fst (snd (emulateOne cpuOps dbg1 (getCurrentPC cpuOps dbg1)
             \<lparr>insn_address = 0x10000000, insn_size = 2, mnemonic = ''ud2'', op_str = []\<rparr>)) =
           Some UC_ERR_INSN_INVALID"
    by (simp add: r)
  have g: "reg_read cpuOps (engine dbg1) (pcReg (is64bit dbg1)) = 0x10000000"
    "reg_read cpuOps (engine dbg1) (accReg (is64bit dbg1)) = 0"
    by (simp_all add: cpuOps_def dbg1_def newDebugger_def pcReg_def accReg_def cpu1_regs)
  show ?thesis
    using step_error_halts[OF m i e, of False] g
    by (simp add: Let_def r)
qed

section \<open>Proofs: the ELF reader\<close>

lemma unat_magic_bytes:
  "unat (b :: byte) = 0x7F \<longleftrightarrow> b = 0x7F"
  "unat (b :: byte) = 0x45 \<longleftrightarrow> b = 0x45"
  "unat (b :: byte) = 0x4C \<longleftrightarrow> b = 0x4C"
  "unat (b :: byte) = 0x46 \<longleftrightarrow> b = 0x46"
  by (simp_all add: word_unat_eq_iff)

lemma unat_byte_one: "unat (b :: byte) = Suc 0 \<longleftrightarrow> b = 1"
  by (metis One_nat_def unat_1 word_unat_eq_iff)

lemma magicSome_step:
  "magicSome v ((i, x) # rest) =
     (if length v \<le> i then Inl RangeError
      else if unat (v ! i) \<noteq> x then Inr True else magicSome v rest)"
  by (simp add: getUint8_def)

lemma magicSome_elfMagic:
  "magicSome v elfMagic =
     (if length v \<le> 0 then Inl RangeError
      else if v ! 0 \<noteq> 0x7F then Inr True
      else if length v \<le> 1 then Inl RangeError
      else if v ! 1 \<noteq> 0x45 then Inr True
      else if length v \<le> 2 then Inl RangeError
      else if v ! 2 \<noteq> 0x4C then Inr True
      else if length v \<le> 3 then Inl RangeError
      else if v ! 3 \<noteq> 0x46 then Inr True
      else Inr False)"
  unfolding elfMagic_def magicSome_step magicSome.simps
  by (simp add: unat_magic_bytes)

lemma take4_eq:
  "take 4 v = [a, b, c, d] \<longleftrightarrow> 4 \<le> length v \<and> v ! 0 = a \<and> v ! 1 = b \<and> v ! 2 = c \<and> v ! 3 = d"
proof
  assume t: "take 4 v = [a, b, c, d]"
  then have l: "4 \<le> length v"
    by (metis length_take min.cobounded1 length_Cons list.size(3) numeral_eq_Suc pred_numeral_simps
        numeral_One One_nat_def Suc_eq_plus1 add_2_eq_Suc' numeral_2_eq_2 min_def
        Suc_numeral add_One_commute semiring_norm(2,8) le_refl)
  have "\<And>i. i < 4 \<Longrightarrow> v ! i = [a, b, c, d] ! i"
    using t by (metis nth_take)
  from this[of 0] this[of 1] this[of 2] this[of 3] l
  show "4 \<le> length v \<and> v ! 0 = a \<and> v ! 1 = b \<and> v ! 2 = c \<and> v ! 3 = d"
    by simp
next
  assume "4 \<le> length v \<and> v ! 0 = a \<and> v ! 1 = b \<and> v ! 2 = c \<and> v ! 3 = d"
  then show "take 4 v = [a, b, c, d]"
    by (auto simp: list_eq_iff_nth_eq nth_Cons' less_Suc_eq numeral_eq_Suc)
qed

lemma parseELF_bad_magic:
  assumes "take 4 buf \<noteq> [0x7F, 0x45, 0x4C, 0x46]"
  shows "parseELF buf = Inl NotAnELF \<or> parseELF buf = Inl RangeError"
    and "4 \<le> length buf \<Longrightarrow> parseELF buf = Inl NotAnELF"
  using assms
  by (auto simp: parseELF_def magicSome_elfMagic take4_eq)

lemma parseELF_good_magic:
  assumes "take 4 buf = [0x7F, 0x45, 0x4C, 0x46]"
  shows "magicSome buf elfMagic = Inr False"
  using assms by (auto simp: magicSome_elfMagic take4_eq)

lemma parseELF_Inr_magic:
  assumes "parseELF buf = Inr img"
  shows "take 4 buf = [0x7F, 0x45, 0x4C, 0x46]"
proof (rule ccontr)
  assume "take 4 buf \<noteq> [0x7F, 0x45, 0x4C, 0x46]"
  then show False using parseELF_bad_magic(1)[of buf] assms by auto
qed

lemma readHeader_class:
  "readHeader v is32 le = Some eh \<Longrightarrow>
   e_class eh = (if is32 then ELF32 else ELF64) \<and>
   e_data eh = (if le then LittleEndian else BigEndian)"
  by (auto simp: readHeader_def Let_def bind_eq_Some_conv)

lemma readTables_class:
  assumes "readTables buf = Some (eh, ph, sh)"
  shows "5 < length buf"
    and "e_class eh = (if buf ! 4 = 1 then ELF32 else ELF64)"
    and "e_data eh = (if buf ! 5 = 1 then LittleEndian else BigEndian)"
    and "readHeader buf (buf ! 4 = 1) (buf ! 5 = 1) = Some eh"
  using assms readHeader_class[of buf "buf ! 4 = 1" "buf ! 5 = 1" eh]
  by (auto simp: readTables_def bind_eq_Some_conv getUint8_def unat_byte_one split: if_splits)

lemma readHeader_length:
  "readHeader v is32 le = Some eh \<Longrightarrow> (if is32 then 52 else 64) \<le> length v"
  by (auto simp: readHeader_def Let_def bind_eq_Some_conv readUint_def toNumber_small getUint16_def readBytes_def
      split: if_splits)

lemma readTables_no_tables:
  assumes "readHeader buf (buf ! 4 = 1) (buf ! 5 = 1) = Some eh" "e_phnum eh = 0" "e_shnum eh = 0"
  shows "readTables buf = Some (eh, [], [])"
proof -
  have "52 \<le> length buf" using readHeader_length[OF assms(1)] by (simp split: if_splits)
  then show ?thesis
    using assms by (simp add: readTables_def getUint8_def unat_byte_one)
qed

text \<open>
  Claim C3, as the code has it. A buffer whose first four bytes are not the ELF signature
  never yields an image: the parser throws \<^verbatim>\<open>Not an ELF file\<close> at the first byte that
  differs, or a range error when the buffer ends before that byte (always the former when
  four bytes are there), and the global the section mapping reads keeps its old value. A
  buffer that starts with the signature is never rejected as bad magic; the parser reads
  the class from byte 4 and the encoding from byte 5, and it produces an image exactly when
  the header, the two tables and the section names can be read from the buffer; then the
  image carries that class and encoding over the same bytes. In particular a readable
  header that declares no tables gives an image with empty tables. When a read leaves the
  buffer the parse aborts with a range error (a type error when the section-name table
  index points outside a non-empty section table).
\<close>

theorem parseELF_magic_gate:
  "(take 4 buf \<noteq> [0x7F, 0x45, 0x4C, 0x46] \<longrightarrow>
      (parseELF buf = Inl NotAnELF \<or> parseELF buf = Inl RangeError) \<and>
      (4 \<le> length buf \<longrightarrow> parseELF buf = Inl NotAnELF) \<and>
      loadBuffer buf parsed = parsed) \<and>
   (take 4 buf = [0x7F, 0x45, 0x4C, 0x46] \<longrightarrow>
      parseELF buf \<noteq> Inl NotAnELF \<and>
      (parseELF buf = Inr img \<longleftrightarrow>
         (\<exists>eh ph sh named. readTables buf = Some (eh, ph, sh) \<and>
            resolveNames buf eh sh = Inr named \<and>
            img = \<lparr>elfHeader = eh, programHeaders = ph, sectionHeaders = named, view = buf\<rparr>)) \<and>
      (parseELF buf = Inr img \<longrightarrow>
         view img = buf \<and>
         e_class (elfHeader img) = (if buf ! 4 = 1 then ELF32 else ELF64) \<and>
         e_data (elfHeader img) = (if buf ! 5 = 1 then LittleEndian else BigEndian) \<and>
         loadBuffer buf parsed = Some img) \<and>
      (\<forall>eh. readHeader buf (buf ! 4 = 1) (buf ! 5 = 1) = Some eh \<and>
            e_phnum eh = 0 \<and> e_shnum eh = 0 \<longrightarrow>
         parseELF buf =
           Inr \<lparr>elfHeader = eh, programHeaders = [], sectionHeaders = [], view = buf\<rparr>) \<and>
      (\<forall>e. parseELF buf = Inl e \<longrightarrow> e = RangeError \<or> e = TypeError))"
proof (intro conjI impI)
  assume b: "take 4 buf \<noteq> [0x7F, 0x45, 0x4C, 0x46]"
  show "parseELF buf = Inl NotAnELF \<or> parseELF buf = Inl RangeError"
    using parseELF_bad_magic(1)[OF b] .
  then show "loadBuffer buf parsed = parsed"
    by (auto simp: loadBuffer_def)
  show "parseELF buf = Inl NotAnELF" if "4 \<le> length buf"
    using parseELF_bad_magic(2)[OF b that] .
next
  assume g: "take 4 buf = [0x7F, 0x45, 0x4C, 0x46]"
  note m = parseELF_good_magic[OF g]
  show "parseELF buf \<noteq> Inl NotAnELF"
    using m by (auto simp: parseELF_def resolveNames_def split: option.splits sum.splits if_splits)
  show "parseELF buf = Inr img \<longleftrightarrow>
         (\<exists>eh ph sh named. readTables buf = Some (eh, ph, sh) \<and>
            resolveNames buf eh sh = Inr named \<and>
            img = \<lparr>elfHeader = eh, programHeaders = ph, sectionHeaders = named, view = buf\<rparr>)"
    using m by (auto simp: parseELF_def split: option.splits sum.splits)
  show "\<forall>eh. readHeader buf (buf ! 4 = 1) (buf ! 5 = 1) = Some eh \<and>
            e_phnum eh = 0 \<and> e_shnum eh = 0 \<longrightarrow>
         parseELF buf =
           Inr \<lparr>elfHeader = eh, programHeaders = [], sectionHeaders = [], view = buf\<rparr>"
    using m readTables_no_tables[of buf]
    by (auto simp: parseELF_def resolveNames_def)
  show "\<forall>e. parseELF buf = Inl e \<longrightarrow> e = RangeError \<or> e = TypeError"
    using m by (auto simp: parseELF_def resolveNames_def split: option.splits sum.splits if_splits)
  assume i: "parseELF buf = Inr img"
  then obtain eh ph sh named where r: "readTables buf = Some (eh, ph, sh)"
    "img = \<lparr>elfHeader = eh, programHeaders = ph, sectionHeaders = named, view = buf\<rparr>"
    using m by (auto simp: parseELF_def split: option.splits sum.splits)
  show "view img = buf" using r by simp
  show "e_class (elfHeader img) = (if buf ! 4 = 1 then ELF32 else ELF64)"
    using readTables_class(2)[OF r(1)] r(2) by simp
  show "e_data (elfHeader img) = (if buf ! 5 = 1 then LittleEndian else BigEndian)"
    using readTables_class(3)[OF r(1)] r(2) by simp
  show "loadBuffer buf parsed = Some img"
    using i by (simp add: loadBuffer_def)
qed

text \<open>
  Claim C3 as stated fails in its second half: the four signature bytes alone are a buffer
  whose first four bytes match, and the parser throws a range error at byte 4 instead of
  producing an image.
\<close>

theorem parseELF_signature_only:
  "take 4 [0x7F, 0x45, 0x4C, 0x46 :: byte] = [0x7F, 0x45, 0x4C, 0x46] \<and>
   parseELF [0x7F, 0x45, 0x4C, 0x46] = Inl RangeError"
  by (simp add: parseELF_def elfMagic_def getUint8_def readTables_def)

lemma header64_readHeader:
  "readHeader header64 False True =
     Some \<lparr>e_class = ELF64, e_data = LittleEndian, e_entry = 0, e_phoff = 0, e_shoff = 0,
           e_phentsz = 0, e_phnum = 0, e_shentsz = 0, e_shnum = 0, e_shstrndx = 0\<rparr>"
  by (simp add: header64_def readHeader_def readUint_def toNumber_small getUint32_def getUint16_def
      readBytes_def)

theorem parseELF_magic_gate_witness:
  "parseELF header64 =
     Inr \<lparr>elfHeader =
            \<lparr>e_class = ELF64, e_data = LittleEndian, e_entry = 0, e_phoff = 0, e_shoff = 0,
              e_phentsz = 0, e_phnum = 0, e_shentsz = 0, e_shnum = 0, e_shstrndx = 0\<rparr>,
          programHeaders = [], sectionHeaders = [], view = header64\<rparr> \<and>
   parseELF (0 # tl header64) = Inl NotAnELF \<and>
   loadBuffer (0 # tl header64) None = None"
proof -
  have g: "take 4 header64 = [0x7F, 0x45, 0x4C, 0x46]"
    by (simp add: header64_def)
  have b: "take 4 (0 # tl header64) \<noteq> [0x7F, 0x45, 0x4C, 0x46]" "4 \<le> length (0 # tl header64)"
    by (simp_all add: header64_def)
  have h: "header64 ! 4 \<noteq> 1" "header64 ! 5 = 1"
    by (simp_all add: header64_def)
  show ?thesis
    using parseELF_magic_gate[of header64 None undefined] g h header64_readHeader
      parseELF_magic_gate[of "0 # tl header64" None undefined] b
    by simp
qed

section \<open>Proofs: the symbol resolver\<close>

subsection \<open>Reads inside the buffer succeed\<close>

lemma readBytes_Some: "off + n \<le> length v \<Longrightarrow> \<exists>bs. readBytes v off n = Some bs"
  by (simp add: readBytes_def)

lemma getUint32_Some: "off + 4 \<le> length v \<Longrightarrow> \<exists>x. getUint32 v off le = Some x"
  by (simp add: getUint32_def readBytes_def)

lemma getBigUint64_Some: "off + 8 \<le> length v \<Longrightarrow> \<exists>x. getBigUint64 v off = Some x"
  by (simp add: getBigUint64_def toNumber_small readBytes_def)

lemma getUint8_Some_ex: "off < length v \<Longrightarrow> \<exists>x. getUint8 v off = Some x"
  by (simp add: getUint8_def)

lemma readSymbol_in_range:
  assumes "sh_offset symtab + (i + 1) * symbolSize b \<le> length (view p)"
  shows "\<exists>s. readSymbol p b ws wi symtab strtabData i = Some s"
proof (cases b)
  case True
  then have "sh_offset symtab + i * 24 + 24 \<le> length (view p)"
    using assms by (simp add: symbolSize_def algebra_simps)
  then show ?thesis
    using True
    by (simp add: readSymbol_def Let_def symbolSize_def getUint32_def getBigUint64_def toNumber_small
        getUint8_def readBytes_def)
next
  case False
  then have "sh_offset symtab + i * 16 + 16 \<le> length (view p)"
    using assms by (simp add: symbolSize_def algebra_simps)
  then show ?thesis
    using False
    by (simp add: readSymbol_def Let_def symbolSize_def getUint32_def getUint8_def readBytes_def)
qed

lemma loopCount_dvd:
  assumes "0 < e" "e dvd sz"
  shows "loopCount sz e = sz div e"
proof -
  obtain k where k: "sz = e * k" using assms(2) by (auto elim: dvdE)
  have "sz + e - 1 = (e - 1) + k * e" using assms(1) k by (simp add: algebra_simps)
  then have "(sz + e - 1) div e = k + (e - 1) div e"
    using assms(1) by (simp only: div_mult_self1[of e "e - 1" k] add.commute)
  then show ?thesis using assms(1) k by (simp add: loopCount_def)
qed

subsection \<open>The symbol loop when no read throws\<close>

lemma collectFunctions_total:
  assumes "\<forall>i \<in> set is. rd i \<noteq> None"
  shows "collectFunctions rd tb is acc =
           (acc @ map (functionOfSymbol tb) (filter isFunctionSymbol (map (\<lambda>i. the (rd i)) is)),
            False)"
  using assms
  by (induction "is" arbitrary: acc) auto

text \<open>Whatever the loop returns, every function in it was pushed for a named entry of
  type function, with the address rule applied to the entry's value.\<close>

lemma collectFunctions_sound:
  assumes "f \<in> set (fst (collectFunctions rd tb is acc))" "f \<notin> set acc"
  shows "\<exists>i \<in> set is. \<exists>s. rd i = Some s \<and> isFunctionSymbol s \<and> f = functionOfSymbol tb s"
  using assms
proof (induction "is" arbitrary: acc)
  case Nil
  then show ?case by simp
next
  case (Cons i rest)
  show ?case
  proof (cases "rd i")
    case None
    then show ?thesis using Cons.prems by simp
  next
    case (Some s)
    show ?thesis
    proof (cases "isFunctionSymbol s \<and> f = functionOfSymbol tb s")
      case True
      then show ?thesis using Some by auto
    next
      case False
      let ?acc = "if isFunctionSymbol s then acc @ [functionOfSymbol tb s] else acc"
      have "f \<in> set (fst (collectFunctions rd tb rest ?acc))"
        using Cons.prems(1) Some by simp
      moreover have "f \<notin> set ?acc" using Cons.prems(2) False by auto
      ultimately show ?thesis using Cons.IH[of ?acc] by auto
    qed
  qed
qed

subsection \<open>What the symbol-table path returns\<close>

lemma scanSymbolTable_sound:
  assumes "f \<in> set (fst (scanSymbolTable p tb symtab strtab))"
  shows "\<exists>strtabData i s. sectionBytes p strtab = Some strtabData \<and>
           readSymbol p (e_class (elfHeader p) = ELF64) False True symtab strtabData i = Some s \<and>
           isFunctionSymbol s \<and> f = functionOfSymbol tb s"
proof (cases "sectionBytes p symtab")
  case None
  then show ?thesis using assms by (simp add: scanSymbolTable_def)
next
  case y: (Some symtabData)
  show ?thesis
  proof (cases "sectionBytes p strtab")
    case None
    then show ?thesis using assms y by (simp add: scanSymbolTable_def)
  next
    case (Some strtabData)
    have "f \<in> set (fst (collectFunctions
              (readSymbol p (e_class (elfHeader p) = ELF64) False True symtab strtabData) tb
              [0..<loopCount (sh_size symtab) (symbolSize (e_class (elfHeader p) = ELF64))] []))"
      using assms y Some by (simp add: scanSymbolTable_def Let_def)
    then obtain i s where
      "readSymbol p (e_class (elfHeader p) = ELF64) False True symtab strtabData i = Some s"
      "isFunctionSymbol s" "f = functionOfSymbol tb s"
      using collectFunctions_sound[of f _ tb _ "[]"] by fastforce
    then show ?thesis using Some by blast
  qed
qed

lemma scanSymbolTable_empty_table:
  assumes "sh_size symtab = 0"
  shows "fst (scanSymbolTable p tb symtab strtab) = []"
  using assms
  by (simp add: scanSymbolTable_def loopCount_def symbolSize_def Let_def split: option.splits)

text \<open>On the symbol-table path, that is when both tables are found and the loop pushed at
  least one function, the resolver returns what the loop pushed: sorted by address when no
  read threw, in table order when one did.\<close>

lemma extractFunctionSymbols_primary:
  assumes t: "symbolTables p = (Some symtab, Some strtab)"
    and ne: "fst (scanSymbolTable p tb symtab strtab) \<noteq> []"
  shows "extractFunctionSymbols cs p tb =
           (if snd (scanSymbolTable p tb symtab strtab)
            then fst (scanSymbolTable p tb symtab strtab)
            else sort_key fn_address (fst (scanSymbolTable p tb symtab strtab)))"
proof -
  let ?fs = "fst (scanSymbolTable p tb symtab strtab)"
  have z: "sh_size symtab \<noteq> 0"
    using ne scanSymbolTable_empty_table[of symtab p tb strtab] by blast
  have s: "sort_key fn_address ?fs \<noteq> []"
  proof
    assume "sort_key fn_address ?fs = []"
    then have "length (sort_key fn_address ?fs) = 0" by simp
    then have "length ?fs = 0" by (simp only: length_sort)
    then show False using ne by simp
  qed
  show ?thesis
    using t z ne s by (simp add: extractFunctionSymbols_def Let_def)
qed

text \<open>Every element of such a result is the record of a named entry of type function
  (\<open>STT_FUNC\<close>, low nibble of the info byte equal to 2), with the address
  \<open>bias + value\<close> when \<open>value < 0x1000\<close> and \<open>value\<close> otherwise.\<close>

lemma extractFunctionSymbols_function_type:
  assumes t: "symbolTables p = (Some symtab, Some strtab)"
    and ne: "fst (scanSymbolTable p tb symtab strtab) \<noteq> []"
    and f: "f \<in> set (extractFunctionSymbols cs p tb)"
  shows "\<exists>s :: raw_symbol. st_name s \<noteq> [] \<and> st_info s AND 0xf = 2 \<and>
             fn_name f = st_name s \<and> fn_offset f = int (st_value s) \<and>
             fn_address f = (if st_value s < 0x1000 then tb + st_value s else st_value s)"
proof -
  have "f \<in> set (fst (scanSymbolTable p tb symtab strtab))"
    using f extractFunctionSymbols_primary[OF t ne, of cs] by (simp split: if_splits)
  then obtain s where "isFunctionSymbol s" "f = functionOfSymbol tb s"
    using scanSymbolTable_sound by blast
  then have "st_name s \<noteq> [] \<and> st_info s AND 0xf = 2 \<and>
             fn_name f = st_name s \<and> fn_offset f = int (st_value s) \<and>
             fn_address f = (if st_value s < 0x1000 then tb + st_value s else st_value s)"
    by (simp add: isFunctionSymbol_def functionOfSymbol_def)
  then show ?thesis by (rule exI)
qed

lemma extractFunctionSymbols_sorted_unless_thrown:
  assumes t: "symbolTables p = (Some symtab, Some strtab)"
    and ne: "fst (scanSymbolTable p tb symtab strtab) \<noteq> []"
    and n: "\<not> snd (scanSymbolTable p tb symtab strtab)"
  shows "sorted (map fn_address (extractFunctionSymbols cs p tb))"
  using extractFunctionSymbols_primary[OF t ne, of cs] n by simp

subsection \<open>A symbol table of whole entries inside the buffer\<close>

lemma symbolEntries_read:
  assumes y: "sectionBytes p symtab = Some symtabData"
    and i: "i < sh_size symtab div symbolSize (e_class (elfHeader p) = ELF64)"
  shows "readSymbol p (e_class (elfHeader p) = ELF64) False True symtab strtabData i =
           Some (symbolEntries p symtab strtabData ! i)"
proof -
  let ?b = "e_class (elfHeader p) = ELF64"
  have l: "sh_offset symtab + sh_size symtab \<le> length (view p)"
    using y by (simp add: sectionBytes_def readBytes_def split: if_splits)
  have "(i + 1) * symbolSize ?b \<le> (sh_size symtab div symbolSize ?b) * symbolSize ?b"
    using i by (intro mult_le_mono1) simp
  also have "\<dots> \<le> sh_size symtab" by simp
  finally have "sh_offset symtab + (i + 1) * symbolSize ?b \<le> length (view p)"
    using l by simp
  then obtain s where "readSymbol p ?b False True symtab strtabData i = Some s"
    using readSymbol_in_range by blast
  then show ?thesis using i by (simp add: symbolEntries_def)
qed

lemma scanSymbolTable_whole:
  assumes y: "sectionBytes p symtab = Some symtabData"
    and s: "sectionBytes p strtab = Some strtabData"
    and d: "symbolSize (e_class (elfHeader p) = ELF64) dvd sh_size symtab"
  shows "scanSymbolTable p tb symtab strtab =
           (map (functionOfSymbol tb) (filter isFunctionSymbol (symbolEntries p symtab strtabData)),
            False)"
proof -
  let ?b = "e_class (elfHeader p) = ELF64"
  let ?n = "sh_size symtab div symbolSize ?b"
  have c: "loopCount (sh_size symtab) (symbolSize ?b) = ?n"
    using d by (intro loopCount_dvd) (simp_all add: symbolSize_def)
  have r: "\<forall>i \<in> set [0..<?n]. readSymbol p ?b False True symtab strtabData i \<noteq> None"
    using symbolEntries_read[OF y, of _ strtabData] by auto
  show ?thesis
    using y s c collectFunctions_total[OF r, of tb "[]"]
    by (simp add: scanSymbolTable_def Let_def symbolEntries_def)
qed

lemma functionOfSymbol_fields:
  "fn_name (functionOfSymbol tb s) = st_name s"
  "fn_offset (functionOfSymbol tb s) = int (st_value s)"
  "fn_address (functionOfSymbol tb s) = (if st_value s < 0x1000 then tb + st_value s else st_value s)"
  by (simp_all add: functionOfSymbol_def)

text \<open>
  When both tables lie inside the buffer and the symbol table is a whole number of entries
  long, no read throws: the resolver reads every entry and returns exactly the functions
  made from the named entries of type function, stably sorted by address.
\<close>

lemma extractFunctionSymbols_symbol_table_path:
  assumes t: "symbolTables p = (Some symtab, Some strtab)"
    and y: "sectionBytes p symtab = Some symtabData"
    and s: "sectionBytes p strtab = Some strtabData"
    and n: "sh_size symtab \<noteq> 0"
    and d: "symbolSize (e_class (elfHeader p) = ELF64) dvd sh_size symtab"
    and f: "filter isFunctionSymbol (symbolEntries p symtab strtabData) \<noteq> []"
  shows "(\<forall>i < sh_size symtab div symbolSize (e_class (elfHeader p) = ELF64).
            readSymbol p (e_class (elfHeader p) = ELF64) False True symtab strtabData i =
              Some (symbolEntries p symtab strtabData ! i)) \<and>
         extractFunctionSymbols cs p tb =
           sort_key fn_address
             (map (functionOfSymbol tb) (filter isFunctionSymbol (symbolEntries p symtab strtabData))) \<and>
         sorted (map fn_address (extractFunctionSymbols cs p tb)) \<and>
         (\<forall>f \<in> set (extractFunctionSymbols cs p tb).
            \<exists>s \<in> set (symbolEntries p symtab strtabData).
              st_name s \<noteq> [] \<and> st_info s AND 0xf = 2 \<and>
              fn_name f = st_name s \<and> fn_offset f = int (st_value s) \<and>
              fn_address f = (if st_value s < 0x1000 then tb + st_value s else st_value s))"
proof -
  let ?fs = "map (functionOfSymbol tb) (filter isFunctionSymbol (symbolEntries p symtab strtabData))"
  have ne: "sort_key fn_address ?fs \<noteq> []"
  proof
    assume "sort_key fn_address ?fs = []"
    then have "length (sort_key fn_address ?fs) = 0" by simp
    then have "length ?fs = 0" by (simp only: length_sort)
    then show False using f by simp
  qed
  have e: "extractFunctionSymbols cs p tb = sort_key fn_address ?fs"
    using t n ne scanSymbolTable_whole[OF y s d, of tb]
    by (simp add: extractFunctionSymbols_def Let_def)
  have "\<exists>s \<in> set (symbolEntries p symtab strtabData).
          st_name s \<noteq> [] \<and> st_info s AND 0xf = 2 \<and>
          fn_name g = st_name s \<and> fn_offset g = int (st_value s) \<and>
          fn_address g = (if st_value s < 0x1000 then tb + st_value s else st_value s)"
    if "g \<in> set (extractFunctionSymbols cs p tb)" for g
  proof -
    from that e obtain s where "s \<in> set (symbolEntries p symtab strtabData)"
      "isFunctionSymbol s" "g = functionOfSymbol tb s"
      by auto
    then show ?thesis
      by (auto simp: isFunctionSymbol_def functionOfSymbol_fields intro!: bexI[of _ s])
  qed
  then show ?thesis
    using e symbolEntries_read[OF y, of _ strtabData] by (auto simp: sorted_sort_key)
qed

subsection \<open>The resolver on concrete images\<close>

lemma fromCharCode_ascii:
  "fromCharCode 0x61 = CHR ''a''" "fromCharCode 0x62 = CHR ''b''" "fromCharCode 0x64 = CHR ''d''"
  "fromCharCode 0x69 = CHR ''i''" "fromCharCode 0x6D = CHR ''m''" "fromCharCode 0x6E = CHR ''n''"
  "fromCharCode 0x2E = CHR ''.''" "fromCharCode 0x72 = CHR ''r''" "fromCharCode 0x73 = CHR ''s''"
  "fromCharCode 0x74 = CHR ''t''" "fromCharCode 0x79 = CHR ''y''"
  "fromCharCode 0x65 = CHR ''e''" "fromCharCode 0x68 = CHR ''h''" "fromCharCode 0x78 = CHR ''x''"
  by (simp_all add: fromCharCode_def char_of_def bit_numeral_simps bit_Suc_0_iff)

lemma showNat_1: "showNat (Suc 0) = ''1''"
  by (simp add: digitChar_def char_of_def bit_numeral_simps bit_Suc_0_iff)

subsection \<open>A parsed file whose symbol table ends in a partial entry\<close>









lemma objImage_tables:
  "symbolTables objImage = (Some objSymtabSh, Some objStrtabSh)"
  by (simp add: symbolTables_def findSection_def objImage_def objSections_def objTextSh_def objStrtabSh_def objSymtabSh_def objRelaSh_def objNullSh_def)

lemma objImage_bytes:
  "sectionBytes objImage objTextSh = Some objText"
  "sectionBytes objImage objStrtabSh = Some objStrtab"
  "sectionBytes objImage objSymtabSh = Some objSymtab"
  "sectionBytes objImage objRelaSh = Some objRela"
  by (simp_all add: sectionBytes_def readBytes_def objImage_def objSections_def objTextSh_def objStrtabSh_def objSymtabSh_def objRelaSh_def objNullSh_def header64_def
      objText_def objStrtab_def objSymtab_def objRela_def)

lemma objImage_entries:
  "symbolEntries objImage objSymtabSh objStrtab =
     [\<lparr>st_name = [], st_value = 0, st_size = 0, st_info = 0\<rparr>,
      \<lparr>st_name = ''add'', st_value = 0, st_size = 0, st_info = 0x12\<rparr>,
      \<lparr>st_name = ''main'', st_value = 6, st_size = 0, st_info = 0x12\<rparr>]"
  by (simp add: symbolEntries_def objImage_def objSections_def objTextSh_def objStrtabSh_def objSymtabSh_def objRelaSh_def objNullSh_def header64_def
      objText_def objStrtab_def objSymtab_def objRela_def symbolSize_def upt_rec
      readSymbol_def getUint32_def getBigUint64_def toNumber_small getUint8_def readBytes_def
      symbolNameAt_def fromCharCode_ascii)

lemma extractFunctionSymbols_objImage:
  "extractFunctionSymbols refDisasm objImage 0x10000000 =
     [\<lparr>fn_name = ''add'', fn_address = 0x10000000, fn_offset = 0\<rparr>,
      \<lparr>fn_name = ''main'', fn_address = 0x10000006, fn_offset = 6\<rparr>] \<and>
   sorted (map fn_address (extractFunctionSymbols refDisasm objImage 0x10000000))"
proof -
  have n: "sh_size objSymtabSh \<noteq> 0"
    and d: "symbolSize (e_class (elfHeader objImage) = ELF64) dvd sh_size objSymtabSh"
    by (simp_all add: objSections_def objTextSh_def objStrtabSh_def objSymtabSh_def objRelaSh_def objNullSh_def objImage_def symbolSize_def)
  have f: "filter isFunctionSymbol (symbolEntries objImage objSymtabSh objStrtab) =
             [\<lparr>st_name = ''add'', st_value = 0, st_size = 0, st_info = 0x12\<rparr>,
              \<lparr>st_name = ''main'', st_value = 6, st_size = 0, st_info = 0x12\<rparr>]"
    by (simp add: objImage_entries isFunctionSymbol_def)
  then have g: "filter isFunctionSymbol (symbolEntries objImage objSymtabSh objStrtab) \<noteq> []"
    by simp
  show ?thesis
    using extractFunctionSymbols_symbol_table_path
      [OF objImage_tables objImage_bytes(3) objImage_bytes(2) n d g, of refDisasm "0x10000000"]
    by (simp add: f functionOfSymbol_def)
qed

subsection \<open>The fallback detector\<close>

text \<open>The detector opens a function exactly at each instruction that pushes the frame
  pointer and is directly followed by the move that sets it, in order.\<close>

lemma detectLoop_addresses:
  "map fn_address (detectLoop tb k is) =
     map (\<lambda>x. insn_address (fst x))
       (filter (\<lambda>x. isPushFrame (fst x) \<and> isMovFrame (snd x)) (zip is (tl is)))"
  by (induction tb k "is" rule: detectLoop.induct) simp_all

lemma detectLoop_finds_prologue:
  assumes "j + 1 < length is" "isPushFrame (is ! j)" "isMovFrame (is ! (j + 1))"
  shows "detectLoop tb k is \<noteq> []"
proof -
  let ?x = "(is ! j, is ! (j + 1))"
  have "tl is ! j = is ! (j + 1)"
    using assms(1) by (simp add: nth_tl)
  then have "?x \<in> set (zip is (tl is))"
    using assms(1) by (auto simp: set_zip intro!: exI[of _ j])
  moreover have "isPushFrame (fst ?x) \<and> isMovFrame (snd ?x)"
    using assms(2,3) by simp
  ultimately have "\<exists>x \<in> set (zip is (tl is)). isPushFrame (fst x) \<and> isMovFrame (snd x)"
    by blast
  then have "filter (\<lambda>x. isPushFrame (fst x) \<and> isMovFrame (snd x)) (zip is (tl is)) \<noteq> []"
    by (simp add: filter_empty_conv)
  then have "map fn_address (detectLoop tb k is) \<noteq> []"
    by (simp add: detectLoop_addresses)
  then show ?thesis by auto
qed

lemma noSymtab_text: "refDecodeFrom True 0x10000000 0 [0x55, 0x48, 0x89, 0xE5, 0x5D, 0xC3] =
  [\<lparr>insn_address = 0x10000000, insn_size = 1, mnemonic = ''push'', op_str = ''rbp''\<rparr>,
   \<lparr>insn_address = 0x10000001, insn_size = 3, mnemonic = ''mov'', op_str = ''rbp, rsp''\<rparr>,
   \<lparr>insn_address = 0x10000004, insn_size = 1, mnemonic = ''pop'', op_str = ''rbp''\<rparr>,
   \<lparr>insn_address = 0x10000005, insn_size = 1, mnemonic = ''ret'', op_str = []\<rparr>]"
  by (simp add: refDecodeOne_def)

text \<open>
  Claim C5 at an object file without symbol table. \<open>noSymtabImage\<close> has no symbol or
  string table of any kind and its text starts with the prologue. The resolver returns the
  empty list: it leaves through the missing-table branch and never reaches the fallback
  dispatch. The detector, called on the same image, finds the function at the text base.
\<close>

theorem extractFunctionSymbols_skips_fallback_without_symtab:
  "symbolTables noSymtabImage = (None, None) \<and>
   extractFunctionSymbols refDisasm noSymtabImage 0x10000000 = [] \<and>
   detectFunctionsFromAssembly refDisasm noSymtabImage 0x10000000 =
     [\<lparr>fn_name = ''func_1'', fn_address = 0x10000000, fn_offset = 0\<rparr>]"
proof -
  have t: "symbolTables noSymtabImage = (None, None)"
    by (simp add: symbolTables_def findSection_def noSymtabImage_def)
  have "detectFunctionsFromAssembly refDisasm noSymtabImage 0x10000000 =
     [\<lparr>fn_name = ''func_1'', fn_address = 0x10000000, fn_offset = 0\<rparr>]"
    by (simp add: detectFunctionsFromAssembly_def findSection_def noSymtabImage_def
        sectionBytes_def readBytes_def refDisasm_def noSymtab_text isPushFrame_def isMovFrame_def
        showNat_1 del: showNat.simps refDecodeFrom.simps)
  then show ?thesis using t by (simp add: extractFunctionSymbols_def)
qed


section \<open>Proofs: the image builder\<close>

subsection \<open>Rounding\<close>

lemma bitLength_pos: "0 < n \<Longrightarrow> bitLength n = Suc (bitLength (n div 2))"
  by (subst bitLength.simps) simp

lemma bitLength_lower: "0 < n \<Longrightarrow> 2 ^ (bitLength n - 1) \<le> n"
proof (induction n rule: bitLength.induct)
  case (1 n)
  have n: "bitLength n - 1 = bitLength (n div 2)"
    using 1(2) by (simp add: bitLength_pos del: bitLength.simps)
  show ?case
  proof (cases "n div 2 = 0")
    case True
    then have "bitLength (n div 2) = 0" by (subst bitLength.simps) simp
    then show ?thesis using n 1(2) by (simp del: bitLength.simps)
  next
    case False
    then have h: "2 ^ (bitLength (n div 2) - 1) \<le> n div 2"
      using 1 by (simp del: bitLength.simps)
    have "bitLength (n div 2) = Suc (bitLength (n div 2 div 2))"
      using False by (intro bitLength_pos) simp
    then have "bitLength (n div 2) = Suc (bitLength (n div 2) - 1)"
      by (simp del: bitLength.simps)
    then have "(2::nat) ^ (bitLength n - 1) = 2 * 2 ^ (bitLength (n div 2) - 1)"
      using n by (metis power_Suc)
    also have "\<dots> \<le> 2 * (n div 2)" using h by (simp del: bitLength.simps)
    also have "\<dots> \<le> n" by simp
    finally show ?thesis .
  qed
qed

lemma bitLength_ge: "2 ^ m \<le> n \<Longrightarrow> m < bitLength n"
proof (induction m arbitrary: n)
  case 0
  then have "0 < n" by simp
  then show ?case by (simp add: bitLength_pos del: bitLength.simps)
next
  case (Suc m)
  then have "2 ^ m \<le> n div 2" by simp
  then have "m < bitLength (n div 2)" by (rule Suc.IH)
  moreover have "0 < n"
    using Suc.prems zero_less_power[of "2::nat" "Suc m"] by linarith
  ultimately show ?case by (simp add: bitLength_pos del: bitLength.simps)
qed

text \<open>Rounding never takes a number from \<open>2 ^ 53\<close> on to one below it.\<close>

lemma toNumber_large:
  assumes "0x20000000000000 \<le> n"
  shows "0x20000000000000 \<le> toNumber n"
proof -
  define k where "k = bitLength n - 53"
  define u :: nat where "u = 2 ^ k"
  have "(2::nat) ^ 53 \<le> n" using assms by simp
  then have b: "53 < bitLength n" by (rule bitLength_ge)
  then have k: "0 < k" "bitLength n - 1 = 52 + k" by (simp_all add: k_def del: bitLength.simps)
  have "0 < n" using assms by simp
  then have "(2::nat) ^ (bitLength n - 1) \<le> n" by (rule bitLength_lower)
  then have "(2::nat) ^ 52 * u \<le> n"
    unfolding k(2) u_def by (simp only: power_add)
  then have q: "2 ^ 52 \<le> n div u"
    using div_le_mono[of "2 ^ 52 * u" n u] by (simp add: u_def)
  have two: "2 \<le> u"
    using k(1) unfolding u_def by (cases k) simp_all
  have "(2::nat) ^ 52 * 2 \<le> (n div u) * u"
    using q two by (rule mult_le_mono)
  then have low: "0x20000000000000 \<le> (n div u) * u" by simp
  then have low': "0x20000000000000 \<le> (n div u + 1) * u" by simp
  have "toNumber n =
          (if 2 * (n mod u) < u \<or> (2 * (n mod u) = u \<and> even (n div u))
           then (n div u) * u else (n div u + 1) * u)"
    using assms unfolding toNumber_def Let_def u_def k_def
    by (simp del: bitLength.simps)
  then show ?thesis using low low' by (simp del: bitLength.simps)
qed

lemma numAdd_exact: "numAdd a b < 0x20000000000000 \<Longrightarrow> numAdd a b = a + b"
  using toNumber_large[of "a + b"] toNumber_small[of "a + b"]
  by (cases "a + b < 0x20000000000000") (simp_all add: numAdd_def)

lemma numAdd_ge:
  assumes "x \<le> a + b" "x < 0x20000000000000"
  shows "x \<le> numAdd a b"
proof (cases "a + b < 0x20000000000000")
  case True
  then show ?thesis using assms(1) by (simp add: numAdd_def toNumber_small)
next
  case False
  then have "0x20000000000000 \<le> numAdd a b"
    unfolding numAdd_def by (intro toNumber_large) simp
  then show ?thesis using assms(2) by simp
qed

subsection \<open>Page arithmetic\<close>

lemma pageCeil_bounds: "n \<le> pageCeil n \<and> pageCeil n \<le> n + 0xfff"
proof -
  define q where "q = (n + 0xfff) div 0x1000"
  define r where "r = (n + 0xfff) mod 0x1000"
  have "q * 0x1000 + r = n + 0xfff"
    unfolding q_def r_def by (rule div_mult_mod_eq)
  moreover have "r < 0x1000"
    unfolding r_def by simp
  moreover have "pageCeil n = q * 0x1000"
    unfolding pageCeil_def q_def by (rule refl)
  ultimately show ?thesis by linarith
qed

lemma pageCeil_ge: "n \<le> pageCeil n"
  using pageCeil_bounds[of n] by (rule conjunct1)

lemma pageCeil_le: "pageCeil n \<le> n + 0xfff"
  using pageCeil_bounds[of n] by (rule conjunct2)

lemma pageFloor_le: "pageFloor n \<le> n"
  unfolding pageFloor_def by (rule div_times_less_eq_dividend)

lemma pageFloor_pageCeil: "pageFloor (pageCeil n) = pageCeil n"
  unfolding pageFloor_def pageCeil_def by (simp only: nonzero_mult_div_cancel_right)

lemma pageCeil_pos:
  assumes "0 < n"
  shows "0x1000 \<le> pageCeil n"
proof (cases "(n + 0xfff) div 0x1000")
  case 0
  then have "pageCeil n = 0" by (simp only: pageCeil_def mult_zero_left)
  then show ?thesis using pageCeil_ge[of n] assms by linarith
next
  case (Suc k)
  then have "pageCeil n = 0x1000 + k * 0x1000" by (simp only: pageCeil_def mult_Suc)
  then show ?thesis by linarith
qed

lemma alignedSize_pos: "0 < n \<Longrightarrow> max 0x1000 (pageCeil n) = pageCeil n"
  using pageCeil_pos[of n] by (simp only: max_def if_True)

subsection \<open>What one round of the section loop does to the regions and the cursor\<close>

lemma placeSection_regions:
  "mappedRegions (placeSection lops p obj L sh) = mappedRegions L \<or>
   allocated sh \<and>
   (if obj \<and> sh_addr sh = 0 then pageCeil (baseAddr L) else sh_addr sh) \<noteq> 0 \<and>
   mappedRegions (placeSection lops p obj L sh) =
     insert (pageFloor (if obj \<and> sh_addr sh = 0 then pageCeil (baseAddr L) else sh_addr sh),
             pageCeil (sh_size sh)) (mappedRegions L)"
proof (cases "allocated sh")
  case False
  then show ?thesis by (simp add: placeSection_def)
next
  case True
  then have "max 0x1000 (pageCeil (sh_size sh)) = pageCeil (sh_size sh)"
    by (simp add: allocated_def alignedSize_pos)
  then show ?thesis
    using True
    by (simp add: placeSection_def Let_def split: prod.splits option.splits)
qed

lemma placeSection_base:
  "baseAddr (placeSection lops p obj L sh) =
     (if allocated sh \<and> obj \<and> sh_addr sh = 0
      then numAdd (pageCeil (baseAddr L)) (pageCeil (sh_size sh)) else baseAddr L)"
  by (simp add: placeSection_def Let_def split: prod.splits option.splits)

lemma foldl_invariant:
  assumes "I L" and "\<And>L sh. sh \<in> set shs \<Longrightarrow> I L \<Longrightarrow> I (f L sh)"
  shows "I (foldl f L shs)"
  using assms by (induction shs arbitrary: L) simp_all

subsection \<open>The highest address of an executable\<close>

lemma fold_sectionTop_ge: "h \<le> fold sectionTop shs h"
proof (induction shs arbitrary: h)
  case Nil
  then show ?case by simp
next
  case (Cons sh shs)
  have "h \<le> sectionTop sh h" by (simp add: sectionTop_def)
  also have "\<dots> \<le> fold sectionTop shs (sectionTop sh h)" by (rule Cons.IH)
  finally show ?case by simp
qed

lemma fold_segmentTop_ge: "h \<le> fold segmentTop phs h"
proof (induction phs arbitrary: h)
  case Nil
  then show ?case by simp
next
  case (Cons ph phs)
  have "h \<le> segmentTop ph h" by (simp add: segmentTop_def)
  also have "\<dots> \<le> fold segmentTop phs (segmentTop ph h)" by (rule Cons.IH)
  finally show ?case by simp
qed

lemma fold_sectionTop_covers:
  assumes "sh \<in> set shs" "allocated sh" "0 < sh_addr sh"
  shows "numAdd (sh_addr sh) (sh_size sh) \<le> fold sectionTop shs h"
  using assms(1)
proof (induction shs arbitrary: h)
  case Nil
  then show ?case by simp
next
  case (Cons x shs)
  show ?case
  proof (cases "sh = x")
    case True
    have "numAdd (sh_addr sh) (sh_size sh) \<le> sectionTop sh h"
      using assms(2,3) by (simp add: sectionTop_def)
    also have "\<dots> \<le> fold sectionTop shs (sectionTop sh h)" by (rule fold_sectionTop_ge)
    finally show ?thesis using True by simp
  next
    case False
    then show ?thesis using Cons by simp
  qed
qed

lemma fold_segmentTop_covers:
  assumes "ph \<in> set phs" "p_type ph = 1" "0 < p_memsz ph"
  shows "numAdd (p_vaddr ph) (p_memsz ph) \<le> fold segmentTop phs h"
  using assms(1)
proof (induction phs arbitrary: h)
  case Nil
  then show ?case by simp
next
  case (Cons x phs)
  show ?case
  proof (cases "ph = x")
    case True
    have "numAdd (p_vaddr ph) (p_memsz ph) \<le> segmentTop ph h"
      using assms(2,3) by (simp add: segmentTop_def)
    also have "\<dots> \<le> fold segmentTop phs (segmentTop ph h)" by (rule fold_segmentTop_ge)
    finally show ?thesis using True by simp
  next
    case False
    then show ?thesis using Cons by simp
  qed
qed

lemma highestAddr_section:
  assumes "sh \<in> set (sectionHeaders p)" "allocated sh" "0 < sh_addr sh"
  shows "numAdd (sh_addr sh) (sh_size sh) \<le> highestAddr p"
proof -
  have "numAdd (sh_addr sh) (sh_size sh) \<le> fold sectionTop (sectionHeaders p) 0"
    using assms by (rule fold_sectionTop_covers)
  also have "\<dots> \<le> highestAddr p"
    unfolding highestAddr_def by (rule fold_segmentTop_ge)
  finally show ?thesis .
qed

lemma highestAddr_segment:
  assumes "ph \<in> set (programHeaders p)" "p_type ph = 1" "0 < p_memsz ph"
  shows "numAdd (p_vaddr ph) (p_memsz ph) \<le> highestAddr p"
  unfolding highestAddr_def using assms by (rule fold_segmentTop_covers)

text \<open>The stack of an executable lies a megabyte above whatever the highest address
  covers, as long as that is a number doubles hold exactly.\<close>

lemma stackAddr_above:
  assumes "numAdd a s \<le> highestAddr p" "a + s < 0x10000000000000"
  shows "a + s + 0x100000 \<le> stackAddr p False b"
proof -
  have "a + s \<le> highestAddr p"
    using assms by (simp add: numAdd_def toNumber_small)
  then have "a + s + 0x100000 \<le> numAdd (highestAddr p) 0x100000"
    using assms(2) by (intro numAdd_ge) simp_all
  also have "\<dots> \<le> stackAddr p False b"
    by (simp add: stackAddr_def pageCeil_ge)
  finally show ?thesis .
qed

subsection \<open>The regions the section loop maps\<close>

text \<open>Executable: every region ends less than a page above the end of an allocated
  section with a non-zero address.\<close>

lemma placeSections_executable:
  assumes "(a, s) \<in> mappedRegions (placeSections lops p False (newLoader e0 False))"
  shows "\<exists>sh \<in> set (sectionHeaders p).
           allocated sh \<and> 0 < sh_addr sh \<and> a + s \<le> sh_addr sh + sh_size sh + 0xfff"
proof -
  let ?I = "\<lambda>L. \<forall>x \<in> mappedRegions L. \<exists>sh \<in> set (sectionHeaders p).
              allocated sh \<and> 0 < sh_addr sh \<and> fst x + snd x \<le> sh_addr sh + sh_size sh + 0xfff"
  have "?I (foldl (placeSection lops p False) (newLoader e0 False) (sectionHeaders p))"
  proof (rule foldl_invariant)
    show "?I (newLoader e0 False)" by (simp add: newLoader_def)
  next
    fix L :: "'a loader" and sh
    assume sh: "sh \<in> set (sectionHeaders p)" and I: "?I L"
    have le: "pageFloor (sh_addr sh) + pageCeil (sh_size sh) \<le> sh_addr sh + sh_size sh + 0xfff"
      using pageFloor_le[of "sh_addr sh"] pageCeil_le[of "sh_size sh"] by simp
    show "?I (placeSection lops p False L sh)"
    proof
      fix x
      assume x: "x \<in> mappedRegions (placeSection lops p False L sh)"
      consider "x \<in> mappedRegions L"
        | "allocated sh" "sh_addr sh \<noteq> 0" "x = (pageFloor (sh_addr sh), pageCeil (sh_size sh))"
        using placeSection_regions[of lops p False L sh] x by auto
      then show "\<exists>sh \<in> set (sectionHeaders p).
              allocated sh \<and> 0 < sh_addr sh \<and> fst x + snd x \<le> sh_addr sh + sh_size sh + 0xfff"
      proof cases
        case 1
        then show ?thesis using I by blast
      next
        case 2
        then have "allocated sh \<and> 0 < sh_addr sh \<and>
                   fst x + snd x \<le> sh_addr sh + sh_size sh + 0xfff"
          using le by simp
        then show ?thesis using sh by blast
      qed
    qed
  qed
  then have "\<exists>sh \<in> set (sectionHeaders p).
              allocated sh \<and> 0 < sh_addr sh \<and>
              fst (a, s) + snd (a, s) \<le> sh_addr sh + sh_size sh + 0xfff"
    using assms unfolding placeSections_def by (rule bspec)
  then show ?thesis by simp
qed

text \<open>Object file whose allocated sections all carry the address 0: every region ends at
  or below the base cursor, as long as the cursor stays a number doubles hold exactly.\<close>

lemma placeSections_object:
  assumes z: "\<forall>sh \<in> set (sectionHeaders p). allocated sh \<longrightarrow> sh_addr sh = 0"
    and c: "baseAddr (placeSections lops p True (newLoader e0 True)) < 0x20000000000000"
    and r: "(a, s) \<in> mappedRegions (placeSections lops p True (newLoader e0 True))"
  shows "a + s \<le> baseAddr (placeSections lops p True (newLoader e0 True))"
proof -
  let ?I = "\<lambda>L. baseAddr L < 0x20000000000000 \<longrightarrow>
                (\<forall>x \<in> mappedRegions L. fst x + snd x \<le> baseAddr L)"
  have "?I (foldl (placeSection lops p True) (newLoader e0 True) (sectionHeaders p))"
  proof (rule foldl_invariant)
    show "?I (newLoader e0 True)" by (simp add: newLoader_def)
  next
    fix L :: "'a loader" and sh
    assume sh: "sh \<in> set (sectionHeaders p)" and I: "?I L"
    show "?I (placeSection lops p True L sh)"
    proof (cases "allocated sh")
      case False
      then show ?thesis using I by (simp add: placeSection_def)
    next
      case True
      then have a0: "sh_addr sh = 0" using z sh by simp
      have b: "baseAddr (placeSection lops p True L sh) =
                 numAdd (pageCeil (baseAddr L)) (pageCeil (sh_size sh))"
        using True a0 by (simp add: placeSection_base)
      show ?thesis
      proof
        assume "baseAddr (placeSection lops p True L sh) < 0x20000000000000"
        then have e: "baseAddr (placeSection lops p True L sh) =
                        pageCeil (baseAddr L) + pageCeil (sh_size sh)"
          and s: "pageCeil (baseAddr L) + pageCeil (sh_size sh) < 0x20000000000000"
          using numAdd_exact[of "pageCeil (baseAddr L)" "pageCeil (sh_size sh)"] b by simp_all
        have "baseAddr L < 0x20000000000000"
          using s pageCeil_ge[of "baseAddr L"] by linarith
        then have old: "fst x + snd x \<le> pageCeil (baseAddr L) + pageCeil (sh_size sh)"
          if "x \<in> mappedRegions L" for x
          using that I pageCeil_ge[of "baseAddr L"] by fastforce
        show "\<forall>x \<in> mappedRegions (placeSection lops p True L sh).
                fst x + snd x \<le> baseAddr (placeSection lops p True L sh)"
          using placeSection_regions[of lops p True L sh] a0 old
          by (auto simp: e pageFloor_pageCeil)
      qed
    qed
  qed
  then show ?thesis using r c by (auto simp: placeSections_def)
qed

subsection \<open>Where the stack does lie above the image\<close>

text \<open>
  For an executable (no allocated non-empty section at address 0) whose allocated sections
  and loadable segments end below \<open>2 ^ 52\<close>, every region the section loop mapped, every
  allocated non-empty section and every loadable segment of non-zero memory size ends
  below the stack address.
\<close>

lemma stack_above_executable:
  assumes x: "\<not> isObjectFile p"
    and bs: "\<forall>sh \<in> set (sectionHeaders p).
               allocated sh \<longrightarrow> sh_addr sh + sh_size sh < 0x10000000000000"
    and bp: "\<forall>ph \<in> set (programHeaders p).
               p_type ph = 1 \<longrightarrow> p_vaddr ph + p_memsz ph < 0x10000000000000"
  shows "(\<forall>(a, s) \<in> mappedRegions (placeSections lops p False (newLoader e0 False)).
            a + s < stackAddr p False b) \<and>
         (\<forall>sh \<in> set (sectionHeaders p). allocated sh \<longrightarrow>
            sh_addr sh + sh_size sh < stackAddr p False b) \<and>
         (\<forall>ph \<in> set (programHeaders p). p_type ph = 1 \<and> 0 < p_memsz ph \<longrightarrow>
            p_vaddr ph + p_memsz ph < stackAddr p False b)"
proof -
  have nz: "0 < sh_addr sh" if "sh \<in> set (sectionHeaders p)" "allocated sh" for sh
    using that x by (auto simp: isObjectFile_def list_ex_iff)
  have s: "sh_addr sh + sh_size sh + 0x100000 \<le> stackAddr p False b"
    if "sh \<in> set (sectionHeaders p)" "allocated sh" for sh
    using highestAddr_section[OF that nz[OF that]] bs that by (intro stackAddr_above) simp_all
  have r: "a + s < stackAddr p False b"
    if m: "(a, s) \<in> mappedRegions (placeSections lops p False (newLoader e0 False))" for a s
  proof -
    obtain sh where "sh \<in> set (sectionHeaders p)" "allocated sh"
      "a + s \<le> sh_addr sh + sh_size sh + 0xfff"
      using placeSections_executable[OF m] by blast
    then show ?thesis using s[of sh] by simp
  qed
  have g: "p_vaddr ph + p_memsz ph < stackAddr p False b"
    if "ph \<in> set (programHeaders p)" "p_type ph = 1" "0 < p_memsz ph" for ph
  proof -
    have "p_vaddr ph + p_memsz ph + 0x100000 \<le> stackAddr p False b"
      using highestAddr_segment[OF that] bp that(1,2) by (intro stackAddr_above) simp_all
    then show ?thesis by simp
  qed
  have s': "sh_addr sh + sh_size sh < stackAddr p False b"
    if "sh \<in> set (sectionHeaders p)" "allocated sh" for sh
    using s[OF that] by simp
  show ?thesis using r s' g by blast
qed

text \<open>
  For an object file whose allocated non-empty sections all carry the address 0, with a
  base cursor that ends below \<open>2 ^ 52\<close>, every region the section loop mapped ends below
  the stack address.
\<close>

lemma stack_above_object:
  assumes z: "\<forall>sh \<in> set (sectionHeaders p). allocated sh \<longrightarrow> sh_addr sh = 0"
    and c: "baseAddr (placeSections lops p True (newLoader e0 True)) < 0x10000000000000"
  shows "\<forall>(a, s) \<in> mappedRegions (placeSections lops p True (newLoader e0 True)).
           a + s < stackAddr p True (baseAddr (placeSections lops p True (newLoader e0 True)))"
proof -
  let ?c = "baseAddr (placeSections lops p True (newLoader e0 True))"
  have t: "stackAddr p True ?c = ?c + 0x100000"
    using c by (simp add: stackAddr_def numAdd_def toNumber_small)
  have "a + s < stackAddr p True ?c"
    if "(a, s) \<in> mappedRegions (placeSections lops p True (newLoader e0 True))" for a s
  proof -
    have "a + s \<le> ?c"
      using z _ that by (rule placeSections_object) (use c in simp)
    then show ?thesis using t by simp
  qed
  then show ?thesis by blast
qed

subsection \<open>What a finished handler went through\<close>

lemma setupStack_Inr:
  assumes "setupStack lops ops b a e = Inr e1"
  shows "fst (mem_map lops e a STACK_SIZE PROT_ALL) = None"
  using assms by (simp add: setupStack_def andThen_def split: prod.splits option.splits)

lemma prepareImage_Inr:
  assumes "prepareImage lops ops e0 p = Inr pr"
  shows "\<exists>e1. setupStack lops ops (e_class (elfHeader p) = ELF64)
                (stackAddr p (isObjectFile p)
                   (baseAddr (placeSections lops p (isObjectFile p) (newLoader e0 (isObjectFile p)))))
                (ld_engine (placeSections lops p (isObjectFile p) (newLoader e0 (isObjectFile p)))) =
              Inr e1"
proof (cases "setupStack lops ops (e_class (elfHeader p) = ELF64)
                (stackAddr p (isObjectFile p)
                   (baseAddr (placeSections lops p (isObjectFile p) (newLoader e0 (isObjectFile p)))))
                (ld_engine (placeSections lops p (isObjectFile p) (newLoader e0 (isObjectFile p))))")
  case (Inl err)
  then show ?thesis using assms by (simp add: prepareImage_def Let_def)
next
  case (Inr e1)
  then show ?thesis by simp
qed

lemma runUnicorn_Ready_prepared:
  assumes "runUnicorn lops ops perf e0 p = Ready d"
  shows "\<exists>pr. prepareImage lops ops e0 p = Inr pr"
proof (cases "prepareImage lops ops e0 p")
  case (Inl s)
  then show ?thesis using assms by (simp add: runUnicorn_def)
next
  case (Inr pr)
  then show ?thesis by simp
qed

lemma runUnicorn_Ready_stack:
  assumes "runUnicorn lops ops perf e0 p = Ready d"
  shows "fst (mem_map lops
                (ld_engine (placeSections lops p (isObjectFile p) (newLoader e0 (isObjectFile p))))
                (stackAddr p (isObjectFile p)
                   (baseAddr (placeSections lops p (isObjectFile p) (newLoader e0 (isObjectFile p)))))
                STACK_SIZE PROT_ALL) = None"
proof -
  obtain pr where pr: "prepareImage lops ops e0 p = Inr pr"
    using runUnicorn_Ready_prepared[OF assms] by blast
  obtain e1 where "setupStack lops ops (e_class (elfHeader p) = ELF64)
                (stackAddr p (isObjectFile p)
                   (baseAddr (placeSections lops p (isObjectFile p) (newLoader e0 (isObjectFile p)))))
                (ld_engine (placeSections lops p (isObjectFile p) (newLoader e0 (isObjectFile p)))) =
              Inr e1"
    using prepareImage_Inr[OF pr] by (elim exE)
  then show ?thesis by (rule setupStack_Inr)
qed

subsection \<open>The section loop and the stack on concrete images\<close>

lemma rec_fields:
  "mem_map recLoad = rec_mem_map" "mem_write recLoad = rec_mem_write"
  "reg_read recOps = rec_reg_read" "reg_write recOps = rec_reg_write"
  by (simp_all add: recLoad_def recOps_def)

lemma objSections_allocated:
  "\<not> allocated objNullSh" "allocated objTextSh" "\<not> allocated objStrtabSh"
  "\<not> allocated objSymtabSh" "\<not> allocated objRelaSh"
  by (simp_all add: allocated_def objNullSh_def objTextSh_def objStrtabSh_def objSymtabSh_def
      objRelaSh_def)

lemma objImage_isObjectFile: "isObjectFile objImage"
  by (simp add: isObjectFile_def objImage_def objSections_def objSections_allocated)
    (simp add: objTextSh_def)

lemma objTextSh_fields:
  "sh_addr objTextSh = 0" "sh_size objTextSh = 17" "sh_offset objTextSh = 64"
  "sh_flags objTextSh = 6" "sh_name objTextSh = ''.text''"
  by (simp_all add: objTextSh_def)

lemma objText_placed:
  assumes "sectionBytes p objTextSh = Some objText"
  shows "placeSection recLoad p True (newLoader rec0 True) objTextSh =
     \<lparr>ld_engine = objEngine1, baseAddr = 0x10001000, mappedRegions = {(0x10000000, 0x1000)},
      sectionAddresses = [''.text'' \<mapsto> 0x10000000]\<rparr>"
  using assms
  by (simp add: placeSection_def objSections_allocated Let_def newLoader_def
      objTextSh_fields pageCeil_def pageFloor_def numAdd_def toNumber_small sectionProt_def
      PROT_READ_def
      PROT_WRITE_def PROT_EXEC_def rec_fields rec_mem_map_def rec_mem_write_def rec0_def
      objEngine1_def objText_def)

lemma objSections_placed:
  assumes "sectionHeaders p = objSections" "sectionBytes p objTextSh = Some objText"
  shows "placeSections recLoad p True (newLoader rec0 True) =
     \<lparr>ld_engine = objEngine1, baseAddr = 0x10001000, mappedRegions = {(0x10000000, 0x1000)},
      sectionAddresses = [''.text'' \<mapsto> 0x10000000]\<rparr>"
proof -
  have n: "placeSection recLoad p True L sh = L" if "\<not> allocated sh" for L sh
    using that by (simp add: placeSection_def)
  show ?thesis
    using assms(1)
    by (simp add: placeSections_def objSections_def n objSections_allocated
        objText_placed[OF assms(2)])
qed

lemma objImage_placed:
  "placeSections recLoad objImage True (newLoader rec0 True) =
     \<lparr>ld_engine = objEngine1, baseAddr = 0x10001000, mappedRegions = {(0x10000000, 0x1000)},
      sectionAddresses = [''.text'' \<mapsto> 0x10000000]\<rparr>"
  by (rule objSections_placed) (simp add: objImage_def, rule objImage_bytes(1))

lemma objImage_stack:
  "stackAddr objImage True 0x10001000 = 0x10101000"
  "setupStack recLoad recOps True 0x10101000 objEngine1 = Inr objEngine2"
  by (simp_all add: stackAddr_def setupStack_def andThen_def rec_fields numAdd_def
      toNumber_small rec_mem_map_def rec_reg_write_def objEngine1_def objEngine2_def
      STACK_SIZE_def PROT_ALL_def spReg_def)

lemma exeImage_isObjectFile: "\<not> isObjectFile exeImage"
  by (simp add: isObjectFile_def allocated_def exeImage_def objNullSh_def exeTextSh_def
      exeDataSh_def)

lemma exeImage_bytes:
  "sectionBytes exeImage exeTextSh = Some [0x55, 0x48, 0x89, 0xE5, 0x5D, 0xC3]"
  "sectionBytes exeImage exeDataSh = Some [1, 2, 3, 4]"
  by (simp_all add: sectionBytes_def readBytes_def exeImage_def exeTextSh_def exeDataSh_def
      header64_def)

lemma exeSections_fields:
  "allocated exeTextSh" "sh_addr exeTextSh = 0x401000" "sh_size exeTextSh = 6"
  "sh_offset exeTextSh = 64" "sh_flags exeTextSh = 6" "sh_name exeTextSh = ''.text''"
  "allocated exeDataSh" "sh_addr exeDataSh = 0x402010" "sh_size exeDataSh = 4"
  "sh_offset exeDataSh = 70" "sh_flags exeDataSh = 3" "sh_name exeDataSh = ''.data''"
  by (simp_all add: allocated_def exeTextSh_def exeDataSh_def)

lemma exeImage_placed:
  "placeSections recLoad exeImage False (newLoader rec0 False) =
     \<lparr>ld_engine =
        \<lparr>r_regs = [], r_regions = [(0x401000, 0x1000, 6), (0x402000, 0x1000, 3)],
         r_writes = [(0x402010, [1, 2, 3, 4]), (0x401000, [0x55, 0x48, 0x89, 0xE5, 0x5D, 0xC3])]\<rparr>,
      baseAddr = 0,
      mappedRegions = {(0x402000, 0x1000), (0x401000, 0x1000)},
      sectionAddresses = [''.text'' \<mapsto> 0x401000, ''.data'' \<mapsto> 0x402010]\<rparr>"
proof -
  have n: "placeSection recLoad exeImage False L sh = L" if "\<not> allocated sh" for L sh
    using that by (simp add: placeSection_def)
  have s: "sectionHeaders exeImage = [objNullSh, exeTextSh, exeDataSh]"
    by (simp add: exeImage_def)
  have t: "placeSection recLoad exeImage False (newLoader rec0 False) exeTextSh =
     \<lparr>ld_engine =
        \<lparr>r_regs = [], r_regions = [(0x401000, 0x1000, 6)],
         r_writes = [(0x401000, [0x55, 0x48, 0x89, 0xE5, 0x5D, 0xC3])]\<rparr>,
      baseAddr = 0, mappedRegions = {(0x401000, 0x1000)},
      sectionAddresses = [''.text'' \<mapsto> 0x401000]\<rparr>"
    by (simp add: placeSection_def exeSections_fields exeImage_bytes Let_def newLoader_def
        pageCeil_def pageFloor_def sectionProt_def PROT_READ_def PROT_WRITE_def PROT_EXEC_def
        rec_fields rec_mem_map_def rec_mem_write_def rec0_def)
  show ?thesis
    by (simp add: placeSections_def s n objSections_allocated t)
      (simp add: placeSection_def exeSections_fields exeImage_bytes Let_def
        pageCeil_def pageFloor_def sectionProt_def PROT_READ_def PROT_WRITE_def PROT_EXEC_def
        rec_fields rec_mem_map_def rec_mem_write_def)
qed

lemma exeImage_stack: "stackAddr exeImage False b = 0x503000"
  by (simp add: stackAddr_def highestAddr_def exeImage_def sectionTop_def segmentTop_def
      pageCeil_def numAdd_def toNumber_small exeSections_fields objSections_allocated)

lemma exeImage_loaded:
  "runUnicorn recLoad recOps False rec0 exeImage =
     Ready \<lparr>engine = exeEngine, is64bit = True, entryPoint = 0x401000,
            currentAddress = 0x401000, breakpoints = {}, isRunning = False, isPaused = False,
            executionTrace = [], lastLoggedAddress = None, pendingTrace = None,
            executionCount = None, maxInstructions = None,
            emuOutput = [DebuggerInitialized], consoleLog = []\<rparr>"
proof -
  have c: "e_class (elfHeader exeImage) = ELF64" "e_entry (elfHeader exeImage) = 0x401000"
    "findSection ''.rela.text'' exeImage = None"
    by (simp_all add: exeImage_def findSection_def objNullSh_def exeTextSh_def exeDataSh_def)
  show ?thesis
    by (simp add: runUnicorn_def prepareImage_def Let_def exeImage_isObjectFile exeImage_placed
        exeImage_stack c setupStack_def andThen_def findEntry_def processRelocations_def
        trampolineIfMain_def finishInit_def newDebugger_def pcReg_def spReg_def numAdd_def
        toNumber_small mainFound_def
        rec_fields rec_mem_map_def rec_reg_write_def STACK_SIZE_def PROT_ALL_def
        exeEngine_def)
qed

subsection \<open>A parsed object file with a section at a stored address\<close>

lemma strayData_readHeader: "readHeader strayDataFile False True = Some strayDataHeader"
  by (simp add: strayDataFile_def strayDataHeader_def readHeader_def readUint_def
      toNumber_small getUint32_def getUint16_def readBytes_def)

lemma strayData_readSections:
  "readSectionHeader strayDataFile False True strayDataHeader 0 = Some strayNullSh"
  "readSectionHeader strayDataFile False True strayDataHeader (Suc 0) =
     Some (strayTextSh\<lparr>sh_name := []\<rparr>)"
  "readSectionHeader strayDataFile False True strayDataHeader (Suc (Suc 0)) =
     Some (strayDataSh\<lparr>sh_name := []\<rparr>)"
  "readSectionHeader strayDataFile False True strayDataHeader 3 =
     Some (strayNamesSh\<lparr>sh_name := []\<rparr>)"
  by (simp_all add: strayDataFile_def strayDataHeader_def strayNullSh_def strayTextSh_def
      strayDataSh_def strayNamesSh_def readSectionHeader_def readUint_def toNumber_small
      getUint32_def readBytes_def Let_def)

lemma strayData_readTables:
  "readTables strayDataFile =
     Some (strayDataHeader, [],
           [strayNullSh, strayTextSh\<lparr>sh_name := []\<rparr>, strayDataSh\<lparr>sh_name := []\<rparr>,
            strayNamesSh\<lparr>sh_name := []\<rparr>])"
proof -
  have c: "getUint8 strayDataFile 4 = Some 2" "getUint8 strayDataFile 5 = Some 1"
    by (simp_all add: getUint8_def strayDataFile_def)
  have n: "e_phnum strayDataHeader = 0" "e_shnum strayDataHeader = 4"
    by (simp_all add: strayDataHeader_def)
  have u: "[0..<4] = [0, Suc 0, Suc (Suc 0), 3]"
    by (simp add: upt_rec)
  show ?thesis
    by (simp add: readTables_def c strayData_readHeader n u strayData_readSections)
qed

lemma strayData_names:
  "getString strayDataFile 320 = Some []"
  "getString strayDataFile 321 = Some ''.text''"
  "getString strayDataFile 327 = Some ''.data''"
  "getString strayDataFile 333 = Some ''.shstrtab''"
  by (simp_all add: getString_def strayDataFile_def fromCharCode_ascii)

lemma strayDataFile_parsed: "parseELF strayDataFile = Inr strayDataImage"
proof -
  have m: "magicSome strayDataFile elfMagic = Inr False"
    by (simp add: elfMagic_def getUint8_def strayDataFile_def)
  have r: "resolveNames strayDataFile strayDataHeader
             [strayNullSh, strayTextSh\<lparr>sh_name := []\<rparr>, strayDataSh\<lparr>sh_name := []\<rparr>,
              strayNamesSh\<lparr>sh_name := []\<rparr>] =
           Inr [strayNullSh, strayTextSh, strayDataSh, strayNamesSh]"
    by (simp add: resolveNames_def strayDataHeader_def strayNullSh_def strayTextSh_def
        strayDataSh_def strayNamesSh_def strayData_names)
  show ?thesis
    by (simp add: parseELF_def m strayData_readTables r strayDataImage_def)
qed

lemma strayData_isObjectFile: "isObjectFile strayDataImage"
  by (simp add: isObjectFile_def allocated_def strayDataImage_def strayNullSh_def
      strayTextSh_def)

lemma strayData_placed:
  "placeSections recLoad strayDataImage True (newLoader rec0 True) =
     \<lparr>ld_engine =
        \<lparr>r_regs = [], r_regions = [(0x10000000, 0x1000, 6), (0x10101000, 0x1000, 3)],
         r_writes = [(0x10101000, [1, 2, 3, 4]),
                     (0x10000000, [0x55, 0x48, 0x89, 0xE5, 0x5D, 0xC3])]\<rparr>,
      baseAddr = 0x10001000,
      mappedRegions = {(0x10101000, 0x1000), (0x10000000, 0x1000)},
      sectionAddresses = [''.text'' \<mapsto> 0x10000000, ''.data'' \<mapsto> 0x10101000]\<rparr>"
  by (simp add: placeSections_def placeSection_def strayDataImage_def strayDataFile_def
      strayNullSh_def strayTextSh_def strayDataSh_def strayNamesSh_def allocated_def Let_def
      newLoader_def sectionBytes_def readBytes_def pageCeil_def pageFloor_def numAdd_def
      toNumber_small sectionProt_def PROT_READ_def PROT_WRITE_def PROT_EXEC_def rec_fields
      rec_mem_map_def rec_mem_write_def rec0_def)

lemma strayData_loaded:
  "runUnicorn recLoad recOps False rec0 strayDataImage = Stopped (Throws UC_ERR_MAP)"
  by (simp add: runUnicorn_def prepareImage_def Let_def strayData_isObjectFile strayData_placed
      stackAddr_def numAdd_def toNumber_small setupStack_def andThen_def rec_fields
      rec_mem_map_def STACK_SIZE_def PROT_ALL_def)

text \<open>
  Claim C6 at a file the parser accepts. \<open>strayDataFile\<close> parses to \<open>strayDataImage\<close>,
  which is an object file for the handler, because its text section is allocated at address
  0. The section loop places the text with the base cursor, at 0x10000000, and maps the
  data section where its header says, as the region of 0x1000 bytes at 0x10101000. The
  cursor only counts the text, so the stack address is \<open>0x10001000 + 0x100000\<close>, which is
  0x10101000: the stack region starts where the data region starts, not above its end. The
  recording engine refuses the overlapping mapping, and the handler ends with that
  exception instead of a debugger. (For executables, and for object files whose allocated
  sections all carry the address 0, the stack does lie above every mapped region:
  \<open>stack_above_executable\<close>, \<open>stack_above_object\<close>.)
\<close>

theorem stack_overlaps_section_at_stored_address:
  "parseELF strayDataFile = Inr strayDataImage \<and>
   isObjectFile strayDataImage \<and>
   mappedRegions (placeSections recLoad strayDataImage True (newLoader rec0 True)) =
     {(0x10101000, 0x1000), (0x10000000, 0x1000)} \<and>
   stackAddr strayDataImage True
     (baseAddr (placeSections recLoad strayDataImage True (newLoader rec0 True))) = 0x10101000 \<and>
   \<not> (0x10101000 + 0x1000 \<le>
        stackAddr strayDataImage True
          (baseAddr (placeSections recLoad strayDataImage True (newLoader rec0 True)))) \<and>
   runUnicorn recLoad recOps False rec0 strayDataImage = Stopped (Throws UC_ERR_MAP)"
  by (simp add: strayDataFile_parsed strayData_isObjectFile strayData_placed strayData_loaded
      stackAddr_def numAdd_def toNumber_small)

section \<open>Proofs: the relocation resolver\<close>

subsection \<open>The four patch bytes\<close>
















subsection \<open>One entry of the relocation table\<close>


text \<open>The function map never holds the empty name, so the condition on the name only
  excludes entries whose symbol has no name.\<close>

lemma collectMap_names:
  assumes "collectMap rd textAddr is fm = Some fm'" "[] \<notin> fst ` set fm"
  shows "[] \<notin> fst ` set fm'"
  using assms
proof (induction "is" arbitrary: fm)
  case Nil
  then show ?case by simp
next
  case (Cons i rest)
  then obtain s where s: "rd i = Some s" by (cases "rd i") simp_all
  let ?fm = "if isFunctionSymbol s
             then fm @ [(st_name s, textPlus textAddr (st_value s))] else fm"
  have "collectMap rd textAddr rest ?fm = Some fm'"
    using Cons.prems(1) s by simp
  moreover have "[] \<notin> fst ` set ?fm"
    using Cons.prems(2) by (auto simp: isFunctionSymbol_def)
  ultimately show ?case by (rule Cons.IH)
qed

lemma buildFunctionMap_names:
  assumes "buildFunctionMap p b symtabSection strtabSection textAddr = Some fm"
  shows "fmGet fm [] = None"
proof -
  have "[] \<notin> fst ` set fm"
  proof (cases "\<exists>y s. symtabSection = Some y \<and> strtabSection = Some s")
    case True
    then obtain y s where "symtabSection = Some y" "strtabSection = Some s" by blast
    then obtain sd where
      "collectMap (readSymbol p b True True y sd) textAddr
         [0..<loopCount (sh_size y) (symbolSize b)] [] = Some fm"
      using assms
      by (auto simp: buildFunctionMap_def bind_eq_Some_conv)
    then show ?thesis using collectMap_names[of _ textAddr _ "[]" fm] by simp
  next
    case False
    then have "fm = []"
      using assms by (auto simp: buildFunctionMap_def split: option.splits)
    then show ?thesis by simp
  qed
  then have "[] \<notin> fst ` set (rev fm)" by simp
  then show ?thesis
    unfolding fmGet_def by (simp add: map_of_eq_None_iff)
qed

section \<open>Proofs: the entry point and the halt trampoline\<close>

lemma finishInit_fields:
  "breakpoints (finishInit ops b perf entry x e) = (case x of None \<Rightarrow> {} | Some a \<Rightarrow> {a})"
  "engine (finishInit ops b perf entry x e) = reg_write ops e (pcReg b) entry"
  "entryPoint (finishInit ops b perf entry x e) = entry"
  by (simp_all add: finishInit_def newDebugger_def addBreakpoint_def log_def Let_def
      split: option.splits)

lemma andThen_Inr:
  assumes "andThen r k = Inr y"
  shows "\<exists>e. k e = Inr y"
proof (cases r)
  case (Pair err e)
  then show ?thesis using assms by (cases err) (auto simp: andThen_def)
qed

lemma installTrampoline_exit:
  assumes "installTrampoline lops ops b STACK_ADDR e = Inr (e1, exitAddr)"
  shows "exitAddr = numAdd (numAdd STACK_ADDR STACK_SIZE) 0x1000"
proof (cases "passArguments lops ops b e")
  case (Inl err)
  then show ?thesis using assms by (simp add: installTrampoline_def)
next
  case (Inr e0)
  let ?x = "numAdd (numAdd STACK_ADDR STACK_SIZE) 0x1000"
  have "andThen (mem_map lops e0 ?x 0x1000 PROT_ALL)
          (\<lambda>e2. andThen (mem_write lops e2 ?x [0xF4])
             (\<lambda>e3. case pushReturnAddress lops ops b ?x e3 of
                      Inl err \<Rightarrow> Inl err
                    | Inr e4 \<Rightarrow> Inr (e4, ?x))) = Inr (e1, exitAddr)"
    using assms Inr by (simp add: installTrampoline_def Let_def)
  then obtain e2 where
    "andThen (mem_write lops e2 ?x [0xF4])
       (\<lambda>e3. case pushReturnAddress lops ops b ?x e3 of
                Inl err \<Rightarrow> Inl err
              | Inr e4 \<Rightarrow> Inr (e4, ?x)) = Inr (e1, exitAddr)"
    using andThen_Inr by fastforce
  then obtain e3 where
    "(case pushReturnAddress lops ops b ?x e3 of
        Inl err \<Rightarrow> Inl err
      | Inr e4 \<Rightarrow> Inr (e4, ?x)) = Inr (e1, exitAddr)"
    using andThen_Inr by fastforce
  then show ?thesis
    by (cases "pushReturnAddress lops ops b ?x e3") simp_all
qed

lemma prepareImage_parts:
  assumes "prepareImage lops ops e0 p = Inr pr"
  shows "\<exists>e1 fm.
     findEntry p (isObjectFile p)
       (sectionAddresses (placeSections lops p (isObjectFile p) (newLoader e0 (isObjectFile p)))) =
     Inr (pr_entry pr, pr_main pr, fm) \<and>
     pr_text pr =
       sectionAddresses (placeSections lops p (isObjectFile p) (newLoader e0 (isObjectFile p)))
         ''.text'' \<and>
     pr_stack pr =
       stackAddr p (isObjectFile p)
         (baseAddr (placeSections lops p (isObjectFile p) (newLoader e0 (isObjectFile p)))) \<and>
     processRelocations lops p (e_class (elfHeader p) = ELF64) fm (pr_text pr) e1 =
       Inr (pr_engine pr)"
proof -
  let ?L = "placeSections lops p (isObjectFile p) (newLoader e0 (isObjectFile p))"
  let ?b = "e_class (elfHeader p) = ELF64"
  obtain e1 where s: "setupStack lops ops ?b (stackAddr p (isObjectFile p) (baseAddr ?L))
                        (ld_engine ?L) = Inr e1"
    using prepareImage_Inr[OF assms] by (elim exE)
  show ?thesis
  proof (cases "findEntry p (isObjectFile p) (sectionAddresses ?L)")
    case (Inl x)
    then show ?thesis using assms s by (simp add: prepareImage_def Let_def)
  next
    case (Inr y)
    obtain entry mainAddr fm where y: "y = (entry, mainAddr, fm)"
      by (metis prod_cases3)
    show ?thesis
    proof (cases "processRelocations lops p ?b fm (sectionAddresses ?L ''.text'') e1")
      case (Inl x)
      then show ?thesis using assms s Inr y by (simp add: prepareImage_def Let_def)
    next
      case r: (Inr e2)
      have "pr = \<lparr>pr_engine = e2, pr_stack = stackAddr p (isObjectFile p) (baseAddr ?L),
                  pr_entry = entry, pr_main = mainAddr,
                  pr_text = sectionAddresses ?L ''.text''\<rparr>"
        using assms s Inr y r by (simp add: prepareImage_def Let_def)
      then show ?thesis using Inr y r by auto
    qed
  qed
qed

lemma findEntry_object:
  assumes "findEntry p True addrs = Inr (entry, mainAddr, fm)"
  shows "lookupMain p (e_class (elfHeader p) = ELF64) (findSection ''.symtab'' p)
           (findSection ''.strtab'' p) = Some mainAddr \<and>
         objectEntry (addrs ''.text'') mainAddr = Some entry"
proof (cases "lookupMain p (e_class (elfHeader p) = ELF64) (findSection ''.symtab'' p)
                (findSection ''.strtab'' p)")
  case None
  then show ?thesis using assms by (simp add: findEntry_def Let_def)
next
  case m: (Some ma)
  show ?thesis
  proof (cases "buildFunctionMap p (e_class (elfHeader p) = ELF64) (findSection ''.symtab'' p)
                  (findSection ''.strtab'' p) (addrs ''.text'')")
    case None
    then show ?thesis using assms m by (simp add: findEntry_def Let_def)
  next
    case f: (Some fm')
    show ?thesis
    proof (cases "objectEntry (addrs ''.text'') ma")
      case None
      then show ?thesis using assms m f by (simp add: findEntry_def Let_def)
    next
      case (Some en)
      then show ?thesis using assms m f
        by (simp add: findEntry_def Let_def split: if_splits)
    qed
  qed
qed

lemma objectEntry_main:
  assumes "objectEntry textAddr (Some m) = Some entry" "0 < m"
  shows "entry = textPlus textAddr m"
  using assms by (simp add: objectEntry_def)

lemma objectEntry_fallback:
  assumes "objectEntry textAddr mainAddr = Some entry" "mainAddr = None \<or> mainAddr = Some 0"
  shows "\<exists>t. textAddr = Some t \<and> entry = Num t"
  using assms by (auto simp: objectEntry_def split: option.splits if_splits)

text \<open>
  Claim C9. Take an object file for which the handler gets as far as the trampoline block,
  with the engine \<open>pr_engine\<close>, the stack address \<open>pr_stack\<close>, the text address
  \<open>pr_text\<close> recorded by the section loop and \<open>pr_main\<close>, the value of the first symbol
  named \<open>main\<close> if the lookup found one. If that value is strictly positive, the entry point
  is the text address plus the value, the handler runs the trampoline block on the engine,
  and a debugger it ends with has exactly one breakpoint, at the exit address
  \<open>pr_stack + STACK_SIZE + 0x1000\<close> (sums as the program's doubles give them). If \<open>main\<close>
  was not found or its value is 0, the text address exists, the entry point is the text
  address, and the handler ends with the debugger built directly on \<open>pr_engine\<close>: no call
  of the trampoline block reaches the engine (only the program counter is written), and
  there is no breakpoint.
\<close>

theorem trampoline_only_for_positive_main:
  assumes obj: "isObjectFile p"
    and pr: "prepareImage lops ops e0 p = Inr pr"
  shows "lookupMain p (e_class (elfHeader p) = ELF64) (findSection ''.symtab'' p)
           (findSection ''.strtab'' p) = Some (pr_main pr) \<and>
         pr_text pr =
           sectionAddresses (placeSections lops p True (newLoader e0 True)) ''.text'' \<and>
         (\<forall>m. pr_main pr = Some m \<and> 0 < m \<longrightarrow>
            pr_entry pr = textPlus (pr_text pr) m \<and>
            runUnicorn lops ops perf e0 p =
              (case installTrampoline lops ops (e_class (elfHeader p) = ELF64) (pr_stack pr)
                      (pr_engine pr) of
                 Inl err \<Rightarrow> Stopped (Throws err)
               | Inr (e, exitAddr) \<Rightarrow>
                   (case pr_text pr of
                      None \<Rightarrow> Stopped NaNToEngine
                    | Some t \<Rightarrow>
                        Ready (finishInit ops (e_class (elfHeader p) = ELF64) perf (numAdd t m)
                                 (Some exitAddr) e))) \<and>
            (\<forall>d. runUnicorn lops ops perf e0 p = Ready d \<longrightarrow>
                   breakpoints d = {numAdd (numAdd (pr_stack pr) STACK_SIZE) 0x1000})) \<and>
         (pr_main pr = None \<or> pr_main pr = Some 0 \<longrightarrow>
            (\<exists>t. pr_text pr = Some t \<and> pr_entry pr = Num t \<and>
               runUnicorn lops ops perf e0 p =
                 Ready (finishInit ops (e_class (elfHeader p) = ELF64) perf t None (pr_engine pr)) \<and>
               breakpoints
                 (finishInit ops (e_class (elfHeader p) = ELF64) perf t None (pr_engine pr)) = {} \<and>
               engine
                 (finishInit ops (e_class (elfHeader p) = ELF64) perf t None (pr_engine pr)) =
                 reg_write ops (pr_engine pr) (pcReg (e_class (elfHeader p) = ELF64)) t))"
proof -
  let ?b = "e_class (elfHeader p) = ELF64"
  obtain e1 fm where
    f: "findEntry p True (sectionAddresses (placeSections lops p True (newLoader e0 True))) =
          Inr (pr_entry pr, pr_main pr, fm)"
    and x: "pr_text pr = sectionAddresses (placeSections lops p True (newLoader e0 True)) ''.text''"
    using prepareImage_parts[OF pr] obj by auto
  have l: "lookupMain p ?b (findSection ''.symtab'' p) (findSection ''.strtab'' p) =
             Some (pr_main pr)"
    using findEntry_object[OF f] by (rule conjunct1)
  have o: "objectEntry (pr_text pr) (pr_main pr) = Some (pr_entry pr)"
    using findEntry_object[OF f] x by simp
  have run: "runUnicorn lops ops perf e0 p =
               (case trampolineIfMain lops ops ?b True (pr_main pr) (pr_stack pr) (pr_engine pr) of
                  Inl err \<Rightarrow> Stopped (Throws err)
                | Inr (e3, exitAddr) \<Rightarrow>
                    (case pr_entry pr of
                       NaN \<Rightarrow> Stopped NaNToEngine
                     | Num entry \<Rightarrow> Ready (finishInit ops ?b perf entry exitAddr e3)))"
    using pr obj by (simp add: runUnicorn_def Let_def)
  have pos: "pr_entry pr = textPlus (pr_text pr) m \<and>
            runUnicorn lops ops perf e0 p =
              (case installTrampoline lops ops ?b (pr_stack pr) (pr_engine pr) of
                 Inl err \<Rightarrow> Stopped (Throws err)
               | Inr (e, exitAddr) \<Rightarrow>
                   (case pr_text pr of
                      None \<Rightarrow> Stopped NaNToEngine
                    | Some t \<Rightarrow> Ready (finishInit ops ?b perf (numAdd t m) (Some exitAddr) e))) \<and>
            (\<forall>d. runUnicorn lops ops perf e0 p = Ready d \<longrightarrow>
                   breakpoints d = {numAdd (numAdd (pr_stack pr) STACK_SIZE) 0x1000})"
    if m: "pr_main pr = Some m" "0 < m" for m
  proof -
    have e: "pr_entry pr = textPlus (pr_text pr) m"
      using objectEntry_main[of "pr_text pr" m "pr_entry pr"] o m by simp
    have tr: "trampolineIfMain lops ops ?b True (pr_main pr) (pr_stack pr) (pr_engine pr) =
                (case installTrampoline lops ops ?b (pr_stack pr) (pr_engine pr) of
                   Inl err \<Rightarrow> Inl err
                 | Inr (e1, exitAddr) \<Rightarrow> Inr (e1, Some exitAddr))"
      using m by (simp add: trampolineIfMain_def mainFound_def)
    show ?thesis
    proof (cases "installTrampoline lops ops ?b (pr_stack pr) (pr_engine pr)")
      case (Inl err)
      then show ?thesis using run tr e by simp
    next
      case (Inr y)
      obtain e2 exitAddr where y: "y = (e2, exitAddr)" by (cases y)
      have a: "exitAddr = numAdd (numAdd (pr_stack pr) STACK_SIZE) 0x1000"
        using Inr y installTrampoline_exit[of lops ops ?b "pr_stack pr" "pr_engine pr" e2 exitAddr]
        by simp
      show ?thesis
      proof (cases "pr_text pr")
        case None
        then show ?thesis using run tr e Inr y by (simp add: textPlus_def)
      next
        case (Some t)
        then show ?thesis using run tr e Inr y a by (simp add: textPlus_def finishInit_fields)
      qed
    qed
  qed
  have zero: "\<exists>t. pr_text pr = Some t \<and> pr_entry pr = Num t \<and>
               runUnicorn lops ops perf e0 p =
                 Ready (finishInit ops ?b perf t None (pr_engine pr)) \<and>
               breakpoints (finishInit ops ?b perf t None (pr_engine pr)) = {} \<and>
               engine (finishInit ops ?b perf t None (pr_engine pr)) =
                 reg_write ops (pr_engine pr) (pcReg ?b) t"
    if z: "pr_main pr = None \<or> pr_main pr = Some 0"
  proof -
    obtain t where t: "pr_text pr = Some t" "pr_entry pr = Num t"
      using objectEntry_fallback[OF o z] by blast
    have "\<not> mainFound (pr_main pr)"
      using z by (auto simp: mainFound_def)
    then have "runUnicorn lops ops perf e0 p =
                 Ready (finishInit ops ?b perf t None (pr_engine pr))"
      using run t by (simp add: trampolineIfMain_def)
    then show ?thesis using t by (simp add: finishInit_fields)
  qed
  show ?thesis using l x pos zero by blast
qed

subsection \<open>The entry point and the relocation of the small object file\<close>

lemma objImage_sections:
  "findSection ''.symtab'' objImage = Some objSymtabSh"
  "findSection ''.strtab'' objImage = Some objStrtabSh"
  "findSection ''.rela.text'' objImage = Some objRelaSh"
  "e_class (elfHeader objImage) = ELF64"
  "view objImage = header64 @ objText @ objStrtab @ objSymtab @ objRela"
  by (simp_all add: findSection_def objImage_def objSections_def objNullSh_def objTextSh_def
      objStrtabSh_def objSymtabSh_def objRelaSh_def)

lemma objTables_fields:
  "sh_offset objSymtabSh = 91" "sh_size objSymtabSh = 72"
  "sh_offset objStrtabSh = 81" "sh_size objStrtabSh = 10"
  "sh_offset objRelaSh = 163" "sh_size objRelaSh = 24"
  by (simp_all add: objSymtabSh_def objStrtabSh_def objRelaSh_def)

lemma objImage_lookupMain:
  "lookupMain objImage True (Some objSymtabSh) (Some objStrtabSh) = Some (Some 6)"
  by (simp add: lookupMain_def objImage_bytes objTables_fields objImage_sections loopCount_def
      symbolSize_def upt_rec readSymbol_def getUint32_def getBigUint64_def toNumber_small
      readBytes_def symbolNameAt_def fromCharCode_ascii header64_def objText_def objStrtab_def
      objSymtab_def objRela_def)

lemma objImage_functionMap:
  "buildFunctionMap objImage True (Some objSymtabSh) (Some objStrtabSh) (Some 0x10000000) =
     Some objFunctionMap"
  by (simp add: buildFunctionMap_def objImage_bytes objTables_fields objImage_sections
      loopCount_def symbolSize_def upt_rec readSymbol_def getUint32_def getBigUint64_def
      toNumber_small getUint8_def readBytes_def symbolNameAt_def fromCharCode_ascii header64_def
      objText_def objStrtab_def objSymtab_def objRela_def isFunctionSymbol_def textPlus_def
      numAdd_def objFunctionMap_def)

lemma objImage_findEntry:
  "findEntry objImage True [''.text'' \<mapsto> 0x10000000] =
     Inr (Num 0x10000006, Some 6, objFunctionMap)"
  by (simp add: findEntry_def objImage_sections objImage_lookupMain objImage_functionMap
      objectEntry_def textPlus_def numAdd_def toNumber_small)

lemma objImage_readRela:
  "readRela objImage True objRelaSh 0 =
     Some \<lparr>r_offset = 11, r_info = 0x100000004, r_addend = - 4\<rparr>"
  by (simp add: readRela_def relaSize_def objTables_fields objImage_sections getBigUint64_def
      getBigInt64_def toNumber_small readBytes_def header64_def objText_def objStrtab_def
      objSymtab_def objRela_def)

lemma relocInfo_eval:
  "symbolIndexOf True 0x100000004 = 1" "relocTypeOf True 0x100000004 = 4"
  by (simp_all add: symbolIndexOf_def relocTypeOf_def toInt32_def)

lemma objImage_relocSymbolName:
  "relocSymbolName objImage True (Some objSymtabSh) (Some objStrtabSh) 1 = Some ''add''"
  by (simp add: relocSymbolName_def symbolSize_def objImage_bytes objTables_fields
      objImage_sections getUint32_def readBytes_def symbolNameAt_def fromCharCode_ascii
      header64_def objText_def objStrtab_def objSymtab_def objRela_def)

lemma setInt32_minus_15: "setInt32 (Some (- 15)) = [0xF1, 0xFF, 0xFF, 0xFF]"
  by (simp add: setInt32_def le32_def)

lemma setInt32_minus_9: "setInt32 (Some (- 9)) = [0xF7, 0xFF, 0xFF, 0xFF]"
  by (simp add: setInt32_def le32_def)

lemma objImage_fmGet: "fmGet objFunctionMap ''add'' = Some (Num 0x10000000)"
  by (simp add: fmGet_def objFunctionMap_def)

lemma objEngine3_write:
  "snd (mem_write recLoad objEngine2 0x1000000B [0xF1, 0xFF, 0xFF, 0xFF]) = objEngine3"
  by (simp add: rec_fields rec_mem_write_def objEngine2_def objEngine3_def)


lemma objImage_relocStep:
  "relocStep recLoad objImage True (Some objSymtabSh) (Some objStrtabSh) objFunctionMap
     (Some 0x10000000) objRelaSh 0 objEngine2 = Inr objEngine3"
  by (simp add: relocStep_def objImage_readRela relocInfo_eval objImage_relocSymbolName
      applyRelocation_def objImage_fmGet relativeAddr_def displacement_def patchAddrOf_def
      numAdd_def numSub_def toNumber_small setInt32_minus_15 objEngine3_write)

lemma objImage_relocations:
  "processRelocations recLoad objImage True objFunctionMap (Some 0x10000000) objEngine2 =
     Inr objEngine3"
proof -
  have "objFunctionMap \<noteq> []" by (simp add: objFunctionMap_def)
  then show ?thesis
    by (simp add: processRelocations_def objImage_sections objTables_fields objImage_bytes
        loopCount_def relaSize_def upt_rec objImage_relocStep)
qed

lemma objImage_prepared:
  "prepareImage recLoad recOps rec0 objImage =
     Inr \<lparr>pr_engine = objEngine3, pr_stack = 0x10101000, pr_entry = Num 0x10000006,
          pr_main = Some 6, pr_text = Some 0x10000000\<rparr>"
  by (simp add: prepareImage_def Let_def objImage_isObjectFile objImage_placed objImage_stack
      objImage_sections objImage_findEntry objImage_relocations)

lemma objImage_trampoline:
  "installTrampoline recLoad recOps True 0x10101000 objEngine3 = Inr (objEngine4, 0x10112000)"
  by (simp add: installTrampoline_def passArguments_def pushReturnAddress_def andThen_def
      Let_def rec_fields rec_reg_write_def rec_reg_read_def rec_mem_map_def rec_mem_write_def
      STACK_SIZE_def PROT_ALL_def spReg_def le64_def le32_def numAdd_def toNumber_small
      objEngine3_def objEngine4_def)


subsection \<open>The object file whose \<open>main\<close> is at offset 0\<close>

lemma mainFirst_sections:
  "sectionHeaders mainFirstImage = objSections"
  "findSection ''.symtab'' mainFirstImage = Some objSymtabSh"
  "findSection ''.strtab'' mainFirstImage = Some objStrtabSh"
  "findSection ''.rela.text'' mainFirstImage = Some objRelaSh"
  "e_class (elfHeader mainFirstImage) = ELF64"
  "view mainFirstImage = header64 @ objText @ objStrtab @ mainFirstSymtab @ objRela"
  by (simp_all add: mainFirstImage_def findSection_def objImage_def objSections_def
      objNullSh_def objTextSh_def objStrtabSh_def objSymtabSh_def objRelaSh_def)

lemma mainFirst_bytes:
  "sectionBytes mainFirstImage objTextSh = Some objText"
  "sectionBytes mainFirstImage objStrtabSh = Some objStrtab"
  "sectionBytes mainFirstImage objSymtabSh = Some mainFirstSymtab"
  "sectionBytes mainFirstImage objRelaSh = Some objRela"
  by (simp_all add: sectionBytes_def readBytes_def mainFirst_sections objTextSh_fields
      objTables_fields header64_def objText_def objStrtab_def mainFirstSymtab_def objRela_def)

lemma mainFirst_isObjectFile: "isObjectFile mainFirstImage"
  by (simp add: isObjectFile_def mainFirst_sections objSections_def objSections_allocated
      objTextSh_fields)

lemma mainFirst_placed:
  "placeSections recLoad mainFirstImage True (newLoader rec0 True) =
     \<lparr>ld_engine = objEngine1, baseAddr = 0x10001000, mappedRegions = {(0x10000000, 0x1000)},
      sectionAddresses = [''.text'' \<mapsto> 0x10000000]\<rparr>"
  by (rule objSections_placed) (rule mainFirst_sections(1), rule mainFirst_bytes(1))

lemma mainFirst_lookupMain:
  "lookupMain mainFirstImage True (Some objSymtabSh) (Some objStrtabSh) = Some (Some 0)"
  by (simp add: lookupMain_def mainFirst_bytes objTables_fields mainFirst_sections loopCount_def
      symbolSize_def upt_rec readSymbol_def getUint32_def getBigUint64_def toNumber_small
      readBytes_def symbolNameAt_def fromCharCode_ascii header64_def objText_def objStrtab_def
      mainFirstSymtab_def objRela_def)

lemma mainFirst_functionMap:
  "buildFunctionMap mainFirstImage True (Some objSymtabSh) (Some objStrtabSh) (Some 0x10000000) =
     Some mainFirstFunctionMap"
  by (simp add: buildFunctionMap_def mainFirst_bytes objTables_fields mainFirst_sections
      loopCount_def symbolSize_def upt_rec readSymbol_def getUint32_def getBigUint64_def
      toNumber_small getUint8_def readBytes_def symbolNameAt_def fromCharCode_ascii header64_def
      objText_def objStrtab_def mainFirstSymtab_def objRela_def isFunctionSymbol_def
      textPlus_def numAdd_def mainFirstFunctionMap_def)

lemma mainFirst_findEntry:
  "findEntry mainFirstImage True [''.text'' \<mapsto> 0x10000000] =
     Inr (Num 0x10000000, Some 0, mainFirstFunctionMap)"
  by (simp add: findEntry_def mainFirst_sections mainFirst_lookupMain mainFirst_functionMap
      objectEntry_def)

lemma mainFirst_readRela:
  "readRela mainFirstImage True objRelaSh 0 =
     Some \<lparr>r_offset = 11, r_info = 0x100000004, r_addend = - 4\<rparr>"
  by (simp add: readRela_def relaSize_def objTables_fields mainFirst_sections getBigUint64_def
      getBigInt64_def toNumber_small readBytes_def header64_def objText_def objStrtab_def
      mainFirstSymtab_def objRela_def)

lemma mainFirst_relocSymbolName:
  "relocSymbolName mainFirstImage True (Some objSymtabSh) (Some objStrtabSh) 1 = Some ''add''"
  by (simp add: relocSymbolName_def symbolSize_def mainFirst_bytes objTables_fields
      mainFirst_sections getUint32_def readBytes_def symbolNameAt_def fromCharCode_ascii
      header64_def objText_def objStrtab_def mainFirstSymtab_def objRela_def)

lemma mainFirst_relocations:
  "processRelocations recLoad mainFirstImage True mainFirstFunctionMap (Some 0x10000000)
     objEngine2 = Inr mainFirstEngine"
proof -
  have n: "mainFirstFunctionMap \<noteq> []"
    and g: "fmGet mainFirstFunctionMap ''add'' = Some (Num 0x10000006)"
    by (simp_all add: mainFirstFunctionMap_def fmGet_def)
  have w: "snd (mem_write recLoad objEngine2 0x1000000B [0xF7, 0xFF, 0xFF, 0xFF]) =
             mainFirstEngine"
    by (simp add: rec_fields rec_mem_write_def objEngine2_def mainFirstEngine_def)
  have "relocStep recLoad mainFirstImage True (Some objSymtabSh) (Some objStrtabSh)
          mainFirstFunctionMap (Some 0x10000000) objRelaSh 0 objEngine2 = Inr mainFirstEngine"
    by (simp add: relocStep_def mainFirst_readRela relocInfo_eval mainFirst_relocSymbolName
        applyRelocation_def g relativeAddr_def displacement_def patchAddrOf_def numAdd_def
        numSub_def toNumber_small setInt32_minus_9 w)
  then show ?thesis
    using n
    by (simp add: processRelocations_def mainFirst_sections objTables_fields mainFirst_bytes
        loopCount_def relaSize_def upt_rec)
qed

lemma mainFirst_prepared:
  "prepareImage recLoad recOps rec0 mainFirstImage =
     Inr \<lparr>pr_engine = mainFirstEngine, pr_stack = 0x10101000, pr_entry = Num 0x10000000,
          pr_main = Some 0, pr_text = Some 0x10000000\<rparr>"
proof -
  have s: "stackAddr mainFirstImage True 0x10001000 = 0x10101000"
    by (simp add: stackAddr_def numAdd_def toNumber_small)
  show ?thesis
    by (simp add: prepareImage_def Let_def mainFirst_isObjectFile mainFirst_placed s
        objImage_stack mainFirst_sections mainFirst_findEntry mainFirst_relocations)
qed

text \<open>
  Claim C9 on the two small object files, loaded into the recording engine. In the first
  \<open>main\<close> is at offset 6: the debugger starts at 0x10000006, the page at 0x10112000 is
  mapped and holds F4, its address is on the stack, the two argument registers are 0, and
  the one breakpoint is at 0x10112000. In the second \<open>main\<close> is at offset 0: the debugger
  starts at the text address, the engine has only the text and the stack, and there is no
  breakpoint.
\<close>

theorem trampoline_only_for_positive_main_witness:
  "runUnicorn recLoad recOps False rec0 objImage = Ready objDebugger \<and>
   runUnicorn recLoad recOps False rec0 mainFirstImage = Ready mainFirstDebugger"
  using trampoline_only_for_positive_main[OF objImage_isObjectFile objImage_prepared, of False]
    trampoline_only_for_positive_main[OF mainFirst_isObjectFile mainFirst_prepared, of False]
  by (simp add: objImage_sections mainFirst_sections objImage_trampoline finishInit_def
      newDebugger_def addBreakpoint_def log_def pcReg_def rec_fields rec_reg_write_def
      numAdd_def toNumber_small objEngine4_def mainFirstEngine_def objDebugger_def
      mainFirstDebugger_def)

end
